theory Spec2Isabelle
  imports Complex_Main
begin

section \<open>JavaScript numbers and values\<close>

text \<open>
  A JavaScript number is modelled as a real, the two infinities, or NaN, with a single
  zero (the divisors that can be zero in this program are square roots, whose zero is
  the positive one). NaN and the infinities follow ECMAScript: every comparison with NaN
  is false, NaN is contagious in arithmetic, and \<open>Math.max\<close>/\<open>Math.min\<close> return NaN as
  soon as one argument is NaN. The operators \<open>+ - * /\<close> on \<open>jsnum\<close> and the \<open>Math_\<close>
  functions are the exact ones. The operations of the program, which round each finite
  result to a double, are \<open>add64\<close>, \<open>sub64\<close>, \<open>mul64\<close>, \<open>div64\<close>, \<open>sqrt64\<close>, \<open>cos64\<close>,
  \<open>sin64\<close> and \<open>atan2_64\<close> below. The handlers and the tick are written with the exact
  operators; \<open>spawnPuck\<close> and the two collision routines are written with the rounded
  ones as well (\<open>spawnPuck64\<close>, \<open>collideWithPaddle64\<close>, \<open>checkPaddleCollision64\<close>), and
  the speed of a spawned puck and the geometry of a collision are proved of those.
\<close>

datatype jsnum = NaN | PInf | NInf | Fin real

instantiation jsnum :: "{plus, minus, uminus, times, inverse, abs, ord}"
begin

fun plus_jsnum :: "jsnum \<Rightarrow> jsnum \<Rightarrow> jsnum" where
  "plus_jsnum NaN _ = NaN"
| "plus_jsnum _ NaN = NaN"
| "plus_jsnum (Fin a) (Fin b) = Fin (a + b)"
| "plus_jsnum PInf NInf = NaN"
| "plus_jsnum NInf PInf = NaN"
| "plus_jsnum PInf _ = PInf"
| "plus_jsnum _ PInf = PInf"
| "plus_jsnum NInf _ = NInf"
| "plus_jsnum _ NInf = NInf"

fun uminus_jsnum :: "jsnum \<Rightarrow> jsnum" where
  "uminus_jsnum NaN = NaN"
| "uminus_jsnum PInf = NInf"
| "uminus_jsnum NInf = PInf"
| "uminus_jsnum (Fin a) = Fin (- a)"

definition minus_jsnum :: "jsnum \<Rightarrow> jsnum \<Rightarrow> jsnum" where
  "minus_jsnum (a :: jsnum) (b :: jsnum) = a + (- b)"

fun times_jsnum :: "jsnum \<Rightarrow> jsnum \<Rightarrow> jsnum" where
  "times_jsnum NaN _ = NaN"
| "times_jsnum _ NaN = NaN"
| "times_jsnum (Fin a) (Fin b) = Fin (a * b)"
| "times_jsnum PInf (Fin b) = (if b = 0 then NaN else if 0 < b then PInf else NInf)"
| "times_jsnum NInf (Fin b) = (if b = 0 then NaN else if 0 < b then NInf else PInf)"
| "times_jsnum (Fin a) PInf = (if a = 0 then NaN else if 0 < a then PInf else NInf)"
| "times_jsnum (Fin a) NInf = (if a = 0 then NaN else if 0 < a then NInf else PInf)"
| "times_jsnum PInf PInf = PInf"
| "times_jsnum PInf NInf = NInf"
| "times_jsnum NInf PInf = NInf"
| "times_jsnum NInf NInf = PInf"

fun divide_jsnum :: "jsnum \<Rightarrow> jsnum \<Rightarrow> jsnum" where
  "divide_jsnum NaN _ = NaN"
| "divide_jsnum _ NaN = NaN"
| "divide_jsnum (Fin a) (Fin b) =
     (if b = 0 then (if a = 0 then NaN else if 0 < a then PInf else NInf)
      else Fin (a / b))"
| "divide_jsnum (Fin a) PInf = Fin 0"
| "divide_jsnum (Fin a) NInf = Fin 0"
| "divide_jsnum PInf (Fin b) = (if 0 \<le> b then PInf else NInf)"
| "divide_jsnum NInf (Fin b) = (if 0 \<le> b then NInf else PInf)"
| "divide_jsnum PInf PInf = NaN"
| "divide_jsnum PInf NInf = NaN"
| "divide_jsnum NInf PInf = NaN"
| "divide_jsnum NInf NInf = NaN"

fun inverse_jsnum :: "jsnum \<Rightarrow> jsnum" where
  "inverse_jsnum NaN = NaN"
| "inverse_jsnum PInf = Fin 0"
| "inverse_jsnum NInf = Fin 0"
| "inverse_jsnum (Fin a) = (if a = 0 then PInf else Fin (1 / a))"

fun abs_jsnum :: "jsnum \<Rightarrow> jsnum" where
  "abs_jsnum NaN = NaN"
| "abs_jsnum PInf = PInf"
| "abs_jsnum NInf = PInf"
| "abs_jsnum (Fin a) = Fin \<bar>a\<bar>"

fun less_eq_jsnum :: "jsnum \<Rightarrow> jsnum \<Rightarrow> bool" where
  "less_eq_jsnum NaN _ = False"
| "less_eq_jsnum _ NaN = False"
| "less_eq_jsnum (Fin a) (Fin b) = (a \<le> b)"
| "less_eq_jsnum NInf _ = True"
| "less_eq_jsnum _ PInf = True"
| "less_eq_jsnum PInf _ = False"
| "less_eq_jsnum _ NInf = False"

fun less_jsnum :: "jsnum \<Rightarrow> jsnum \<Rightarrow> bool" where
  "less_jsnum NaN _ = False"
| "less_jsnum _ NaN = False"
| "less_jsnum (Fin a) (Fin b) = (a < b)"
| "less_jsnum PInf _ = False"
| "less_jsnum _ NInf = False"
| "less_jsnum NInf _ = True"
| "less_jsnum _ PInf = True"

instance ..

end

text \<open>Strict equality \<open>===\<close> on numbers: NaN equals nothing, itself included.\<close>

definition jseq :: "jsnum \<Rightarrow> jsnum \<Rightarrow> bool" where
  "jseq a b = (a \<noteq> NaN \<and> a = b)"

text \<open>\<open>a || b\<close> on numbers: 0 and NaN are falsy.\<close>

definition jor :: "jsnum \<Rightarrow> jsnum \<Rightarrow> jsnum" where
  "jor a b = (if a = NaN \<or> a = Fin 0 then b else a)"

fun Math_max :: "jsnum \<Rightarrow> jsnum \<Rightarrow> jsnum" where
  "Math_max NaN _ = NaN"
| "Math_max _ NaN = NaN"
| "Math_max a b = (if a \<le> b then b else a)"

fun Math_min :: "jsnum \<Rightarrow> jsnum \<Rightarrow> jsnum" where
  "Math_min NaN _ = NaN"
| "Math_min _ NaN = NaN"
| "Math_min a b = (if a \<le> b then a else b)"

definition Math_abs :: "jsnum \<Rightarrow> jsnum" where
  "Math_abs a = \<bar>a\<bar>"

fun Math_sqrt :: "jsnum \<Rightarrow> jsnum" where
  "Math_sqrt NaN = NaN"
| "Math_sqrt PInf = PInf"
| "Math_sqrt NInf = NaN"
| "Math_sqrt (Fin a) = (if a < 0 then NaN else Fin (sqrt a))"

fun Math_sign :: "jsnum \<Rightarrow> jsnum" where
  "Math_sign NaN = NaN"
| "Math_sign PInf = Fin 1"
| "Math_sign NInf = Fin (- 1)"
| "Math_sign (Fin a) = Fin (sgn a)"

fun Math_cos :: "jsnum \<Rightarrow> jsnum" where
  "Math_cos (Fin a) = Fin (cos a)"
| "Math_cos _ = NaN"

fun Math_sin :: "jsnum \<Rightarrow> jsnum" where
  "Math_sin (Fin a) = Fin (sin a)"
| "Math_sin _ = NaN"

definition Math_PI :: jsnum where
  "Math_PI = Fin pi"

text \<open>\<open>Math.atan2(y, x)\<close> on finite arguments, the single zero read as +0.\<close>

definition atan2 :: "real \<Rightarrow> real \<Rightarrow> real" where
  "atan2 b a =
     (if 0 < a then arctan (b / a)
      else if a < 0 then (if 0 \<le> b then arctan (b / a) + pi else arctan (b / a) - pi)
      else if 0 < b then pi / 2
      else if b < 0 then - (pi / 2)
      else 0)"

fun Math_atan2 :: "jsnum \<Rightarrow> jsnum \<Rightarrow> jsnum" where
  "Math_atan2 NaN _ = NaN"
| "Math_atan2 _ NaN = NaN"
| "Math_atan2 (Fin b) (Fin a) = Fin (atan2 b a)"
| "Math_atan2 (Fin b) PInf = Fin 0"
| "Math_atan2 (Fin b) NInf = (if 0 \<le> b then Fin pi else Fin (- pi))"
| "Math_atan2 PInf (Fin a) = Fin (pi / 2)"
| "Math_atan2 NInf (Fin a) = Fin (- (pi / 2))"
| "Math_atan2 PInf PInf = Fin (pi / 4)"
| "Math_atan2 PInf NInf = Fin (3 * pi / 4)"
| "Math_atan2 NInf PInf = Fin (- (pi / 4))"
| "Math_atan2 NInf NInf = Fin (- (3 * pi / 4))"

subsection \<open>Doubles\<close>

text \<open>
  The numbers of the program are IEEE 754 doubles. \<open>to_double x\<close> is the double nearest
  to the real \<open>x\<close>: 53 significant bits, a tie going to the even significand. The exponent
  is left unbounded: the overflow to an infinity and the subnormal numbers are not
  modelled. The theorems on doubles are about coordinates within the table, a speed of
  6.5 and radii of at most 40.
\<close>

definition round_half_even :: "real \<Rightarrow> int" where
  "round_half_even r =
     (let f = \<lfloor>r\<rfloor>
      in if r - of_int f < 1 / 2 then f
         else if 1 / 2 < r - of_int f then f + 1
         else if even f then f else f + 1)"

definition to_double :: "real \<Rightarrow> real" where
  "to_double x =
     (if x = 0 then 0
      else let e = \<lfloor>log 2 \<bar>x\<bar>\<rfloor> - 52
           in of_int (round_half_even (x / 2 powr of_int e)) * 2 powr of_int e)"

fun round64 :: "jsnum \<Rightarrow> jsnum" where
  "round64 (Fin x) = Fin (to_double x)"
| "round64 v = v"

text \<open>
  The operators and the functions of \<open>Math\<close> as the program computes them: the exact
  result, rounded. \<open>Math.sqrt\<close> is correctly rounded; for \<open>Math.cos\<close>, \<open>Math.sin\<close> and
  \<open>Math.atan2\<close>, which an engine may round either way, the model takes the nearest double
  (the bounds proved below leave room for an error of one unit in the last place).
\<close>

definition add64 :: "jsnum \<Rightarrow> jsnum \<Rightarrow> jsnum" where
  "add64 a b = round64 (a + b)"

definition sub64 :: "jsnum \<Rightarrow> jsnum \<Rightarrow> jsnum" where
  "sub64 a b = round64 (a - b)"

definition mul64 :: "jsnum \<Rightarrow> jsnum \<Rightarrow> jsnum" where
  "mul64 a b = round64 (a * b)"

definition div64 :: "jsnum \<Rightarrow> jsnum \<Rightarrow> jsnum" where
  "div64 a b = round64 (a / b)"

definition sqrt64 :: "jsnum \<Rightarrow> jsnum" where
  "sqrt64 a = round64 (Math_sqrt a)"

definition cos64 :: "jsnum \<Rightarrow> jsnum" where
  "cos64 a = round64 (Math_cos a)"

definition sin64 :: "jsnum \<Rightarrow> jsnum" where
  "sin64 a = round64 (Math_sin a)"

definition atan2_64 :: "jsnum \<Rightarrow> jsnum \<Rightarrow> jsnum" where
  "atan2_64 b a = round64 (Math_atan2 b a)"

definition PI64 :: jsnum where
  "PI64 = round64 Math_PI"

text \<open>A factor within \<open>k\<close> rounding units of 1.\<close>

definition near1 :: "real \<Rightarrow> real \<Rightarrow> bool" where
  "near1 k r \<longleftrightarrow> \<bar>r - 1\<bar> \<le> k / 2 ^ 53"

text \<open>
  A value received in a message: what \<open>typeof\<close> can tell apart, with every object,
  array and function collapsed into \<open>JObject\<close>.
\<close>

datatype jsval = JUndefined | JNull | JBool bool | JNum jsnum | JStr string | JObject

fun typeof :: "jsval \<Rightarrow> string" where
  "typeof JUndefined = ''undefined''"
| "typeof JNull = ''object''"
| "typeof (JBool _) = ''boolean''"
| "typeof (JNum _) = ''number''"
| "typeof (JStr _) = ''string''"
| "typeof JObject = ''object''"

datatype jserror = TypeError

section \<open>The server-authoritative variant (960 x 540 table)\<close>

text \<open>
  The server that owns the physics (part_001 of the sources): its constants, its room
  registry, its three socket handlers and its tick. Objects the code mutates in place
  are passed in and returned. A score is a natural number: the counters start at 0 and
  only ever grow by 1, far below the 2^53 where a double stops counting.
\<close>

definition TABLE_WIDTH :: jsnum where "TABLE_WIDTH = Fin 960"
definition TABLE_HEIGHT :: jsnum where "TABLE_HEIGHT = Fin 540"
definition CENTER_X :: jsnum where "CENTER_X = TABLE_WIDTH / Fin 2"
definition CENTER_Y :: jsnum where "CENTER_Y = TABLE_HEIGHT / Fin 2"
definition PADDLE_RADIUS :: jsnum where "PADDLE_RADIUS = Fin 40"
definition PUCK_RADIUS :: jsnum where "PUCK_RADIUS = Fin 18"
definition PUCK_START_SPEED :: jsnum where "PUCK_START_SPEED = Fin 6.5"
definition PUCK_FRICTION :: jsnum where "PUCK_FRICTION = Fin 0.993"

datatype side = Left | Right

record puck =
  puck_x :: jsnum
  puck_y :: jsnum
  puck_vx :: jsnum
  puck_vy :: jsnum

record paddle =
  pad_id :: string
  pad_x :: jsnum
  pad_y :: jsnum
  pad_vx :: jsnum
  pad_vy :: jsnum
  pad_lastUpdate :: int

record room =
  room_id :: string
  players :: "side \<Rightarrow> paddle option"
  room_puck :: puck
  scores :: "side \<Rightarrow> nat"
  goalFlash :: "(side \<times> int) option"

type_synonym rooms = "string \<Rightarrow> room option"

text \<open>
  \<open>spawnPuck(lastScorer)\<close>; \<open>rnd\<close> is the value \<open>Math.random()\<close> returns.
\<close>

definition spawnPuck :: "side option \<Rightarrow> real \<Rightarrow> puck" where
  "spawnPuck lastScorer rnd =
     (let angle = Fin rnd * Math_PI * Fin 2;
          speed = PUCK_START_SPEED;
          direction =
            (if lastScorer = Some Left then Fin 1
             else if lastScorer = Some Right then Fin (- 1)
             else jor (Math_sign (Math_cos angle)) (Fin 1))
      in \<lparr>puck_x = CENTER_X,
          puck_y = CENTER_Y,
          puck_vx = Math_abs (Math_cos angle) * speed * direction,
          puck_vy = Math_sin angle * speed\<rparr>)"

text \<open>
  \<open>spawnPuck(lastScorer)\<close> in doubles: every product is rounded, and so are the cosine
  and the sine. The constants 960 / 2, 540 / 2 and 6.5 are doubles as they stand.
\<close>

definition spawnPuck64 :: "side option \<Rightarrow> real \<Rightarrow> puck" where
  "spawnPuck64 lastScorer rnd =
     (let angle = mul64 (mul64 (Fin rnd) PI64) (Fin 2);
          speed = PUCK_START_SPEED;
          direction =
            (if lastScorer = Some Left then Fin 1
             else if lastScorer = Some Right then Fin (- 1)
             else jor (Math_sign (cos64 angle)) (Fin 1))
      in \<lparr>puck_x = CENTER_X,
          puck_y = CENTER_Y,
          puck_vx = mul64 (mul64 (Math_abs (cos64 angle)) speed) direction,
          puck_vy = mul64 (sin64 angle) speed\<rparr>)"

definition createRoom :: "rooms \<Rightarrow> string \<Rightarrow> real \<Rightarrow> rooms \<times> room" where
  "createRoom rs roomId rnd =
     (let room = \<lparr>room_id = roomId,
                  players = (\<lambda>_. None),
                  room_puck = spawnPuck None rnd,
                  scores = (\<lambda>_. 0),
                  goalFlash = None\<rparr>
      in (rs(roomId \<mapsto> room), room))"

definition clamp :: "jsnum \<Rightarrow> jsnum \<Rightarrow> jsnum \<Rightarrow> jsnum" where
  "clamp v lo hi = Math_max lo (Math_min hi v)"

record spaddle =
  sp_x :: jsnum
  sp_y :: jsnum
  sp_vx :: jsnum
  sp_vy :: jsnum

record snapshot =
  st_width :: jsnum
  st_height :: jsnum
  st_paddles :: "side \<Rightarrow> spaddle option"
  st_puck :: puck
  st_scores :: "side \<Rightarrow> nat"
  st_waitingFor :: int
  st_goalFlash :: "side option"

definition serializePaddle :: "paddle \<Rightarrow> spaddle" where
  "serializePaddle paddle =
     \<lparr>sp_x = pad_x paddle, sp_y = pad_y paddle, sp_vx = pad_vx paddle, sp_vy = pad_vy paddle\<rparr>"

text \<open>\<open>buildState(room)\<close>; \<open>now\<close> is the reading of \<open>Date.now()\<close>.\<close>

definition buildState :: "room \<Rightarrow> int \<Rightarrow> snapshot" where
  "buildState room now =
     \<lparr>st_width = TABLE_WIDTH,
      st_height = TABLE_HEIGHT,
      st_paddles = (\<lambda>s. map_option serializePaddle (players room s)),
      st_puck = room_puck room,
      st_scores = scores room,
      st_waitingFor = 2 - int (length (filter (\<lambda>s. players room s \<noteq> None) [Left, Right])),
      st_goalFlash =
        (case goalFlash room of
           None \<Rightarrow> None
         | Some (s, until) \<Rightarrow> (if now < until then Some s else None))\<rparr>"

text \<open>
  A connection: its id and \<open>socket.data\<close>. What a handler sends is returned as a list:
  to the socket itself, or to the other sockets of a room.
\<close>

record socket =
  sock_id :: string
  data_roomId :: "string option"
  data_side :: "side option"

datatype message =
    ErrorMessage string
  | RoomFull
  | Joined side snapshot
  | PlayerJoined side
  | PlayerLeft side

datatype emit = ToSocket message | ToOthers string message

text \<open>The \<open>join-room\<close> handler; the empty string is the falsy room id.\<close>

definition join_room ::
  "rooms \<Rightarrow> socket \<Rightarrow> string \<Rightarrow> int \<Rightarrow> real \<Rightarrow> rooms \<times> socket \<times> emit list" where
  "join_room rs sock roomId now rnd =
     (if roomId = [] then (rs, sock, [ToSocket (ErrorMessage ''Room id is required'')])
      else
        let (rs, room) = (case rs roomId of None \<Rightarrow> createRoom rs roomId rnd | Some r \<Rightarrow> (rs, r))
        in if players room Left \<noteq> None \<and> players room Right \<noteq> None
           then (rs, sock, [ToSocket RoomFull])
           else
             let side = (if players room Left \<noteq> None then Right else Left);
                 startX = (if side = Left then PADDLE_RADIUS * Fin 2
                           else TABLE_WIDTH - PADDLE_RADIUS * Fin 2);
                 room = room\<lparr>players := (players room)(side :=
                          Some \<lparr>pad_id = sock_id sock, pad_x = startX, pad_y = CENTER_Y,
                                pad_vx = Fin 0, pad_vy = Fin 0, pad_lastUpdate = now\<rparr>)\<rparr>;
                 rs = rs(roomId \<mapsto> room);
                 sock = sock\<lparr>data_roomId := Some roomId, data_side := Some side\<rparr>
             in (rs, sock,
                 [ToSocket (Joined side (buildState room now)),
                  ToOthers roomId (PlayerJoined side)]))"

text \<open>
  \<open>const { roomId, side } = socket.data; if (!roomId || !side) return;\<close>
  gives the binding of a connection, if it has one.
\<close>

definition socket_data :: "socket \<Rightarrow> (string \<times> side) option" where
  "socket_data sock =
     (case data_roomId sock of
        None \<Rightarrow> None
      | Some roomId \<Rightarrow>
          (if roomId = [] then None
           else (case data_side sock of None \<Rightarrow> None | Some s \<Rightarrow> Some (roomId, s))))"

text \<open>
  The argument of a \<open>paddle-update\<close> message: nothing, \<open>null\<close>, or an object with the
  four fields the handler reads (a missing field is \<open>JUndefined\<close>; a primitive argument
  reads as an object whose four fields are missing).
\<close>

record fields =
  f_x :: jsval
  f_y :: jsval
  f_vx :: jsval
  f_vy :: jsval

datatype payload = PUndefined | PNull | PObject fields

text \<open>
  \<open>(payload = {})\<close> followed by \<open>const { x, y, vx, vy } = payload\<close>: the default
  replaces \<open>undefined\<close> only, and destructuring \<open>null\<close> throws.
\<close>

fun destructure :: "payload \<Rightarrow> jserror + fields" where
  "destructure PUndefined =
     Inr \<lparr>f_x = JUndefined, f_y = JUndefined, f_vx = JUndefined, f_vy = JUndefined\<rparr>"
| "destructure PNull = Inl TypeError"
| "destructure (PObject f) = Inr f"

definition paddle_update :: "rooms \<Rightarrow> socket \<Rightarrow> payload \<Rightarrow> int \<Rightarrow> jserror + rooms" where
  "paddle_update rs sock pl now =
     (case socket_data sock of
        None \<Rightarrow> Inr rs
      | Some (roomId, side) \<Rightarrow>
          (case rs roomId of
             None \<Rightarrow> Inr rs
           | Some room \<Rightarrow>
               (case players room side of
                  None \<Rightarrow> Inr rs
                | Some paddle \<Rightarrow>
                    (case destructure pl of
                       Inl e \<Rightarrow> Inl e
                     | Inr f \<Rightarrow>
                         let paddle =
                               (case f_x f of
                                  JNum x \<Rightarrow> paddle\<lparr>pad_x :=
                                    clamp x
                                      (if side = Left then PADDLE_RADIUS else CENTER_X + PADDLE_RADIUS)
                                      (if side = Left then CENTER_X - PADDLE_RADIUS
                                       else TABLE_WIDTH - PADDLE_RADIUS)\<rparr>
                                | _ \<Rightarrow> paddle);
                             paddle =
                               (case f_y f of
                                  JNum y \<Rightarrow> paddle\<lparr>pad_y :=
                                    clamp y PADDLE_RADIUS (TABLE_HEIGHT - PADDLE_RADIUS)\<rparr>
                                | _ \<Rightarrow> paddle);
                             paddle = (case f_vx f of JNum vx \<Rightarrow> paddle\<lparr>pad_vx := vx\<rparr> | _ \<Rightarrow> paddle);
                             paddle = (case f_vy f of JNum vy \<Rightarrow> paddle\<lparr>pad_vy := vy\<rparr> | _ \<Rightarrow> paddle);
                             paddle = paddle\<lparr>pad_lastUpdate := now\<rparr>
                         in Inr (rs(roomId \<mapsto>
                                  room\<lparr>players := (players room)(side := Some paddle)\<rparr>))))))"

text \<open>The \<open>disconnect\<close> handler.\<close>

definition disconnect :: "rooms \<Rightarrow> socket \<Rightarrow> rooms \<times> emit list" where
  "disconnect rs sock =
     (case socket_data sock of
        None \<Rightarrow> (rs, [])
      | Some (roomId, side) \<Rightarrow>
          (case rs roomId of
             None \<Rightarrow> (rs, [])
           | Some room \<Rightarrow>
               let room = room\<lparr>players := (players room)(side := None)\<rparr>;
                   rs = rs(roomId \<mapsto> room)
               in (if players room Left = None \<and> players room Right = None
                   then rs(roomId := None) else rs,
                   [ToOthers roomId (PlayerLeft side)])))"

subsection \<open>The tick\<close>

definition handlePaddle :: "paddle option \<Rightarrow> side \<Rightarrow> paddle option" where
  "handlePaddle p side =
     (case p of
        None \<Rightarrow> None
      | Some paddle \<Rightarrow>
          let paddle = paddle\<lparr>pad_x :=
                clamp (pad_x paddle)
                  (if side = Left then PADDLE_RADIUS else CENTER_X + PADDLE_RADIUS)
                  (if side = Left then CENTER_X - PADDLE_RADIUS else TABLE_WIDTH - PADDLE_RADIUS)\<rparr>;
              paddle = paddle\<lparr>pad_y := clamp (pad_y paddle) PADDLE_RADIUS (TABLE_HEIGHT - PADDLE_RADIUS)\<rparr>;
              paddle = paddle\<lparr>pad_vx := pad_vx paddle * Fin 0.9\<rparr>;
              paddle = paddle\<lparr>pad_vy := pad_vy paddle * Fin 0.9\<rparr>
          in Some paddle)"

definition collideWithPaddle :: "puck \<Rightarrow> paddle \<Rightarrow> puck" where
  "collideWithPaddle puck paddle =
     (let dx = puck_x puck - pad_x paddle;
          dy = puck_y puck - pad_y paddle;
          distSq = dx * dx + dy * dy;
          combined = PUCK_RADIUS + PADDLE_RADIUS
      in if distSq \<ge> combined * combined \<or> jseq distSq (Fin 0) then puck
         else
           let dist = Math_sqrt distSq;
               nx = dx / dist;
               ny = dy / dist;
               relativeSpeed = puck_vx puck * nx + puck_vy puck * ny;
               puck = (if relativeSpeed < Fin 0
                       then puck\<lparr>puck_vx := puck_vx puck - Fin 2 * relativeSpeed * nx,
                                 puck_vy := puck_vy puck - Fin 2 * relativeSpeed * ny\<rparr>
                       else puck);
               puck = puck\<lparr>puck_vx := puck_vx puck + pad_vx paddle * Fin 0.55\<rparr>;
               puck = puck\<lparr>puck_vy := puck_vy puck + pad_vy paddle * Fin 0.55\<rparr>;
               overlap = combined - dist;
               puck = puck\<lparr>puck_x := puck_x puck + nx * overlap\<rparr>
           in puck\<lparr>puck_y := puck_y puck + ny * overlap\<rparr>)"

text \<open>\<open>collideWithPaddle(puck, paddle)\<close> in doubles; 0.55 is the double nearest to 0.55.\<close>

definition collideWithPaddle64 :: "puck \<Rightarrow> paddle \<Rightarrow> puck" where
  "collideWithPaddle64 puck paddle =
     (let dx = sub64 (puck_x puck) (pad_x paddle);
          dy = sub64 (puck_y puck) (pad_y paddle);
          distSq = add64 (mul64 dx dx) (mul64 dy dy);
          combined = add64 PUCK_RADIUS PADDLE_RADIUS
      in if distSq \<ge> mul64 combined combined \<or> jseq distSq (Fin 0) then puck
         else
           let dist = sqrt64 distSq;
               nx = div64 dx dist;
               ny = div64 dy dist;
               relativeSpeed = add64 (mul64 (puck_vx puck) nx) (mul64 (puck_vy puck) ny);
               puck = (if relativeSpeed < Fin 0
                       then puck\<lparr>puck_vx := sub64 (puck_vx puck) (mul64 (mul64 (Fin 2) relativeSpeed) nx),
                                 puck_vy := sub64 (puck_vy puck) (mul64 (mul64 (Fin 2) relativeSpeed) ny)\<rparr>
                       else puck);
               puck = puck\<lparr>puck_vx := add64 (puck_vx puck) (mul64 (pad_vx paddle) (round64 (Fin 0.55)))\<rparr>;
               puck = puck\<lparr>puck_vy := add64 (puck_vy puck) (mul64 (pad_vy paddle) (round64 (Fin 0.55)))\<rparr>;
               overlap = sub64 combined dist;
               puck = puck\<lparr>puck_x := add64 (puck_x puck) (mul64 nx overlap)\<rparr>
           in puck\<lparr>puck_y := add64 (puck_y puck) (mul64 ny overlap)\<rparr>)"

definition scoreGoal :: "room \<Rightarrow> side \<Rightarrow> int \<Rightarrow> real \<Rightarrow> room" where
  "scoreGoal room scorer now rnd =
     room\<lparr>scores := (scores room)(scorer := scores room scorer + 1),
          goalFlash := Some (scorer, now + 800),
          room_puck := spawnPuck (Some scorer) rnd\<rparr>"

text \<open>
  \<open>updateRoom(room)\<close>, statement by statement. \<open>now\<close> and \<open>rnd\<close> are what \<open>Date.now()\<close>
  and \<open>Math.random()\<close> return if a goal is scored.
\<close>

definition updateRoom :: "room \<Rightarrow> int \<Rightarrow> real \<Rightarrow> room" where
  "updateRoom room now rnd =
     (let puck = room_puck room;
          puck = puck\<lparr>puck_x := puck_x puck + puck_vx puck\<rparr>;
          puck = puck\<lparr>puck_y := puck_y puck + puck_vy puck\<rparr>;
          puck = puck\<lparr>puck_vx := puck_vx puck * PUCK_FRICTION\<rparr>;
          puck = puck\<lparr>puck_vy := puck_vy puck * PUCK_FRICTION\<rparr>;
          puck = (if puck_y puck \<le> PUCK_RADIUS
                  then puck\<lparr>puck_y := PUCK_RADIUS, puck_vy := Math_abs (puck_vy puck)\<rparr>
                  else if puck_y puck \<ge> TABLE_HEIGHT - PUCK_RADIUS
                  then puck\<lparr>puck_y := TABLE_HEIGHT - PUCK_RADIUS, puck_vy := - Math_abs (puck_vy puck)\<rparr>
                  else puck);
          leftPaddle = handlePaddle (players room Left) Left;
          rightPaddle = handlePaddle (players room Right) Right;
          puck = (case leftPaddle of None \<Rightarrow> puck | Some p \<Rightarrow> collideWithPaddle puck p);
          puck = (case rightPaddle of None \<Rightarrow> puck | Some p \<Rightarrow> collideWithPaddle puck p);
          room = room\<lparr>players := (players room)(Left := leftPaddle, Right := rightPaddle),
                      room_puck := puck\<rparr>
      in if puck_x puck \<le> - PUCK_RADIUS then scoreGoal room Right now rnd
         else if puck_x puck \<ge> TABLE_WIDTH + PUCK_RADIUS then scoreGoal room Left now rnd
         else room)"

section \<open>The peer-authoritative variant (800 x 400 table)\<close>

text \<open>
  Its server (part_002 of the sources) relays what the clients send; the client of
  player 1 (the first half of client/main.js) runs the puck. The constants are those of
  both files; \<open>PUCK_RADIUS\<close> and \<open>PADDLE_RADIUS\<close> of this variant carry the prefix
  \<open>GAME\<close>, and the handlers of the relay the prefix \<open>relay\<close>. The relay's
  \<open>puck-update\<close> handler, which stores and forwards the puck a client sends, plays no
  part in what follows and is left out.
\<close>

definition GAME_WIDTH :: jsnum where "GAME_WIDTH = Fin 800"
definition GAME_HEIGHT :: jsnum where "GAME_HEIGHT = Fin 400"
definition GAME_PUCK_RADIUS :: jsnum where "GAME_PUCK_RADIUS = Fin 15"
definition GAME_PADDLE_RADIUS :: jsnum where "GAME_PADDLE_RADIUS = Fin 25"
definition FRICTION :: jsnum where "FRICTION = Fin 0.99"
definition MAX_SPEED :: jsnum where "MAX_SPEED = Fin 8"

text \<open>The player numbers 1 and 2, and the keys \<open>player1\<close> and \<open>player2\<close> they select.\<close>

datatype player_number = P1 | P2

record gpuck =
  gp_x :: jsnum
  gp_y :: jsnum
  gp_vx :: jsnum
  gp_vy :: jsnum
  gp_radius :: jsnum

text \<open>A paddle of the server's game state: \<open>x\<close> and \<open>y\<close> hold whatever a client sent.\<close>

record rpaddle =
  rp_x :: jsval
  rp_y :: jsval
  rp_radius :: jsnum

record gameState =
  gs_puck :: gpuck
  gs_player1 :: rpaddle
  gs_player2 :: rpaddle
  gs_scores :: "string \<Rightarrow> jsnum option"

record relay_room =
  rr_players :: "(string \<times> player_number) list"
  rr_gameState :: gameState

type_synonym relay_rooms = "string \<Rightarrow> relay_room option"

record relay_socket =
  rs_id :: string
  rs_roomId :: "string option"
  rs_playerNumber :: "player_number option"

datatype relay_message =
    RelayRoomFull
  | PlayerAssigned player_number gameState
  | GameStart gameState
  | OpponentMove "player_number option" jsval jsval
  | Goal string "string \<Rightarrow> jsnum option" gpuck
  | OpponentLeft

datatype relay_emit =
    RToSocket relay_message
  | RToOthers string relay_message
  | RToRoom string relay_message

text \<open>\<open>createGameState()\<close>; \<open>r1\<close> and \<open>r2\<close> are its two \<open>Math.random()\<close> draws.\<close>

definition createGameState :: "real \<Rightarrow> real \<Rightarrow> gameState" where
  "createGameState r1 r2 =
     \<lparr>gs_puck = \<lparr>gp_x = GAME_WIDTH / Fin 2,
                  gp_y = GAME_HEIGHT / Fin 2,
                  gp_vx = (Fin r1 - Fin 0.5) * Fin 4,
                  gp_vy = (Fin r2 - Fin 0.5) * Fin 4,
                  gp_radius = GAME_PUCK_RADIUS\<rparr>,
      gs_player1 = \<lparr>rp_x = JNum (Fin 100), rp_y = JNum (GAME_HEIGHT / Fin 2),
                     rp_radius = GAME_PADDLE_RADIUS\<rparr>,
      gs_player2 = \<lparr>rp_x = JNum (GAME_WIDTH - Fin 100), rp_y = JNum (GAME_HEIGHT / Fin 2),
                     rp_radius = GAME_PADDLE_RADIUS\<rparr>,
      gs_scores = [''player1'' \<mapsto> Fin 0, ''player2'' \<mapsto> Fin 0]\<rparr>"

text \<open>The \<open>join-room\<close> handler of the relay.\<close>

definition relay_join_room ::
  "relay_rooms \<Rightarrow> relay_socket \<Rightarrow> string \<Rightarrow> real \<Rightarrow> real \<Rightarrow>
   relay_rooms \<times> relay_socket \<times> relay_emit list" where
  "relay_join_room rs sock roomId r1 r2 =
     (let (rs, room) =
            (case rs roomId of
               None \<Rightarrow>
                 (let r = \<lparr>rr_players = [], rr_gameState = createGameState r1 r2\<rparr>
                  in (rs(roomId \<mapsto> r), r))
             | Some r \<Rightarrow> (rs, r))
      in if length (rr_players room) \<ge> 2 then (rs, sock, [RToSocket RelayRoomFull])
         else
           let playerNumber = (if length (rr_players room) = 0 then P1 else P2);
               room = room\<lparr>rr_players := rr_players room @ [(rs_id sock, playerNumber)]\<rparr>;
               rs = rs(roomId \<mapsto> room);
               sock = sock\<lparr>rs_roomId := Some roomId, rs_playerNumber := Some playerNumber\<rparr>
           in (rs, sock,
               RToSocket (PlayerAssigned playerNumber (rr_gameState room)) #
               (if length (rr_players room) = 2
                then [RToRoom roomId (GameStart (rr_gameState room))] else [])))"

text \<open>
  The \<open>paddle-move\<close> handler: \<open>data.x\<close> and \<open>data.y\<close> are written as received, and
  reading them throws when \<open>data\<close> is \<open>undefined\<close> or \<open>null\<close>. A socket with a room
  has a player number; without one the write goes to a key that is never read.
\<close>

definition relay_paddle_move ::
  "relay_rooms \<Rightarrow> relay_socket \<Rightarrow> payload \<Rightarrow> jserror + relay_rooms \<times> relay_emit list" where
  "relay_paddle_move rs sock data =
     (case rs_roomId sock of
        None \<Rightarrow> Inr (rs, [])
      | Some roomId \<Rightarrow>
          (if roomId = [] then Inr (rs, [])
           else
             (case rs roomId of
                None \<Rightarrow> Inr (rs, [])
              | Some room \<Rightarrow>
                  (case data of
                     PUndefined \<Rightarrow> Inl TypeError
                   | PNull \<Rightarrow> Inl TypeError
                   | PObject f \<Rightarrow>
                       let gs = rr_gameState room;
                           gs = (case rs_playerNumber sock of
                                   Some P1 \<Rightarrow> gs\<lparr>gs_player1 := (gs_player1 gs)\<lparr>rp_x := f_x f, rp_y := f_y f\<rparr>\<rparr>
                                 | Some P2 \<Rightarrow> gs\<lparr>gs_player2 := (gs_player2 gs)\<lparr>rp_x := f_x f, rp_y := f_y f\<rparr>\<rparr>
                                 | None \<Rightarrow> gs)
                       in Inr (rs(roomId \<mapsto> room\<lparr>rr_gameState := gs\<rparr>),
                               [RToOthers roomId (OpponentMove (rs_playerNumber sock) (f_x f) (f_y f))])))))"

text \<open>
  The \<open>goal-scored\<close> handler. Its argument is nothing usable (\<open>undefined\<close> or \<open>null\<close>,
  on which \<open>data.scorer\<close> throws) or carries the scorer's key; \<open>r1\<close> and \<open>r2\<close> are the
  two \<open>Math.random()\<close> draws of the reset.
\<close>

datatype goal_data = GNullish | GScorer string

definition relay_goal_scored ::
  "relay_rooms \<Rightarrow> relay_socket \<Rightarrow> goal_data \<Rightarrow> real \<Rightarrow> real \<Rightarrow>
   jserror + relay_rooms \<times> relay_emit list" where
  "relay_goal_scored rs sock data r1 r2 =
     (case rs_roomId sock of
        None \<Rightarrow> Inr (rs, [])
      | Some roomId \<Rightarrow>
          (if roomId = [] then Inr (rs, [])
           else
             (case rs roomId of
                None \<Rightarrow> Inr (rs, [])
              | Some room \<Rightarrow>
                  (case data of
                     GNullish \<Rightarrow> Inl TypeError
                   | GScorer scorer \<Rightarrow>
                       let gs = rr_gameState room;
                           gs = gs\<lparr>gs_scores := (gs_scores gs)(scorer \<mapsto>
                                  (case gs_scores gs scorer of
                                     None \<Rightarrow> NaN
                                   | Some n \<Rightarrow> n + Fin 1))\<rparr>;
                           gs = gs\<lparr>gs_puck :=
                                  \<lparr>gp_x = GAME_WIDTH / Fin 2,
                                   gp_y = GAME_HEIGHT / Fin 2,
                                   gp_vx = (Fin r1 - Fin 0.5) * Fin 4,
                                   gp_vy = (Fin r2 - Fin 0.5) * Fin 4,
                                   gp_radius = GAME_PUCK_RADIUS\<rparr>\<rparr>
                       in Inr (rs(roomId \<mapsto> room\<lparr>rr_gameState := gs\<rparr>),
                               [RToRoom roomId (Goal scorer (gs_scores gs) (gs_puck gs))])))))"

text \<open>The \<open>disconnect\<close> handler of the relay.\<close>

definition relay_disconnect ::
  "relay_rooms \<Rightarrow> relay_socket \<Rightarrow> relay_rooms \<times> relay_emit list" where
  "relay_disconnect rs sock =
     (case rs_roomId sock of
        None \<Rightarrow> (rs, [])
      | Some roomId \<Rightarrow>
          (if roomId = [] then (rs, [])
           else
             (case rs roomId of
                None \<Rightarrow> (rs, [])
              | Some room \<Rightarrow>
                  let room = room\<lparr>rr_players := filter (\<lambda>p. fst p \<noteq> rs_id sock) (rr_players room)\<rparr>;
                      rs = rs(roomId \<mapsto> room)
                  in (if length (rr_players room) = 0 then rs(roomId := None) else rs,
                      [RToOthers roomId OpponentLeft]))))"

subsection \<open>The client that runs the puck\<close>

record cpaddle =
  cp_x :: jsnum
  cp_y :: jsnum
  cp_radius :: jsnum

record client =
  myPlayerNumber :: "player_number option"
  gameStarted :: bool
  myPaddle :: cpaddle
  opponentPaddle :: cpaddle
  c_puck :: gpuck

datatype client_emit = GoalScored string | PuckUpdate gpuck

definition checkPaddleCollision :: "gpuck \<Rightarrow> cpaddle \<Rightarrow> gpuck" where
  "checkPaddleCollision puck paddle =
     (let dx = gp_x puck - cp_x paddle;
          dy = gp_y puck - cp_y paddle;
          distance = Math_sqrt (dx * dx + dy * dy)
      in if distance < gp_radius puck + cp_radius paddle
         then
           let angle = Math_atan2 dy dx;
               targetX = cp_x paddle + Math_cos angle * (gp_radius puck + cp_radius paddle);
               targetY = cp_y paddle + Math_sin angle * (gp_radius puck + cp_radius paddle);
               puck = puck\<lparr>gp_x := targetX\<rparr>;
               puck = puck\<lparr>gp_y := targetY\<rparr>;
               normalX = dx / distance;
               normalY = dy / distance;
               relativeVelocity = gp_vx puck * normalX + gp_vy puck * normalY
           in if relativeVelocity < Fin 0
              then
                let puck = puck\<lparr>gp_vx := gp_vx puck - Fin 2 * relativeVelocity * normalX\<rparr>;
                    puck = puck\<lparr>gp_vy := gp_vy puck - Fin 2 * relativeVelocity * normalY\<rparr>;
                    puck = puck\<lparr>gp_vx := gp_vx puck * Fin 1.1\<rparr>
                in puck\<lparr>gp_vy := gp_vy puck * Fin 1.1\<rparr>
              else puck
         else puck)"

text \<open>\<open>checkPaddleCollision(paddle)\<close> in doubles; 1.1 is the double nearest to 1.1.\<close>

definition checkPaddleCollision64 :: "gpuck \<Rightarrow> cpaddle \<Rightarrow> gpuck" where
  "checkPaddleCollision64 puck paddle =
     (let dx = sub64 (gp_x puck) (cp_x paddle);
          dy = sub64 (gp_y puck) (cp_y paddle);
          distance = sqrt64 (add64 (mul64 dx dx) (mul64 dy dy))
      in if distance < add64 (gp_radius puck) (cp_radius paddle)
         then
           let angle = atan2_64 dy dx;
               targetX = add64 (cp_x paddle) (mul64 (cos64 angle) (add64 (gp_radius puck) (cp_radius paddle)));
               targetY = add64 (cp_y paddle) (mul64 (sin64 angle) (add64 (gp_radius puck) (cp_radius paddle)));
               puck = puck\<lparr>gp_x := targetX\<rparr>;
               puck = puck\<lparr>gp_y := targetY\<rparr>;
               normalX = div64 dx distance;
               normalY = div64 dy distance;
               relativeVelocity = add64 (mul64 (gp_vx puck) normalX) (mul64 (gp_vy puck) normalY)
           in if relativeVelocity < Fin 0
              then
                let puck = puck\<lparr>gp_vx := sub64 (gp_vx puck) (mul64 (mul64 (Fin 2) relativeVelocity) normalX)\<rparr>;
                    puck = puck\<lparr>gp_vy := sub64 (gp_vy puck) (mul64 (mul64 (Fin 2) relativeVelocity) normalY)\<rparr>;
                    puck = puck\<lparr>gp_vx := mul64 (gp_vx puck) (round64 (Fin 1.1))\<rparr>
                in puck\<lparr>gp_vy := mul64 (gp_vy puck) (round64 (Fin 1.1))\<rparr>
              else puck
         else puck)"

text \<open>
  \<open>updatePuck()\<close>, statement by statement; the guard
  \<open>if (!gameStarted || myPlayerNumber !== 1) return\<close> is written from its other side.
  The result is the client after the call and what the call sent.
\<close>

definition updatePuck :: "client \<Rightarrow> client \<times> client_emit list" where
  "updatePuck c =
     (if gameStarted c \<and> myPlayerNumber c = Some P1
      then
        let puck = c_puck c;
            puck = puck\<lparr>gp_x := gp_x puck + gp_vx puck\<rparr>;
            puck = puck\<lparr>gp_y := gp_y puck + gp_vy puck\<rparr>;
            puck = puck\<lparr>gp_vx := gp_vx puck * FRICTION\<rparr>;
            puck = puck\<lparr>gp_vy := gp_vy puck * FRICTION\<rparr>;
            puck = (if gp_y puck - gp_radius puck < Fin 0
                    then puck\<lparr>gp_y := gp_radius puck, gp_vy := gp_vy puck * Fin (- 1)\<rparr>
                    else puck);
            puck = (if gp_y puck + gp_radius puck > GAME_HEIGHT
                    then puck\<lparr>gp_y := GAME_HEIGHT - gp_radius puck, gp_vy := gp_vy puck * Fin (- 1)\<rparr>
                    else puck)
        in if gp_x puck - gp_radius puck < Fin 0
           then (c\<lparr>c_puck := puck\<rparr>, [GoalScored ''player2''])
           else if gp_x puck + gp_radius puck > GAME_WIDTH
           then (c\<lparr>c_puck := puck\<rparr>, [GoalScored ''player1''])
           else
             let puck = checkPaddleCollision puck (myPaddle c);
                 puck = checkPaddleCollision puck (opponentPaddle c);
                 speed = Math_sqrt (gp_vx puck * gp_vx puck + gp_vy puck * gp_vy puck);
                 puck = (if speed > MAX_SPEED
                         then puck\<lparr>gp_vx := (gp_vx puck / speed) * MAX_SPEED,
                                   gp_vy := (gp_vy puck / speed) * MAX_SPEED\<rparr>
                         else puck)
             in (c\<lparr>c_puck := puck\<rparr>, [PuckUpdate puck])
      else (c, []))"

section \<open>What the specification asks of a tick and of a paddle\<close>

text \<open>
  The legal area of a paddle: its side's half of the table, a paddle radius away from the
  centre line and from the borders.
\<close>

definition within_half :: "side \<Rightarrow> paddle \<Rightarrow> bool" where
  "within_half s p =
     ((if s = Left then PADDLE_RADIUS \<le> pad_x p \<and> pad_x p \<le> CENTER_X - PADDLE_RADIUS
       else CENTER_X + PADDLE_RADIUS \<le> pad_x p \<and> pad_x p \<le> TABLE_WIDTH - PADDLE_RADIUS)
      \<and> PADDLE_RADIUS \<le> pad_y p \<and> pad_y p \<le> TABLE_HEIGHT - PADDLE_RADIUS)"

text \<open>The distance between the centres of a puck and a paddle, in each variant.\<close>

definition centre_distance :: "puck \<Rightarrow> paddle \<Rightarrow> jsnum" where
  "centre_distance puck paddle =
     Math_sqrt ((puck_x puck - pad_x paddle) * (puck_x puck - pad_x paddle)
              + (puck_y puck - pad_y paddle) * (puck_y puck - pad_y paddle))"

definition client_centre_distance :: "gpuck \<Rightarrow> cpaddle \<Rightarrow> jsnum" where
  "client_centre_distance puck paddle =
     Math_sqrt ((gp_x puck - cp_x paddle) * (gp_x puck - cp_x paddle)
              + (gp_y puck - cp_y paddle) * (gp_y puck - cp_y paddle))"

text \<open>
  What the two collision routines compute to detect an overlap: the server the square of
  the distance between the centres, the client the distance.
\<close>

definition distSq64 :: "puck \<Rightarrow> paddle \<Rightarrow> jsnum" where
  "distSq64 puck paddle =
     (let dx = sub64 (puck_x puck) (pad_x paddle);
          dy = sub64 (puck_y puck) (pad_y paddle)
      in add64 (mul64 dx dx) (mul64 dy dy))"

definition distance64 :: "gpuck \<Rightarrow> cpaddle \<Rightarrow> jsnum" where
  "distance64 puck paddle =
     (let dx = sub64 (gp_x puck) (cp_x paddle);
          dy = sub64 (gp_y puck) (cp_y paddle)
      in sqrt64 (add64 (mul64 dx dx) (mul64 dy dy)))"

text \<open>
  A puck at \<open>(px, py)\<close> pushed out of a paddle at \<open>(qx, qy)\<close> along the contact normal, the
  unit vector from the centre of the paddle to the centre of the puck: it ends at
  \<open>(x', y')\<close>, within 2^-40 in each coordinate of the point at the distance \<open>R\<close> from the
  centre of the paddle in that direction, and so at a distance within 2^-39 of \<open>R\<close>.
\<close>

definition pushed_out :: "real \<Rightarrow> real \<Rightarrow> real \<Rightarrow> real \<Rightarrow> real \<Rightarrow> real \<Rightarrow> real \<Rightarrow> bool" where
  "pushed_out R px py qx qy x' y' \<longleftrightarrow>
     \<bar>x' - (qx + R * ((px - qx) / sqrt ((px - qx) * (px - qx) + (py - qy) * (py - qy))))\<bar> \<le> 1 / 2 ^ 40
     \<and> \<bar>y' - (qy + R * ((py - qy) / sqrt ((px - qx) * (px - qx) + (py - qy) * (py - qy))))\<bar> \<le> 1 / 2 ^ 40
     \<and> \<bar>sqrt ((x' - qx) * (x' - qx) + (y' - qy) * (y' - qy)) - R\<bar> \<le> 1 / 2 ^ 39"

text \<open>
  A paddle of the client whose disc lies on the table, as the client's own clamp and the
  clamp of the opponent's client leave it.
\<close>

definition on_table :: "cpaddle \<Rightarrow> bool" where
  "on_table p \<longleftrightarrow>
     GAME_PADDLE_RADIUS \<le> cp_x p \<and> cp_x p \<le> GAME_WIDTH - GAME_PADDLE_RADIUS
     \<and> GAME_PADDLE_RADIUS \<le> cp_y p \<and> cp_y p \<le> GAME_HEIGHT - GAME_PADDLE_RADIUS"

subsection \<open>The steps of the server's tick, in the order of the specification\<close>

text \<open>
  Each step is the server's own code for it; \<open>tick_in_spec_order\<close> chains them as the
  specification lists them: integrate, friction, walls, paddles, collisions, goal. The
  server enforces no speed cap, so step 6 has no code.
\<close>

definition integratePosition :: "puck \<Rightarrow> puck" where
  "integratePosition puck =
     (let puck = puck\<lparr>puck_x := puck_x puck + puck_vx puck\<rparr>
      in puck\<lparr>puck_y := puck_y puck + puck_vy puck\<rparr>)"

definition applyFriction :: "puck \<Rightarrow> puck" where
  "applyFriction puck =
     (let puck = puck\<lparr>puck_vx := puck_vx puck * PUCK_FRICTION\<rparr>
      in puck\<lparr>puck_vy := puck_vy puck * PUCK_FRICTION\<rparr>)"

definition reflectOffWalls :: "puck \<Rightarrow> puck" where
  "reflectOffWalls puck =
     (if puck_y puck \<le> PUCK_RADIUS
      then puck\<lparr>puck_y := PUCK_RADIUS, puck_vy := Math_abs (puck_vy puck)\<rparr>
      else if puck_y puck \<ge> TABLE_HEIGHT - PUCK_RADIUS
      then puck\<lparr>puck_y := TABLE_HEIGHT - PUCK_RADIUS, puck_vy := - Math_abs (puck_vy puck)\<rparr>
      else puck)"

definition clampPaddles :: "room \<Rightarrow> room" where
  "clampPaddles room =
     room\<lparr>players := (players room)(Left := handlePaddle (players room Left) Left,
                                       Right := handlePaddle (players room Right) Right)\<rparr>"

definition resolveCollisions :: "room \<Rightarrow> room" where
  "resolveCollisions room =
     (let puck = room_puck room;
          puck = (case players room Left of None \<Rightarrow> puck | Some p \<Rightarrow> collideWithPaddle puck p);
          puck = (case players room Right of None \<Rightarrow> puck | Some p \<Rightarrow> collideWithPaddle puck p)
      in room\<lparr>room_puck := puck\<rparr>)"

definition detectGoal :: "room \<Rightarrow> int \<Rightarrow> real \<Rightarrow> room" where
  "detectGoal room now rnd =
     (if puck_x (room_puck room) \<le> - PUCK_RADIUS then scoreGoal room Right now rnd
      else if puck_x (room_puck room) \<ge> TABLE_WIDTH + PUCK_RADIUS then scoreGoal room Left now rnd
      else room)"

definition tick_in_spec_order :: "room \<Rightarrow> int \<Rightarrow> real \<Rightarrow> room" where
  "tick_in_spec_order room now rnd =
     detectGoal
       (resolveCollisions
         (clampPaddles
           (room\<lparr>room_puck := reflectOffWalls (applyFriction (integratePosition (room_puck room)))\<rparr>)))
       now rnd"

subsection \<open>The steps of the client's tick, in both orders\<close>

text \<open>
  The same for \<open>updatePuck\<close> of the client that runs the puck. Its paddles are not
  touched by \<open>updatePuck\<close> (the client clamps its own paddle before it calls
  \<open>updatePuck\<close>), so step 4 has no code here. \<open>updatePuck_in_spec_order\<close> detects the
  goal last, as the specification lists it; \<open>updatePuck_goal_first\<close> detects it right
  after the walls and skips the collisions and the cap when a goal is found.
\<close>

definition client_integrate :: "gpuck \<Rightarrow> gpuck" where
  "client_integrate puck =
     (let puck = puck\<lparr>gp_x := gp_x puck + gp_vx puck\<rparr>
      in puck\<lparr>gp_y := gp_y puck + gp_vy puck\<rparr>)"

definition client_friction :: "gpuck \<Rightarrow> gpuck" where
  "client_friction puck =
     (let puck = puck\<lparr>gp_vx := gp_vx puck * FRICTION\<rparr>
      in puck\<lparr>gp_vy := gp_vy puck * FRICTION\<rparr>)"

definition client_walls :: "gpuck \<Rightarrow> gpuck" where
  "client_walls puck =
     (let puck = (if gp_y puck - gp_radius puck < Fin 0
                  then puck\<lparr>gp_y := gp_radius puck, gp_vy := gp_vy puck * Fin (- 1)\<rparr>
                  else puck)
      in if gp_y puck + gp_radius puck > GAME_HEIGHT
         then puck\<lparr>gp_y := GAME_HEIGHT - gp_radius puck, gp_vy := gp_vy puck * Fin (- 1)\<rparr>
         else puck)"

definition client_collisions :: "client \<Rightarrow> gpuck \<Rightarrow> gpuck" where
  "client_collisions c puck =
     checkPaddleCollision (checkPaddleCollision puck (myPaddle c)) (opponentPaddle c)"

definition client_cap :: "gpuck \<Rightarrow> gpuck" where
  "client_cap puck =
     (let speed = Math_sqrt (gp_vx puck * gp_vx puck + gp_vy puck * gp_vy puck)
      in if speed > MAX_SPEED
         then puck\<lparr>gp_vx := (gp_vx puck / speed) * MAX_SPEED,
                   gp_vy := (gp_vy puck / speed) * MAX_SPEED\<rparr>
         else puck)"

definition client_goal :: "gpuck \<Rightarrow> string option" where
  "client_goal puck =
     (if gp_x puck - gp_radius puck < Fin 0 then Some ''player2''
      else if gp_x puck + gp_radius puck > GAME_WIDTH then Some ''player1''
      else None)"

definition updatePuck_in_spec_order :: "client \<Rightarrow> client \<times> client_emit list" where
  "updatePuck_in_spec_order c =
     (if gameStarted c \<and> myPlayerNumber c = Some P1
      then
        let puck = client_cap (client_collisions c
                     (client_walls (client_friction (client_integrate (c_puck c)))))
        in (case client_goal puck of
              Some scorer \<Rightarrow> (c\<lparr>c_puck := puck\<rparr>, [GoalScored scorer])
            | None \<Rightarrow> (c\<lparr>c_puck := puck\<rparr>, [PuckUpdate puck]))
      else (c, []))"

definition updatePuck_goal_first :: "client \<Rightarrow> client \<times> client_emit list" where
  "updatePuck_goal_first c =
     (if gameStarted c \<and> myPlayerNumber c = Some P1
      then
        let puck = client_walls (client_friction (client_integrate (c_puck c)))
        in (case client_goal puck of
              Some scorer \<Rightarrow> (c\<lparr>c_puck := puck\<rparr>, [GoalScored scorer])
            | None \<Rightarrow>
                (let puck = client_cap (client_collisions c puck)
                 in (c\<lparr>c_puck := puck\<rparr>, [PuckUpdate puck])))
      else (c, []))"

section \<open>Arithmetic of the number model\<close>

lemma Math_max_NaN_right [simp]: "Math_max a NaN = NaN"
  by (cases a) simp_all

lemma Math_min_NaN_right [simp]: "Math_min a NaN = NaN"
  by (cases a) simp_all

lemma minus_Fin [simp]: "Fin a - Fin b = Fin (a - b)"
  by (simp add: minus_jsnum_def)

lemma clamp_NaN: "clamp NaN lo hi = NaN"
  by (simp add: clamp_def)

lemma clamp_bounds:
  assumes "v \<noteq> NaN" "a \<le> b"
  shows "Fin a \<le> clamp v (Fin a) (Fin b) \<and> clamp v (Fin a) (Fin b) \<le> Fin b"
  using assms by (cases v) (auto simp: clamp_def)

lemma server_values:
  "TABLE_WIDTH = Fin 960" "TABLE_HEIGHT = Fin 540" "CENTER_X = Fin 480" "CENTER_Y = Fin 270"
  "PADDLE_RADIUS = Fin 40" "PUCK_RADIUS = Fin 18" "PUCK_START_SPEED = Fin 6.5"
  "PUCK_FRICTION = Fin 0.993"
  by (simp_all add: CENTER_X_def CENTER_Y_def TABLE_WIDTH_def TABLE_HEIGHT_def PADDLE_RADIUS_def
      PUCK_RADIUS_def PUCK_START_SPEED_def PUCK_FRICTION_def)

lemma game_values:
  "GAME_WIDTH = Fin 800" "GAME_HEIGHT = Fin 400" "GAME_PUCK_RADIUS = Fin 15"
  "GAME_PADDLE_RADIUS = Fin 25" "FRICTION = Fin 0.99" "MAX_SPEED = Fin 8"
  by (simp_all add: GAME_WIDTH_def GAME_HEIGHT_def GAME_PUCK_RADIUS_def GAME_PADDLE_RADIUS_def
      FRICTION_def MAX_SPEED_def)

section \<open>The paddle clamp of the tick\<close>

lemma handlePaddle_within:
  assumes "handlePaddle q s = Some p" "pad_x p \<noteq> NaN" "pad_y p \<noteq> NaN"
  shows "within_half s p"
proof -
  from assms(1) obtain q' where q: "q = Some q'"
    by (cases q) (simp_all add: handlePaddle_def)
  have px: "pad_x p = clamp (pad_x q') (if s = Left then Fin 40 else Fin 520)
                        (if s = Left then Fin 440 else Fin 920)"
    and py: "pad_y p = clamp (pad_y q') (Fin 40) (Fin 500)"
    using assms(1) unfolding q handlePaddle_def Let_def server_values
    by auto
  have "pad_x q' \<noteq> NaN" using assms(2) px by (auto simp: clamp_NaN)
  moreover have "pad_y q' \<noteq> NaN" using assms(3) py by (auto simp: clamp_NaN)
  ultimately show ?thesis
    unfolding within_half_def server_values px py
    using clamp_bounds[of "pad_x q'" 40 440] clamp_bounds[of "pad_x q'" 520 920]
      clamp_bounds[of "pad_y q'" 40 500]
    by (cases s) simp_all
qed

lemma scoreGoal_players: "players (scoreGoal room s now rnd) = players room"
  by (simp add: scoreGoal_def)

lemma updateRoom_players:
  "players (updateRoom room now rnd) s = handlePaddle (players room s) s"
  unfolding updateRoom_def Let_def
  by (cases s) (simp_all add: scoreGoal_players)

text \<open>
  C1, as amended. In the server-authoritative variant, after any tick, a bound paddle
  whose coordinates are not NaN lies in its side's half of the table and within the
  vertical bounds, whatever the room held before the tick (so whatever the payloads
  received before it were).
\<close>

theorem tick_clamps_paddles:
  assumes "players (updateRoom room now rnd) s = Some p"
    and "pad_x p \<noteq> NaN" and "pad_y p \<noteq> NaN"
  shows "within_half s p"
  using assms handlePaddle_within unfolding updateRoom_players by blast

text \<open>
  A left paddle far outside the table, at (1000, -5), is at (440, 40) after the tick.
\<close>

theorem tick_clamps_paddles_witness:
  "players (updateRoom
      \<lparr>room_id = ''r1'',
       players = (\<lambda>_. None)(Left := Some \<lparr>pad_id = ''a'', pad_x = Fin 1000, pad_y = Fin (- 5),
                     pad_vx = Fin 0, pad_vy = Fin 0, pad_lastUpdate = 0\<rparr>),
       room_puck = \<lparr>puck_x = Fin 480, puck_y = Fin 270, puck_vx = Fin 1, puck_vy = Fin 0\<rparr>,
       scores = (\<lambda>_. 0), goalFlash = None\<rparr> 0 0) Left
     = Some \<lparr>pad_id = ''a'', pad_x = Fin 440, pad_y = Fin 40,
                     pad_vx = Fin 0, pad_vy = Fin 0, pad_lastUpdate = 0\<rparr>
   \<and> within_half Left \<lparr>pad_id = ''a'', pad_x = Fin 440, pad_y = Fin 40,
                     pad_vx = Fin 0, pad_vy = Fin 0, pad_lastUpdate = 0\<rparr>"
proof -
  let ?room = "\<lparr>room_id = ''r1'',
       players = (\<lambda>_. None)(Left := Some \<lparr>pad_id = ''a'', pad_x = Fin 1000, pad_y = Fin (- 5),
                     pad_vx = Fin 0, pad_vy = Fin 0, pad_lastUpdate = 0\<rparr>),
       room_puck = \<lparr>puck_x = Fin 480, puck_y = Fin 270, puck_vx = Fin 1, puck_vy = Fin 0\<rparr>,
       scores = (\<lambda>_. 0), goalFlash = None\<rparr>"
  let ?p = "\<lparr>pad_id = ''a'', pad_x = Fin 440, pad_y = Fin 40,
                     pad_vx = Fin 0, pad_vy = Fin 0, pad_lastUpdate = 0\<rparr>"
  have a: "players (updateRoom ?room 0 0) Left = Some ?p"
    by (simp add: updateRoom_players handlePaddle_def Let_def server_values clamp_def)
  from tick_clamps_paddles [OF a] have "within_half Left ?p" by simp
  with a show ?thesis by simp
qed

text \<open>
  C1 as stated fails twice. The relay of the 800 x 400 variant has no clamp: player 1's
  message with x = 1000 is stored as it is, beyond 400 - 25. And in the
  server-authoritative variant a message with x = NaN leaves NaN in the paddle, which the
  clamp of the next tick keeps.
\<close>

theorem paddle_bounds_counterexample:
  "(\<exists>rs' es r.
      relay_paddle_move
        [''r1'' \<mapsto> \<lparr>rr_players = [(''a'', P1)], rr_gameState = createGameState 0.5 0.5\<rparr>]
        \<lparr>rs_id = ''a'', rs_roomId = Some ''r1'', rs_playerNumber = Some P1\<rparr>
        (PObject \<lparr>f_x = JNum (Fin 1000), f_y = JNum (Fin 200), f_vx = JUndefined, f_vy = JUndefined\<rparr>)
        = Inr (rs', es)
      \<and> rs' ''r1'' = Some r
      \<and> rp_x (gs_player1 (rr_gameState r)) = JNum (Fin 1000)
      \<and> \<not> (Fin 1000 \<le> GAME_WIDTH / Fin 2 - GAME_PADDLE_RADIUS))
   \<and> (\<exists>rs' r p.
      paddle_update
        [''r1'' \<mapsto> \<lparr>room_id = ''r1'',
           players = (\<lambda>_. None)(Left := Some \<lparr>pad_id = ''a'', pad_x = Fin 80, pad_y = Fin 270,
                        pad_vx = Fin 0, pad_vy = Fin 0, pad_lastUpdate = 0\<rparr>),
           room_puck = \<lparr>puck_x = Fin 480, puck_y = Fin 270, puck_vx = Fin 1, puck_vy = Fin 0\<rparr>,
           scores = (\<lambda>_. 0), goalFlash = None\<rparr>]
        \<lparr>sock_id = ''a'', data_roomId = Some ''r1'', data_side = Some Left\<rparr>
        (PObject \<lparr>f_x = JNum NaN, f_y = JNum (Fin 270), f_vx = JNum (Fin 0), f_vy = JNum (Fin 0)\<rparr>)
        1 = Inr rs'
      \<and> rs' ''r1'' = Some r
      \<and> players (updateRoom r 2 0) Left = Some p
      \<and> pad_x p = NaN
      \<and> \<not> within_half Left p)"
proof (intro conjI)
  show "\<exists>rs' es r.
      relay_paddle_move
        [''r1'' \<mapsto> \<lparr>rr_players = [(''a'', P1)], rr_gameState = createGameState 0.5 0.5\<rparr>]
        \<lparr>rs_id = ''a'', rs_roomId = Some ''r1'', rs_playerNumber = Some P1\<rparr>
        (PObject \<lparr>f_x = JNum (Fin 1000), f_y = JNum (Fin 200), f_vx = JUndefined, f_vy = JUndefined\<rparr>)
        = Inr (rs', es)
      \<and> rs' ''r1'' = Some r
      \<and> rp_x (gs_player1 (rr_gameState r)) = JNum (Fin 1000)
      \<and> \<not> (Fin 1000 \<le> GAME_WIDTH / Fin 2 - GAME_PADDLE_RADIUS)"
    by (simp add: relay_paddle_move_def Let_def game_values)
next
  show "\<exists>rs' r p.
      paddle_update
        [''r1'' \<mapsto> \<lparr>room_id = ''r1'',
           players = (\<lambda>_. None)(Left := Some \<lparr>pad_id = ''a'', pad_x = Fin 80, pad_y = Fin 270,
                        pad_vx = Fin 0, pad_vy = Fin 0, pad_lastUpdate = 0\<rparr>),
           room_puck = \<lparr>puck_x = Fin 480, puck_y = Fin 270, puck_vx = Fin 1, puck_vy = Fin 0\<rparr>,
           scores = (\<lambda>_. 0), goalFlash = None\<rparr>]
        \<lparr>sock_id = ''a'', data_roomId = Some ''r1'', data_side = Some Left\<rparr>
        (PObject \<lparr>f_x = JNum NaN, f_y = JNum (Fin 270), f_vx = JNum (Fin 0), f_vy = JNum (Fin 0)\<rparr>)
        1 = Inr rs'
      \<and> rs' ''r1'' = Some r
      \<and> players (updateRoom r 2 0) Left = Some p
      \<and> pad_x p = NaN
      \<and> \<not> within_half Left p"
    by (simp add: paddle_update_def socket_data_def Let_def updateRoom_players handlePaddle_def
        clamp_NaN within_half_def)
qed

section \<open>The paddle-update handler\<close>

lemma case_update_x:
  "(case v of JNum x \<Rightarrow> paddle\<lparr>pad_x := g x\<rparr> | _ \<Rightarrow> paddle)
     = paddle\<lparr>pad_x := (case v of JNum x \<Rightarrow> g x | _ \<Rightarrow> pad_x paddle)\<rparr>"
  by (cases v) simp_all

lemma case_update_y:
  "(case v of JNum x \<Rightarrow> paddle\<lparr>pad_y := g x\<rparr> | _ \<Rightarrow> paddle)
     = paddle\<lparr>pad_y := (case v of JNum x \<Rightarrow> g x | _ \<Rightarrow> pad_y paddle)\<rparr>"
  by (cases v) simp_all

lemma case_update_vx:
  "(case v of JNum x \<Rightarrow> paddle\<lparr>pad_vx := g x\<rparr> | _ \<Rightarrow> paddle)
     = paddle\<lparr>pad_vx := (case v of JNum x \<Rightarrow> g x | _ \<Rightarrow> pad_vx paddle)\<rparr>"
  by (cases v) simp_all

lemma case_update_vy:
  "(case v of JNum x \<Rightarrow> paddle\<lparr>pad_vy := g x\<rparr> | _ \<Rightarrow> paddle)
     = paddle\<lparr>pad_vy := (case v of JNum x \<Rightarrow> g x | _ \<Rightarrow> pad_vy paddle)\<rparr>"
  by (cases v) simp_all

lemma paddle_update_bound:
  assumes "socket_data sock = Some (roomId, s)" and "rs roomId = Some room"
    and "players room s = Some p"
  shows "paddle_update rs sock (PObject f) now =
     Inr (rs(roomId \<mapsto> room\<lparr>players := (players room)(s := Some
       (p\<lparr>pad_x := (case f_x f of
                      JNum x \<Rightarrow> clamp x (if s = Left then Fin 40 else Fin 520)
                                   (if s = Left then Fin 440 else Fin 920)
                    | _ \<Rightarrow> pad_x p),
          pad_y := (case f_y f of JNum y \<Rightarrow> clamp y (Fin 40) (Fin 500) | _ \<Rightarrow> pad_y p),
          pad_vx := (case f_vx f of JNum v \<Rightarrow> v | _ \<Rightarrow> pad_vx p),
          pad_vy := (case f_vy f of JNum v \<Rightarrow> v | _ \<Rightarrow> pad_vy p),
          pad_lastUpdate := now\<rparr>))\<rparr>))"
  using assms
  by (simp add: paddle_update_def Let_def case_update_x case_update_y case_update_vx
      case_update_vy server_values cong: jsval.case_cong)



text \<open>
  C8, as amended. In the server-authoritative variant, for a message from a bound
  connection whose argument is an object, each of x, y, vx, vy that is not a number
  leaves the paddle's field as it was, a number in x or y is passed through the clamp
  of the side before it is written, a number in vx or vy is copied, and the handler
  returns; with no argument at all it returns too, and only the time stamp changes.
\<close>

theorem paddle_update_validates_fields:
  assumes "socket_data sock = Some (roomId, s)" and "rs roomId = Some room"
    and "players room s = Some p"
  shows "(\<exists>p'. paddle_update rs sock (PObject f) now
                 = Inr (rs(roomId \<mapsto> room\<lparr>players := (players room)(s := Some p')\<rparr>))
            \<and> pad_x p' = (case f_x f of
                            JNum x \<Rightarrow>
                              clamp x (if s = Left then PADDLE_RADIUS else CENTER_X + PADDLE_RADIUS)
                                (if s = Left then CENTER_X - PADDLE_RADIUS
                                 else TABLE_WIDTH - PADDLE_RADIUS)
                          | _ \<Rightarrow> pad_x p)
            \<and> pad_y p' = (case f_y f of
                            JNum y \<Rightarrow> clamp y PADDLE_RADIUS (TABLE_HEIGHT - PADDLE_RADIUS)
                          | _ \<Rightarrow> pad_y p)
            \<and> pad_vx p' = (case f_vx f of JNum v \<Rightarrow> v | _ \<Rightarrow> pad_vx p)
            \<and> pad_vy p' = (case f_vy f of JNum v \<Rightarrow> v | _ \<Rightarrow> pad_vy p)
            \<and> pad_id p' = pad_id p)
       \<and> paddle_update rs sock PUndefined now
            = Inr (rs(roomId \<mapsto> room\<lparr>players := (players room)(s := Some (p\<lparr>pad_lastUpdate := now\<rparr>))\<rparr>))"
proof -
  let ?p' = "p\<lparr>pad_x := (case f_x f of
                      JNum x \<Rightarrow> clamp x (if s = Left then Fin 40 else Fin 520)
                                   (if s = Left then Fin 440 else Fin 920)
                    | _ \<Rightarrow> pad_x p),
          pad_y := (case f_y f of JNum y \<Rightarrow> clamp y (Fin 40) (Fin 500) | _ \<Rightarrow> pad_y p),
          pad_vx := (case f_vx f of JNum v \<Rightarrow> v | _ \<Rightarrow> pad_vx p),
          pad_vy := (case f_vy f of JNum v \<Rightarrow> v | _ \<Rightarrow> pad_vy p),
          pad_lastUpdate := now\<rparr>"
  have eq: "paddle_update rs sock (PObject f) now
      = Inr (rs(roomId \<mapsto> room\<lparr>players := (players room)(s := Some ?p')\<rparr>))"
    using paddle_update_bound [of sock roomId s rs room p f now] assms by simp
  have fields: "pad_x ?p' = (case f_x f of
                            JNum x \<Rightarrow>
                              clamp x (if s = Left then PADDLE_RADIUS else CENTER_X + PADDLE_RADIUS)
                                (if s = Left then CENTER_X - PADDLE_RADIUS
                                 else TABLE_WIDTH - PADDLE_RADIUS)
                          | _ \<Rightarrow> pad_x p)"
      "pad_y ?p' = (case f_y f of
                            JNum y \<Rightarrow> clamp y PADDLE_RADIUS (TABLE_HEIGHT - PADDLE_RADIUS)
                          | _ \<Rightarrow> pad_y p)"
      "pad_vx ?p' = (case f_vx f of JNum v \<Rightarrow> v | _ \<Rightarrow> pad_vx p)"
      "pad_vy ?p' = (case f_vy f of JNum v \<Rightarrow> v | _ \<Rightarrow> pad_vy p)"
      "pad_id ?p' = pad_id p"
    by (simp_all add: server_values cong: jsval.case_cong)
  have undef: "paddle_update rs sock PUndefined now
            = Inr (rs(roomId \<mapsto> room\<lparr>players := (players room)(s := Some (p\<lparr>pad_lastUpdate := now\<rparr>))\<rparr>))"
    using assms by (simp add: paddle_update_def Let_def)
  from eq fields have "\<exists>p'. paddle_update rs sock (PObject f) now
                 = Inr (rs(roomId \<mapsto> room\<lparr>players := (players room)(s := Some p')\<rparr>))
            \<and> pad_x p' = (case f_x f of
                            JNum x \<Rightarrow>
                              clamp x (if s = Left then PADDLE_RADIUS else CENTER_X + PADDLE_RADIUS)
                                (if s = Left then CENTER_X - PADDLE_RADIUS
                                 else TABLE_WIDTH - PADDLE_RADIUS)
                          | _ \<Rightarrow> pad_x p)
            \<and> pad_y p' = (case f_y f of
                            JNum y \<Rightarrow> clamp y PADDLE_RADIUS (TABLE_HEIGHT - PADDLE_RADIUS)
                          | _ \<Rightarrow> pad_y p)
            \<and> pad_vx p' = (case f_vx f of JNum v \<Rightarrow> v | _ \<Rightarrow> pad_vx p)
            \<and> pad_vy p' = (case f_vy f of JNum v \<Rightarrow> v | _ \<Rightarrow> pad_vy p)
            \<and> pad_id p' = pad_id p"
    by (intro exI [of _ ?p'] conjI)
  with undef show ?thesis by (rule conjI [rotated])
qed


text \<open>
  The message \<open>{x: "abc", y: 1000, vy: 3}\<close> to a left paddle at (80, 270) with velocity
  (1, 2): x and vx stay, y becomes 500, vy becomes 3.
\<close>

theorem paddle_update_validates_fields_witness:
  "socket_data \<lparr>sock_id = ''a'', data_roomId = Some ''r1'', data_side = Some Left\<rparr> = Some (''r1'', Left)
   \<and> (\<exists>p'.
        paddle_update
          [''r1'' \<mapsto> \<lparr>room_id = ''r1'',
             players = (\<lambda>_. None)(Left := Some \<lparr>pad_id = ''a'', pad_x = Fin 80, pad_y = Fin 270,
                          pad_vx = Fin 1, pad_vy = Fin 2, pad_lastUpdate = 0\<rparr>),
             room_puck = \<lparr>puck_x = Fin 480, puck_y = Fin 270, puck_vx = Fin 1, puck_vy = Fin 0\<rparr>,
             scores = (\<lambda>_. 0), goalFlash = None\<rparr>]
          \<lparr>sock_id = ''a'', data_roomId = Some ''r1'', data_side = Some Left\<rparr>
          (PObject \<lparr>f_x = JStr ''abc'', f_y = JNum (Fin 1000), f_vx = JUndefined, f_vy = JNum (Fin 3)\<rparr>)
          1
        = Inr ([''r1'' \<mapsto> \<lparr>room_id = ''r1'',
             players = (\<lambda>_. None)(Left := Some p'),
             room_puck = \<lparr>puck_x = Fin 480, puck_y = Fin 270, puck_vx = Fin 1, puck_vy = Fin 0\<rparr>,
             scores = (\<lambda>_. 0), goalFlash = None\<rparr>])
        \<and> pad_x p' = Fin 80 \<and> pad_y p' = Fin 500 \<and> pad_vx p' = Fin 1 \<and> pad_vy p' = Fin 3)"
proof -
  let ?sock = "\<lparr>sock_id = ''a'', data_roomId = Some ''r1'', data_side = Some Left\<rparr>"
  let ?p = "\<lparr>pad_id = ''a'', pad_x = Fin 80, pad_y = Fin 270,
                          pad_vx = Fin 1, pad_vy = Fin 2, pad_lastUpdate = 0\<rparr>"
  let ?room = "\<lparr>room_id = ''r1'',
             players = (\<lambda>_. None)(Left := Some ?p),
             room_puck = \<lparr>puck_x = Fin 480, puck_y = Fin 270, puck_vx = Fin 1, puck_vy = Fin 0\<rparr>,
             scores = (\<lambda>_. 0), goalFlash = None\<rparr>"
  have a: "socket_data ?sock = Some (''r1'', Left)" by (simp add: socket_data_def)
  have b: "[''r1'' \<mapsto> ?room] ''r1'' = Some ?room" by simp
  have c: "players ?room Left = Some ?p" by simp
  from paddle_update_validates_fields [of ?sock "''r1''" Left "[''r1'' \<mapsto> ?room]" ?room ?p
      "\<lparr>f_x = JStr ''abc'', f_y = JNum (Fin 1000), f_vx = JUndefined, f_vy = JNum (Fin 3)\<rparr>" 1,
      OF a b c]
  show ?thesis using a by (auto simp: server_values clamp_def)
qed


text \<open>
  C8 as stated fails in the 800 x 400 relay, which writes the string \<open>"abc"\<close> and the
  missing y into player 1's paddle (whose x was 100), and throws on a message without
  argument; the server-authoritative handler throws on the argument \<open>null\<close>.
\<close>

theorem paddle_input_counterexample:
  "(\<exists>rs' es r.
      relay_paddle_move
        [''r1'' \<mapsto> \<lparr>rr_players = [(''a'', P1)], rr_gameState = createGameState 0.5 0.5\<rparr>]
        \<lparr>rs_id = ''a'', rs_roomId = Some ''r1'', rs_playerNumber = Some P1\<rparr>
        (PObject \<lparr>f_x = JStr ''abc'', f_y = JUndefined, f_vx = JUndefined, f_vy = JUndefined\<rparr>)
        = Inr (rs', es)
      \<and> rs' ''r1'' = Some r
      \<and> rp_x (gs_player1 (rr_gameState r)) = JStr ''abc''
      \<and> rp_y (gs_player1 (rr_gameState r)) = JUndefined
      \<and> rp_x (gs_player1 (createGameState 0.5 0.5)) = JNum (Fin 100))
   \<and> relay_paddle_move
        [''r1'' \<mapsto> \<lparr>rr_players = [(''a'', P1)], rr_gameState = createGameState 0.5 0.5\<rparr>]
        \<lparr>rs_id = ''a'', rs_roomId = Some ''r1'', rs_playerNumber = Some P1\<rparr>
        PUndefined
      = Inl TypeError
   \<and> paddle_update
        [''r1'' \<mapsto> \<lparr>room_id = ''r1'',
           players = (\<lambda>_. None)(Left := Some \<lparr>pad_id = ''a'', pad_x = Fin 80, pad_y = Fin 270,
                        pad_vx = Fin 0, pad_vy = Fin 0, pad_lastUpdate = 0\<rparr>),
           room_puck = \<lparr>puck_x = Fin 480, puck_y = Fin 270, puck_vx = Fin 1, puck_vy = Fin 0\<rparr>,
           scores = (\<lambda>_. 0), goalFlash = None\<rparr>]
        \<lparr>sock_id = ''a'', data_roomId = Some ''r1'', data_side = Some Left\<rparr>
        PNull 1
      = Inl TypeError"
  by (simp add: relay_paddle_move_def paddle_update_def socket_data_def Let_def createGameState_def)


text \<open>
  C10. For a bound connection, a paddle-update message whose x is NaN passes the
  \<open>typeof\<close> check, the clamp returns NaN, the handler writes NaN into the paddle's x,
  and NaN is neither above nor below any bound \<open>b\<close>.
\<close>

theorem paddle_update_writes_NaN:
  assumes "socket_data sock = Some (roomId, s)" and "rs roomId = Some room"
    and "players room s = Some p"
  shows "typeof (JNum NaN) = ''number''
       \<and> clamp NaN lo hi = NaN
       \<and> (\<exists>room' p'. paddle_update rs sock (PObject (f\<lparr>f_x := JNum NaN\<rparr>)) now
                          = Inr (rs(roomId \<mapsto> room'))
                      \<and> players room' s = Some p' \<and> pad_x p' = NaN)
       \<and> \<not> b \<le> NaN \<and> \<not> NaN \<le> b"
proof -
  have cmp: "\<not> b \<le> NaN" "\<not> NaN \<le> b" by (cases b; simp)+
  let ?p' = "p\<lparr>pad_x := NaN,
          pad_y := (case f_y f of JNum y \<Rightarrow> clamp y (Fin 40) (Fin 500) | _ \<Rightarrow> pad_y p),
          pad_vx := (case f_vx f of JNum v \<Rightarrow> v | _ \<Rightarrow> pad_vx p),
          pad_vy := (case f_vy f of JNum v \<Rightarrow> v | _ \<Rightarrow> pad_vy p),
          pad_lastUpdate := now\<rparr>"
  let ?room' = "room\<lparr>players := (players room)(s := Some ?p')\<rparr>"
  have "paddle_update rs sock (PObject (f\<lparr>f_x := JNum NaN\<rparr>)) now = Inr (rs(roomId \<mapsto> ?room'))"
    using paddle_update_bound [of sock roomId s rs room p "f\<lparr>f_x := JNum NaN\<rparr>" now] assms
    by (simp add: clamp_NaN)
  moreover have "players ?room' s = Some ?p'" "pad_x ?p' = NaN" by simp_all
  ultimately have "\<exists>room' p'. paddle_update rs sock (PObject (f\<lparr>f_x := JNum NaN\<rparr>)) now
                          = Inr (rs(roomId \<mapsto> room'))
                      \<and> players room' s = Some p' \<and> pad_x p' = NaN"
    by blast
  with cmp show ?thesis by (simp add: clamp_NaN)
qed


text \<open>The left paddle of room r1 receives \<open>{x: NaN, y: 270, vx: 0, vy: 0}\<close>.\<close>

theorem paddle_update_writes_NaN_witness:
  "socket_data \<lparr>sock_id = ''a'', data_roomId = Some ''r1'', data_side = Some Left\<rparr> = Some (''r1'', Left)
   \<and> (\<exists>room' p'.
        paddle_update
          [''r1'' \<mapsto> \<lparr>room_id = ''r1'',
             players = (\<lambda>_. None)(Left := Some \<lparr>pad_id = ''a'', pad_x = Fin 80, pad_y = Fin 270,
                          pad_vx = Fin 0, pad_vy = Fin 0, pad_lastUpdate = 0\<rparr>),
             room_puck = \<lparr>puck_x = Fin 480, puck_y = Fin 270, puck_vx = Fin 1, puck_vy = Fin 0\<rparr>,
             scores = (\<lambda>_. 0), goalFlash = None\<rparr>]
          \<lparr>sock_id = ''a'', data_roomId = Some ''r1'', data_side = Some Left\<rparr>
          (PObject \<lparr>f_x = JNum NaN, f_y = JNum (Fin 270), f_vx = JNum (Fin 0), f_vy = JNum (Fin 0)\<rparr>)
          1
        = Inr ([''r1'' \<mapsto> room'])
        \<and> players room' Left = Some p' \<and> pad_x p' = NaN)
   \<and> \<not> Fin 40 \<le> NaN \<and> \<not> NaN \<le> Fin 440"
proof -
  let ?sock = "\<lparr>sock_id = ''a'', data_roomId = Some ''r1'', data_side = Some Left\<rparr>"
  let ?p = "\<lparr>pad_id = ''a'', pad_x = Fin 80, pad_y = Fin 270,
                          pad_vx = Fin 0, pad_vy = Fin 0, pad_lastUpdate = 0\<rparr>"
  let ?room = "\<lparr>room_id = ''r1'',
             players = (\<lambda>_. None)(Left := Some ?p),
             room_puck = \<lparr>puck_x = Fin 480, puck_y = Fin 270, puck_vx = Fin 1, puck_vy = Fin 0\<rparr>,
             scores = (\<lambda>_. 0), goalFlash = None\<rparr>"
  have a: "socket_data ?sock = Some (''r1'', Left)" by (simp add: socket_data_def)
  have b: "[''r1'' \<mapsto> ?room] ''r1'' = Some ?room" by simp
  have c: "players ?room Left = Some ?p" by simp
  from paddle_update_writes_NaN [of ?sock "''r1''" Left "[''r1'' \<mapsto> ?room]" ?room ?p
      "Fin 40" "Fin 440"
      "\<lparr>f_x = JNum NaN, f_y = JNum (Fin 270), f_vx = JNum (Fin 0), f_vy = JNum (Fin 0)\<rparr>" 1
      "Fin 40", OF a b c]
    paddle_update_writes_NaN [of ?sock "''r1''" Left "[''r1'' \<mapsto> ?room]" ?room ?p
      "Fin 40" "Fin 440"
      "\<lparr>f_x = JNum NaN, f_y = JNum (Fin 270), f_vx = JNum (Fin 0), f_vy = JNum (Fin 0)\<rparr>" 1
      "Fin 440", OF a b c]
  show ?thesis using a by simp
qed

section \<open>Rounding to doubles\<close>

text \<open>
  Rounding to the nearest double changes a real by a factor within 2^-53 of 1, and
  \<open>to_double_eval\<close> computes the double of a given real.
\<close>

lemma round_half_even_near: "\<bar>of_int (round_half_even r) - r\<bar> \<le> 1 / 2"
  unfolding round_half_even_def Let_def by (auto simp: abs_if; linarith)

lemma round_half_even_eq:
  assumes "\<bar>r - of_int n\<bar> < 1 / 2"
  shows "round_half_even r = n"
proof -
  have "\<lfloor>r\<rfloor> = n \<or> \<lfloor>r\<rfloor> = n - 1" using assms by linarith
  then show ?thesis
  proof
    assume f: "\<lfloor>r\<rfloor> = n"
    then have "r - of_int n < 1 / 2" using assms by linarith
    then show ?thesis unfolding round_half_even_def Let_def f by simp
  next
    assume f: "\<lfloor>r\<rfloor> = n - 1"
    then have "of_int n \<le> r + 1" "r < of_int n" by linarith+
    then have "1 / 2 < r - of_int (n - 1)" using assms by (simp add: abs_if split: if_splits)
    then show ?thesis unfolding round_half_even_def Let_def f by simp
  qed
qed

lemma to_double_rel:
  "\<exists>r. to_double x = x * r \<and> \<bar>r - 1\<bar> \<le> 1 / 2 ^ 53"
proof (cases "x = 0")
  case True
  then show ?thesis by (intro exI[of _ 1]) (simp add: to_double_def)
next
  case False
  define k where "k = \<lfloor>log 2 \<bar>x\<bar>\<rfloor>"
  define q :: real where "q = 2 powr of_int (k - 52)"
  define n where "n = round_half_even (x / q)"
  have ax: "0 < \<bar>x\<bar>" using False by simp
  have "2 powr of_int k \<le> \<bar>x\<bar> \<and> \<bar>x\<bar> < 2 powr of_int (k + 1)"
    using floor_log_eq_powr_iff[of "\<bar>x\<bar>" 2 k] ax k_def by simp
  then have lo: "2 powr of_int k \<le> \<bar>x\<bar>" by simp
  have qpos: "0 < q" by (simp add: q_def)
  have qk: "q * 2 ^ 52 = 2 powr of_int k"
  proof -
    have "(2::real) powr of_int k = 2 powr (of_int (k - 52) + 52)" by simp
    also have "\<dots> = 2 powr of_int (k - 52) * 2 powr 52" by (rule powr_add)
    also have "2 powr (52::real) = 2 ^ 52" using powr_realpow[of 2 52] by simp
    finally show ?thesis by (simp add: q_def)
  qed
  have td: "to_double x = of_int n * q"
    using False by (simp add: to_double_def Let_def n_def q_def k_def)
  have "\<bar>of_int n - x / q\<bar> \<le> 1 / 2" unfolding n_def by (rule round_half_even_near)
  then have "\<bar>of_int n - x / q\<bar> * q \<le> 1 / 2 * q" using qpos by (simp add: mult_right_mono)
  moreover have "\<bar>of_int n - x / q\<bar> * q = \<bar>of_int n * q - x\<bar>"
  proof -
    have "(of_int n - x / q) * q = of_int n * q - x" using qpos by (simp add: left_diff_distrib)
    then have "\<bar>of_int n * q - x\<bar> = \<bar>of_int n - x / q\<bar> * \<bar>q\<bar>" by (simp only: abs_mult[symmetric])
    then show ?thesis using qpos by simp
  qed
  ultimately have e1: "\<bar>of_int n * q - x\<bar> \<le> q / 2" by simp
  have "q / 2 = 2 powr of_int k / 2 ^ 53" using qk[symmetric] by simp
  also have "\<dots> \<le> \<bar>x\<bar> / 2 ^ 53" using lo by (simp add: divide_right_mono)
  finally have e2: "\<bar>of_int n * q - x\<bar> \<le> \<bar>x\<bar> / 2 ^ 53" using e1 by simp
  define r where "r = of_int n * q / x"
  have "to_double x = x * r" using False td by (simp add: r_def)
  moreover have "\<bar>r - 1\<bar> = \<bar>of_int n * q - x\<bar> / \<bar>x\<bar>"
    using False by (simp add: r_def abs_divide[symmetric] diff_divide_distrib del: abs_divide)
  moreover have "\<bar>of_int n * q - x\<bar> / \<bar>x\<bar> \<le> (\<bar>x\<bar> / 2 ^ 53) / \<bar>x\<bar>"
    using e2 ax by (intro divide_right_mono) simp_all
  moreover have "(\<bar>x\<bar> / 2 ^ 53) / \<bar>x\<bar> = 1 / 2 ^ 53" using ax by simp
  ultimately have "\<bar>r - 1\<bar> \<le> 1 / 2 ^ 53" by linarith
  moreover note \<open>to_double x = x * r\<close>
  ultimately show ?thesis by blast
qed

lemma to_double_eval_round:
  assumes "2 ^ j \<le> \<bar>x\<bar> * 2 ^ i" "\<bar>x\<bar> * 2 ^ i < 2 * 2 ^ j"
    and "round_half_even (x * 2 ^ (i + 52) / 2 ^ j) = n"
  shows "to_double x = of_int n * 2 ^ j / 2 ^ (i + 52)"
proof -
  have x0: "x \<noteq> 0"
  proof
    assume "x = 0"
    then have "(2::real) ^ j \<le> 0" using assms(1) by simp
    moreover have "0 < (2::real) ^ j" by simp
    ultimately show False by linarith
  qed
  have p: "2 powr (of_int (int j - int i)) = (2::real) ^ j / 2 ^ i"
    by (simp add: powr_diff powr_realpow)
  have p1: "2 powr (of_int (int j - int i + 1)) = 2 * (2::real) ^ j / 2 ^ i"
  proof -
    have "(2::real) powr (of_int (int j - int i + 1)) = 2 powr (of_int (int j - int i) + 1)" by simp
    also have "\<dots> = 2 powr (of_int (int j - int i)) * 2 powr 1" by (rule powr_add)
    finally show ?thesis using p by simp
  qed
  have q: "2 powr (of_int (int j - int i - 52)) = (2::real) ^ j / 2 ^ (i + 52)"
  proof -
    have "(2::real) powr (of_int (int j - int i - 52)) = 2 powr (of_int (int j - int i) - 52)" by simp
    also have "\<dots> = 2 powr (of_int (int j - int i)) / 2 powr 52" by (rule powr_diff)
    also have "2 powr (52::real) = 2 ^ 52" using powr_realpow[of 2 52] by simp
    finally show ?thesis using p by (simp add: power_add)
  qed
  have "2 powr of_int (int j - int i) \<le> \<bar>x\<bar> \<and> \<bar>x\<bar> < 2 powr of_int (int j - int i + 1)"
    unfolding p p1 using assms(1,2) by (simp add: field_simps)
  then have k: "\<lfloor>log 2 \<bar>x\<bar>\<rfloor> = int j - int i"
    using floor_log_eq_powr_iff[of "\<bar>x\<bar>" 2 "int j - int i"] x0 by simp
  have "x / (2 ^ j / 2 ^ (i + 52)) = x * 2 ^ (i + 52) / 2 ^ j" by simp
  then have rn: "round_half_even (x / (2 ^ j / 2 ^ (i + 52))) = n"
    using assms(3) by simp
  have "to_double x = of_int (round_half_even (x / 2 powr of_int (\<lfloor>log 2 \<bar>x\<bar>\<rfloor> - 52)))
                        * 2 powr of_int (\<lfloor>log 2 \<bar>x\<bar>\<rfloor> - 52)"
    unfolding to_double_def Let_def using x0 by (simp only: if_False)
  also have "\<dots> = of_int (round_half_even (x / (2 ^ j / 2 ^ (i + 52)))) * (2 ^ j / 2 ^ (i + 52))"
    unfolding k q ..
  also have "\<dots> = of_int n * (2 ^ j / 2 ^ (i + 52))" by (simp only: rn)
  finally show ?thesis by simp
qed

lemma to_double_eval:
  assumes "2 ^ j \<le> \<bar>x\<bar> * 2 ^ i" "\<bar>x\<bar> * 2 ^ i < 2 * 2 ^ j"
    and "\<bar>x * 2 ^ (i + 52) / 2 ^ j - of_int n\<bar> < 1 / 2"
  shows "to_double x = of_int n * 2 ^ j / 2 ^ (i + 52)"
  using to_double_eval_round[OF assms(1,2) round_half_even_eq[OF assms(3)]] .

lemma round_half_even_tie:
  assumes "r = of_int f + 1 / 2"
  shows "round_half_even r = (if even f then f else f + 1)"
proof -
  have "\<lfloor>r\<rfloor> = f" unfolding assms by linarith
  then show ?thesis unfolding round_half_even_def Let_def by (simp add: assms)
qed

lemma to_double_eval_tie:
  assumes "2 ^ j \<le> \<bar>x\<bar> * 2 ^ i" "\<bar>x\<bar> * 2 ^ i < 2 * 2 ^ j"
    and "x * 2 ^ (i + 52) / 2 ^ j = of_int f + 1 / 2"
  shows "to_double x = of_int (if even f then f else f + 1) * 2 ^ j / 2 ^ (i + 52)"
  using to_double_eval_round[OF assms(1,2) round_half_even_tie[OF assms(3)]] .

lemma to_double_dyadic: "\<exists>n k. to_double x = of_int n / 2 ^ k"
proof (cases "x = 0")
  case True
  then show ?thesis by (intro exI[of _ 0]) (simp add: to_double_def)
next
  case False
  define e where "e = \<lfloor>log 2 \<bar>x\<bar>\<rfloor> - 52"
  define n where "n = round_half_even (x / 2 powr of_int e)"
  have td: "to_double x = of_int n * 2 powr of_int e"
    using False by (simp add: to_double_def Let_def n_def e_def)
  show ?thesis
  proof (cases "0 \<le> e")
    case True
    then have "2 powr of_int e = (2::real) ^ nat e" by (simp add: powr_int)
    then have "to_double x = of_int (n * 2 ^ nat e) / 2 ^ 0" using td by simp
    then show ?thesis by blast
  next
    case False
    then have "2 powr of_int e = 1 / (2::real) ^ nat (- e)" by (simp add: powr_int)
    then have "to_double x = of_int n / 2 ^ nat (- e)" using td by simp
    then show ?thesis by blast
  qed
qed

lemma to_double_near: "\<exists>r. to_double x = x * r \<and> near1 1 r"
  using to_double_rel[of x] by (simp add: near1_def)

lemma near1_mono: "near1 j r \<Longrightarrow> j \<le> k \<Longrightarrow> near1 k r"
  unfolding near1_def
proof -
  assume a: "\<bar>r - 1\<bar> \<le> j / 2 ^ 53" and b: "j \<le> k"
  have "j / 2 ^ 53 \<le> k / 2 ^ 53" using b by (simp add: divide_right_mono)
  then show "\<bar>r - 1\<bar> \<le> k / 2 ^ 53" using a by linarith
qed

lemma near1_pos: "near1 k r \<Longrightarrow> k \<le> 2 ^ 20 \<Longrightarrow> 0 < r"
  unfolding near1_def
proof -
  assume a: "\<bar>r - 1\<bar> \<le> k / 2 ^ 53" and b: "k \<le> 2 ^ 20"
  have "k / 2 ^ 53 \<le> 2 ^ 20 / 2 ^ 53" using b by (simp add: divide_right_mono)
  then have "\<bar>r - 1\<bar> \<le> 2 ^ 20 / 2 ^ 53" using a by linarith
  then have "\<bar>r - 1\<bar> \<le> 1 / 8589934592" by simp
  then show "0 < r" by linarith
qed

lemma near1_bounds: "near1 k r \<Longrightarrow> k \<le> 2 ^ 20 \<Longrightarrow> 1 - 1 / 2 ^ 33 \<le> r \<and> r \<le> 1 + 1 / 2 ^ 33"
  unfolding near1_def
proof -
  assume a: "\<bar>r - 1\<bar> \<le> k / 2 ^ 53" and b: "k \<le> 2 ^ 20"
  have "k / 2 ^ 53 \<le> 2 ^ 20 / 2 ^ 53" using b by (simp add: divide_right_mono)
  then have "\<bar>r - 1\<bar> \<le> 2 ^ 20 / 2 ^ 53" using a by linarith
  then have "\<bar>r - 1\<bar> \<le> 1 / 8589934592" by simp
  then have "1 - 1 / 8589934592 \<le> r \<and> r \<le> 1 + 1 / 8589934592" by linarith
  then show "1 - 1 / 2 ^ 33 \<le> r \<and> r \<le> 1 + 1 / 2 ^ 33" by simp
qed

lemma near1_mult:
  assumes "near1 j r" "near1 k s" "0 \<le> j" "0 \<le> k" "j \<le> 2 ^ 20" "k \<le> 2 ^ 20"
  shows "near1 (j + k + 1) (r * s)"
proof -
  define u :: real where "u = 1 / 2 ^ 53"
  have a: "\<bar>r - 1\<bar> \<le> j * u" and b: "\<bar>s - 1\<bar> \<le> k * u"
    using assms(1,2) by (simp_all add: near1_def u_def)
  have upos: "0 < u" by (simp add: u_def)
  have "r * s - 1 = (r - 1) * (s - 1) + (r - 1) + (s - 1)" by (simp add: algebra_simps)
  then have "\<bar>r * s - 1\<bar> \<le> \<bar>r - 1\<bar> * \<bar>s - 1\<bar> + \<bar>r - 1\<bar> + \<bar>s - 1\<bar>"
    by (simp add: abs_mult[symmetric] del: abs_mult) 
  moreover have "\<bar>r - 1\<bar> * \<bar>s - 1\<bar> \<le> (j * u) * (k * u)"
    using a b by (intro mult_mono) (simp_all add: assms upos less_imp_le)
  moreover have "(j * u) * (k * u) \<le> u"
  proof -
    have "j * k \<le> 2 ^ 20 * 2 ^ 20" using assms by (intro mult_mono) simp_all
    then have "j * k * u \<le> 2 ^ 40 * u" using upos by (simp add: mult_right_mono)
    also have "\<dots> \<le> 1" by (simp add: u_def)
    finally have "(j * k * u) * u \<le> 1 * u" using upos by (intro mult_right_mono) simp_all
    then show ?thesis by (simp add: mult_ac)
  qed
  ultimately have "\<bar>r * s - 1\<bar> \<le> u + j * u + k * u" using a b by linarith
  then show ?thesis by (simp add: near1_def u_def algebra_simps add_divide_distrib)
qed

lemma near1_inverse:
  assumes "near1 k r" "0 \<le> k" "k \<le> 2 ^ 20"
  shows "near1 (k + 1) (1 / r)"
proof -
  define u :: real where "u = 1 / 2 ^ 53"
  have a: "\<bar>r - 1\<bar> \<le> k * u" using assms(1) by (simp add: near1_def u_def)
  have upos: "0 < u" by (simp add: u_def)
  have rpos: "0 < r" using near1_pos[OF assms(1,3)] .
  have ku: "k * u \<le> 1 / 2 ^ 33"
  proof -
    have "k * u \<le> 2 ^ 20 * u" using assms(3) upos by (simp add: mult_right_mono)
    then show ?thesis by (simp add: u_def)
  qed
  have rlo: "1 - k * u \<le> r" using a by linarith
  have "1 / r - 1 = (1 - r) / r" using rpos by (simp add: field_simps)
  then have "\<bar>1 / r - 1\<bar> = \<bar>r - 1\<bar> / r" using rpos by (simp add: abs_minus_commute)
  also have "\<dots> \<le> (k * u) / r" using a rpos by (simp add: divide_right_mono)
  also have "\<dots> \<le> (k + 1) * u"
  proof -
    have "k * (k + 1) \<le> 2 ^ 20 * (2 ^ 20 + 1)" using assms by (intro mult_mono) simp_all
    then have "k * (k + 1) * u \<le> 2 ^ 20 * (2 ^ 20 + 1) * u" using upos by (intro mult_right_mono) simp_all
    also have "\<dots> \<le> 1" by (simp add: u_def)
    finally have "k * (k + 1) * u * u \<le> 1 * u" using upos by (intro mult_right_mono) simp_all
    then have "k * u \<le> (k + 1) * u * (1 - k * u)" by (simp add: algebra_simps)
    also have "\<dots> \<le> (k + 1) * u * r" using rlo assms(2) upos by (intro mult_left_mono) simp_all
    finally show ?thesis using rpos by (simp add: field_simps)
  qed
  finally show ?thesis by (simp add: near1_def u_def)
qed

lemma near1_sqrt:
  assumes "near1 k r" "k \<le> 2 ^ 20"
  shows "near1 k (sqrt r)"
proof -
  have rpos: "0 < r" using near1_pos[OF assms] .
  then have s: "0 < sqrt r" by simp
  have "(sqrt r - 1) * (sqrt r + 1) = r - 1" using rpos by (simp add: algebra_simps)
  then have "\<bar>sqrt r - 1\<bar> * \<bar>sqrt r + 1\<bar> = \<bar>r - 1\<bar>" by (simp only: abs_mult[symmetric])
  moreover have "\<bar>sqrt r - 1\<bar> * 1 \<le> \<bar>sqrt r - 1\<bar> * \<bar>sqrt r + 1\<bar>"
    using s by (intro mult_left_mono) simp_all
  ultimately have "\<bar>sqrt r - 1\<bar> \<le> \<bar>r - 1\<bar>" by simp
  then show ?thesis using assms(1) by (simp add: near1_def)
qed

lemma near1_convex:
  assumes "near1 k r" "near1 k s" "0 \<le> a" "0 \<le> b" "0 < a + b"
  shows "\<exists>t. a * r + b * s = (a + b) * t \<and> near1 k t"
proof -
  define t where "t = (a * r + b * s) / (a + b)"
  have e: "a * r + b * s = (a + b) * t" using assms(5) by (simp add: t_def)
  have "t - 1 = (a * (r - 1) + b * (s - 1)) / (a + b)"
    using assms(5) by (simp add: t_def field_simps)
  then have "\<bar>t - 1\<bar> = \<bar>a * (r - 1) + b * (s - 1)\<bar> / (a + b)" using assms(5) by simp
  also have "\<dots> \<le> (a * \<bar>r - 1\<bar> + b * \<bar>s - 1\<bar>) / (a + b)"
  proof (intro divide_right_mono)
    have "\<bar>a * (r - 1) + b * (s - 1)\<bar> \<le> \<bar>a * (r - 1)\<bar> + \<bar>b * (s - 1)\<bar>" by (rule abs_triangle_ineq)
    then show "\<bar>a * (r - 1) + b * (s - 1)\<bar> \<le> a * \<bar>r - 1\<bar> + b * \<bar>s - 1\<bar>"
      using assms(3,4) by (simp add: abs_mult)
    show "0 \<le> a + b" using assms(5) by simp
  qed
  also have "\<dots> \<le> (a * (k / 2 ^ 53) + b * (k / 2 ^ 53)) / (a + b)"
  proof (intro divide_right_mono add_mono mult_left_mono)
    show "\<bar>r - 1\<bar> \<le> k / 2 ^ 53" using assms(1) by (simp add: near1_def)
    show "\<bar>s - 1\<bar> \<le> k / 2 ^ 53" using assms(2) by (simp add: near1_def)
  qed (use assms in simp_all)
  also have "\<dots> = k / 2 ^ 53" using assms(5) by (simp add: field_simps)
  finally show ?thesis using e by (auto simp: near1_def)
qed

lemma sqrt_diff_le:
  "\<bar>sqrt (a * a + b * b) - sqrt (c * c + d * d)\<bar> \<le> \<bar>a - c\<bar> + \<bar>b - d\<bar>"
proof -
  have t: "\<And>a b c d :: real. sqrt (a * a + b * b) \<le> sqrt (c * c + d * d) + (\<bar>a - c\<bar> + \<bar>b - d\<bar>)"
  proof -
    fix a b c d :: real
    have "sqrt ((c + (a - c))\<^sup>2 + (d + (b - d))\<^sup>2) \<le> sqrt (c\<^sup>2 + d\<^sup>2) + sqrt ((a - c)\<^sup>2 + (b - d)\<^sup>2)"
      by (rule real_sqrt_sum_squares_triangle_ineq)
    moreover have "sqrt ((a - c)\<^sup>2 + (b - d)\<^sup>2) \<le> \<bar>a - c\<bar> + \<bar>b - d\<bar>"
      by (rule sqrt_sum_squares_le_sum_abs)
    ultimately show "sqrt (a * a + b * b) \<le> sqrt (c * c + d * d) + (\<bar>a - c\<bar> + \<bar>b - d\<bar>)"
      by (simp add: power2_eq_square)
  qed
  show ?thesis using t[of a b c d] t[of c d a b] by (simp add: abs_minus_commute abs_le_iff)
qed

lemma to_double_0 [simp]: "to_double 0 = 0"
  by (simp add: to_double_def)

lemma to_double_zero_iff: "to_double x = 0 \<longleftrightarrow> x = 0"
proof -
  obtain r where r: "to_double x = x * r" "near1 1 r" using to_double_near by blast
  have "0 < r" using near1_pos[OF r(2)] by simp
  then show ?thesis using r(1) by simp
qed

lemma to_double_nonneg: "0 \<le> x \<Longrightarrow> 0 \<le> to_double x"
proof -
  assume x: "0 \<le> x"
  obtain r where r: "to_double x = x * r" "near1 1 r" using to_double_near by blast
  have "0 < r" using near1_pos[OF r(2)] by simp
  then show ?thesis using x r(1) by simp
qed

lemma abs_mult_le:
  fixes a b x y :: real
  assumes "\<bar>a\<bar> \<le> x" "\<bar>b\<bar> \<le> y"
  shows "\<bar>a * b\<bar> \<le> x * y"
proof -
  have "\<bar>a\<bar> * \<bar>b\<bar> \<le> x * y" using assms by (intro mult_mono) simp_all
  then show ?thesis by (simp add: abs_mult)
qed

lemma abs_scale_diff:
  fixes c x :: real
  assumes "0 \<le> c"
  shows "\<bar>c * x - c\<bar> = c * \<bar>x - 1\<bar>"
proof -
  have "c * x - c = c * (x - 1)" by (simp add: algebra_simps)
  then have "\<bar>c * x - c\<bar> = \<bar>c\<bar> * \<bar>x - 1\<bar>" by (simp only: abs_mult)
  then show ?thesis using assms by simp
qed

lemma near1_abs: "near1 k r \<Longrightarrow> \<bar>r - 1\<bar> \<le> k / 2 ^ 53"
  by (simp add: near1_def)

lemma near1_abs_sym: "near1 k r \<Longrightarrow> \<bar>1 - r\<bar> \<le> k / 2 ^ 53"
  by (simp add: near1_def abs_minus_commute)

lemma near1_le2: "near1 k r \<Longrightarrow> k \<le> 2 ^ 20 \<Longrightarrow> \<bar>r\<bar> \<le> 2"
proof -
  assume "near1 k r" "k \<le> 2 ^ 20"
  then have "1 - 1 / 2 ^ 33 \<le> r \<and> r \<le> 1 + 1 / 2 ^ 33" by (rule near1_bounds)
  then have "1 - 1 / 8589934592 \<le> r \<and> r \<le> 1 + 1 / 8589934592" by simp
  then show "\<bar>r\<bar> \<le> 2" by linarith
qed

section \<open>Spawning the puck\<close>

lemma sign_or_one: "jor (Fin (sgn c)) (Fin 1) = Fin (if c < 0 then - 1 else 1)"
  by (simp add: jor_def sgn_real_def)

text \<open>
  The velocity of a spawned puck is 6.5 times a unit vector, up to the roundings of its
  two components. The bound on its magnitude holds for every cosine \<open>c\<close> and sine \<open>s\<close>
  with a relative error of at most 2^-52, which an error of one unit in the last place
  does not exceed (\<open>spawn_magnitude_ulp\<close>); \<open>spawn_magnitude\<close> is the case of the nearest
  double.
\<close>

lemma spawn_magnitude_ulp:
  fixes a d c s :: real
  assumes d: "d = 1 \<or> d = - 1"
    and c: "c = cos a * rc" "near1 2 rc"
    and s: "s = sin a * rs" "near1 2 rs"
    and vx: "vx = to_double (to_double (\<bar>c\<bar> * 6.5) * d)"
    and vy: "vy = to_double (s * 6.5)"
  shows "\<bar>sqrt (vx * vx + vy * vy) - 6.5\<bar> \<le> 1 / 2 ^ 46"
proof -
  obtain r2 where r2: "to_double (\<bar>c\<bar> * 6.5) = \<bar>c\<bar> * 6.5 * r2" "near1 1 r2"
    using to_double_near by blast
  obtain r3 where r3: "vx = to_double (\<bar>c\<bar> * 6.5) * d * r3" "near1 1 r3"
    unfolding vx using to_double_near by blast
  obtain r5 where r5: "vy = s * 6.5 * r5" "near1 1 r5"
    unfolding vy using to_double_near by blast
  define k1 where "k1 = rc * r2 * r3"
  define k2 where "k2 = rs * r5"
  have rcpos: "0 < rc" using near1_pos[OF c(2)] by simp
  have n12: "near1 4 (rc * r2)" using near1_mult[OF c(2) r2(2)] by simp
  have nk1: "near1 6 k1" unfolding k1_def using near1_mult[OF n12 r3(2)] by simp
  have nk2: "near1 4 k2" unfolding k2_def using near1_mult[OF s(2) r5(2)] by simp
  have nk1s: "near1 13 (k1 * k1)" using near1_mult[OF nk1 nk1] by simp
  have "near1 9 (k2 * k2)" using near1_mult[OF nk2 nk2] by simp
  then have nk2s: "near1 13 (k2 * k2)" by (rule near1_mono) simp
  have c1: "\<bar>c\<bar> = \<bar>cos a\<bar> * rc" using c(1) rcpos by (simp add: abs_mult)
  have "vx = (\<bar>c\<bar> * 6.5 * r2) * d * r3" using r3(1) r2(1) by (simp only:)
  then have vx2: "vx = \<bar>cos a\<bar> * 6.5 * d * k1" unfolding c1 by (simp add: k1_def)
  have "vy = (sin a * rs) * 6.5 * r5" using r5(1) s(1) by (simp only:)
  then have vy2: "vy = sin a * 6.5 * k2" by (simp add: k2_def)
  have dd: "d * d = 1" using d by auto
  have "vx * vx = (\<bar>cos a\<bar> * \<bar>cos a\<bar>) * (d * d) * 42.25 * (k1 * k1)" unfolding vx2 by simp
  then have vxs: "vx * vx = 42.25 * ((cos a)\<^sup>2 * (k1 * k1))" by (simp add: dd power2_eq_square)
  have vys: "vy * vy = 42.25 * ((sin a)\<^sup>2 * (k2 * k2))" unfolding vy2 by (simp add: power2_eq_square)
  obtain t where t: "(cos a)\<^sup>2 * (k1 * k1) + (sin a)\<^sup>2 * (k2 * k2) = ((cos a)\<^sup>2 + (sin a)\<^sup>2) * t" "near1 13 t"
    using near1_convex[OF nk1s nk2s, of "(cos a)\<^sup>2" "(sin a)\<^sup>2"] by auto
  have sm: "vx * vx + vy * vy = 42.25 * t" unfolding vxs vys using t(1) by (simp add: algebra_simps)
  have "sqrt (42.25 * t) = sqrt 42.25 * sqrt t" by (rule real_sqrt_mult)
  moreover have "sqrt 42.25 = (6.5::real)" by (rule real_sqrt_unique) (simp_all add: power2_eq_square)
  ultimately have "sqrt (42.25 * t) = 6.5 * sqrt t" by (simp only:)
  then have m: "sqrt (vx * vx + vy * vy) = 6.5 * sqrt t" by (simp only: sm)
  have "near1 13 (sqrt t)" using near1_sqrt[OF t(2)] by simp
  then have "\<bar>sqrt t - 1\<bar> \<le> 13 / 2 ^ 53" by (simp add: near1_def)
  then have "6.5 * \<bar>sqrt t - 1\<bar> \<le> 6.5 * (13 / 2 ^ 53)" by (intro mult_left_mono) simp_all
  moreover have "6.5 * (13 / 2 ^ 53) \<le> (1 / 2 ^ 46 :: real)" by simp
  moreover have "\<bar>6.5 * sqrt t - 6.5\<bar> = 6.5 * \<bar>sqrt t - 1\<bar>" by (rule abs_scale_diff) simp
  ultimately have "\<bar>6.5 * sqrt t - 6.5\<bar> \<le> 1 / 2 ^ 46" by linarith
  then show ?thesis by (simp only: m)
qed

lemma spawn_magnitude:
  fixes a d :: real
  assumes d: "d = 1 \<or> d = - 1"
    and vx: "vx = to_double (to_double (\<bar>to_double (cos a)\<bar> * 6.5) * d)"
    and vy: "vy = to_double (to_double (sin a) * 6.5)"
  shows "\<bar>sqrt (vx * vx + vy * vy) - 6.5\<bar> \<le> 1 / 2 ^ 46"
proof -
  obtain rc where rc: "to_double (cos a) = cos a * rc" "near1 1 rc" using to_double_near by blast
  obtain rs where rs: "to_double (sin a) = sin a * rs" "near1 1 rs" using to_double_near by blast
  have rc2: "near1 2 rc" using rc(2) by (rule near1_mono) simp
  have rs2: "near1 2 rs" using rs(2) by (rule near1_mono) simp
  show ?thesis using spawn_magnitude_ulp[OF d rc(1) rc2 rs(1) rs2 vx vy] .
qed

text \<open>
  The vectors of magnitude 6.5 whose components are doubles: since 169 = 13 * 13 is a sum
  of two squares in the ways 0 + 169 and 25 + 144 only, and a sum of two squares divisible
  by 4 has both squares even, a component is 0, 2.5, 6 or 6.5 in absolute value.
\<close>

lemma enum_169: "\<forall>a \<in> set [0 ..< 14 :: nat]. \<forall>b \<in> set [0 ..< 14 :: nat].
      a * a + b * b = 169 \<longrightarrow> b \<in> {0, 5, 12, 13}"
  by (simp del: set_upt add: upt_conv_Cons)

lemma sum_squares_169_nat:
  fixes a b :: nat
  assumes "a * a + b * b = 169"
  shows "b \<in> {0, 5, 12, 13}"
proof -
  have bnd: "\<And>x :: nat. x * x \<le> 169 \<Longrightarrow> x < 14"
  proof (rule ccontr)
    fix x :: nat assume x: "x * x \<le> 169" and "\<not> x < 14"
    then have "14 \<le> x" by simp
    then have "14 * 14 \<le> x * x" by (intro mult_le_mono) 
    then show False using x by simp
  qed
  have "a < 14" "b < 14" using assms by (auto intro!: bnd)
  then have "a \<in> set [0 ..< 14]" "b \<in> set [0 ..< 14]" by simp_all
  then show ?thesis using enum_169 assms by blast
qed

lemma sum_squares_169:
  fixes a b :: int
  assumes "a * a + b * b = 169"
  shows "b \<in> {0, 5, - 5, 12, - 12, 13, - 13}"
proof -
  have "int (nat \<bar>a\<bar> * nat \<bar>a\<bar> + nat \<bar>b\<bar> * nat \<bar>b\<bar>) = \<bar>a\<bar> * \<bar>a\<bar> + \<bar>b\<bar> * \<bar>b\<bar>" by simp
  also have "\<dots> = 169" using assms by (simp add: abs_mult_self_eq)
  finally have "nat \<bar>a\<bar> * nat \<bar>a\<bar> + nat \<bar>b\<bar> * nat \<bar>b\<bar> = 169" by linarith
  then have "nat \<bar>b\<bar> \<in> {0, 5, 12, 13}" by (rule sum_squares_169_nat)
  then show ?thesis by auto
qed

lemma sum_squares_mod4:
  fixes a b :: int
  assumes "4 dvd a * a + b * b"
  shows "even a \<and> even b"
proof -
  have sq: "\<And>x :: int. odd x \<Longrightarrow> (x * x) mod 4 = 1"
  proof -
    fix x :: int assume "odd x"
    then obtain y where "x = 2 * y + 1" by (auto elim: oddE)
    then have "x * x = 1 + 4 * (y * y + y)" by (simp add: algebra_simps)
    then have "(x * x) mod 4 = (1 + 4 * (y * y + y)) mod 4" by (simp only:)
    also have "\<dots> = 1 mod 4" by (rule mod_mult_self2)
    finally show "(x * x) mod 4 = 1" by simp
  qed
  have sq0: "\<And>x :: int. even x \<Longrightarrow> (x * x) mod 4 = 0"
  proof -
    fix x :: int assume "even x"
    then obtain y where "x = 2 * y" by (auto elim: evenE)
    then have "x * x = 4 * (y * y)" by simp
    then show "(x * x) mod 4 = 0" by simp
  qed
  have m: "(a * a mod 4 + b * b mod 4) mod 4 = 0"
    using assms by (simp add: mod_add_eq mod_eq_0_iff_dvd)
  show ?thesis
  proof (rule ccontr)
    assume "\<not> (even a \<and> even b)"
    then consider "odd a" "odd b" | "odd a" "even b" | "even a" "odd b" by blast
    then show False
    proof cases
      case 1 then show ?thesis using m sq[of a] sq[of b] by simp
    next
      case 2 then show ?thesis using m sq[of a] sq0[of b] by simp
    next
      case 3 then show ?thesis using m sq0[of a] sq[of b] by simp
    qed
  qed
qed

lemma sum_squares_169_pow4:
  fixes a b :: int
  shows "a * a + b * b = 169 * 4 ^ k \<Longrightarrow> \<exists>c. b = c * 2 ^ k \<and> c \<in> {0, 5, - 5, 12, - 12, 13, - 13}"
proof (induction k arbitrary: a b)
  case 0
  then show ?case using sum_squares_169[of a b] by simp
next
  case (Suc k)
  have "a * a + b * b = 4 * (169 * 4 ^ k)" using Suc.prems by simp
  then have "4 dvd a * a + b * b" by (simp only: dvd_triv_left)
  then have e: "even a" "even b" using sum_squares_mod4 by blast+
  obtain a' where a': "a = 2 * a'" using e(1) by (elim evenE)
  obtain b' where b': "b = 2 * b'" using e(2) by (elim evenE)
  have "4 * (a' * a' + b' * b') = 4 * (169 * 4 ^ k)" using Suc.prems unfolding a' b' by simp
  then have "a' * a' + b' * b' = 169 * 4 ^ k" by simp
  then obtain c where c: "b' = c * 2 ^ k" "c \<in> {0, 5, - 5, 12, - 12, 13, - 13}"
    using Suc.IH by blast
  have "b = c * 2 ^ Suc k" unfolding b' c(1) by simp
  then show ?case using c(2) by blast
qed

lemma dyadic_on_circle:
  fixes m n :: int and i j :: nat
  assumes "(of_int m / 2 ^ i) * (of_int m / 2 ^ i) + (of_int n / 2 ^ j) * (of_int n / 2 ^ j) = (169 / 4 :: real)"
  shows "(of_int n / 2 ^ j :: real) \<in> {0, 5 / 2, - (5 / 2), 6, - 6, 13 / 2, - (13 / 2)}"
proof -
  define a where "a = m * 2 ^ (j + 1)"
  define b where "b = n * 2 ^ (i + 1)"
  define P :: real where "P = 2 * 2 ^ (i + j)"
  have Ppos: "0 < P" by (simp add: P_def)
  have ra: "(of_int m / 2 ^ i :: real) = of_int a / P" by (simp add: a_def P_def power_add)
  have rb: "(of_int n / 2 ^ j :: real) = of_int b / P" by (simp add: b_def P_def power_add)
  have "(2::real) ^ (i + j) * 2 ^ (i + j) = (2 * 2) ^ (i + j)" by (rule power_mult_distrib[symmetric])
  then have PP: "P * P = 4 * 4 ^ (i + j)" by (simp add: P_def)
  have "(of_int a / P) * (of_int a / P) + (of_int b / P) * (of_int b / P) = 169 / 4"
    using assms unfolding ra rb .
  then have "(of_int a * of_int a + of_int b * of_int b) / (P * P) = 169 / 4"
    by (simp add: add_divide_distrib)
  moreover have "P * P \<noteq> 0" using Ppos by simp
  ultimately have "of_int a * of_int a + of_int b * of_int b = 169 / 4 * (P * P)"
    by (metis nonzero_divide_eq_eq)
  then have "(of_int (a * a + b * b) :: real) = of_int (169 * 4 ^ (i + j))" unfolding PP by simp
  then have "a * a + b * b = 169 * 4 ^ (i + j)" by (simp only: of_int_eq_iff)
  then obtain c where c: "b = c * 2 ^ (i + j)" "c \<in> {0, 5, - 5, 12, - 12, 13, - 13}"
    using sum_squares_169_pow4 by blast
  have "(of_int n / 2 ^ j :: real) = of_int c / 2" unfolding rb c(1) by (simp add: P_def)
  moreover have "(of_int c / 2 :: real) \<in> {0, 5 / 2, - (5 / 2), 6, - 6, 13 / 2, - (13 / 2)}"
    using c(2) by (elim insertE emptyE) simp_all
  ultimately show ?thesis by (simp only:)
qed

lemma scaled_diff: "(n::real) * k - c = (n - c) * k + c * (k - 1)"
  by (simp add: algebra_simps)

lemma norm64_near:
  fixes vx vy :: real
  shows "\<exists>k. to_double (sqrt (to_double (to_double (vx * vx) + to_double (vy * vy))))
           = sqrt (vx * vx + vy * vy) * k \<and> near1 5 k"
proof (cases "vx * vx + vy * vy = 0")
  case True
  then have "vx = 0" "vy = 0" by (simp_all add: sum_squares_eq_zero_iff)
  then have "to_double (sqrt (to_double (to_double (vx * vx) + to_double (vy * vy))))
           = sqrt (vx * vx + vy * vy) * 1" by simp
  moreover have "near1 5 1" by (simp add: near1_def)
  ultimately show ?thesis by blast
next
  case False
  have "0 \<le> vx * vx + vy * vy" by simp
  then have S: "0 < vx * vx + vy * vy" using False by linarith
  obtain r3 where r3: "to_double (vx * vx) = vx * vx * r3" "near1 1 r3" using to_double_near by blast
  obtain r4 where r4: "to_double (vy * vy) = vy * vy * r4" "near1 1 r4" using to_double_near by blast
  obtain r5 where r5: "to_double (to_double (vx * vx) + to_double (vy * vy))
      = (to_double (vx * vx) + to_double (vy * vy)) * r5" "near1 1 r5"
    using to_double_near by blast
  obtain r34 where r34: "vx * vx * r3 + vy * vy * r4 = (vx * vx + vy * vy) * r34" "near1 1 r34"
    using near1_convex[OF r3(2) r4(2), of "vx * vx" "vy * vy"] S by auto
  define g where "g = r34 * r5"
  have ng: "near1 3 g" unfolding g_def using near1_mult[OF r34(2) r5(2)] by simp
  have "to_double (to_double (vx * vx) + to_double (vy * vy)) = (vx * vx * r3 + vy * vy * r4) * r5"
    using r5(1) r3(1) r4(1) by (simp only:)
  then have s: "to_double (to_double (vx * vx) + to_double (vy * vy)) = (vx * vx + vy * vy) * g"
    unfolding r34(1) g_def by simp
  have sq: "sqrt ((vx * vx + vy * vy) * g) = sqrt (vx * vx + vy * vy) * sqrt g" by (rule real_sqrt_mult)
  have nsg: "near1 3 (sqrt g)" using near1_sqrt[OF ng] by simp
  obtain r6 where r6: "to_double (sqrt ((vx * vx + vy * vy) * g)) = sqrt ((vx * vx + vy * vy) * g) * r6" "near1 1 r6"
    using to_double_near by blast
  have nk: "near1 5 (sqrt g * r6)" using near1_mult[OF nsg r6(2)] by simp
  have "to_double (sqrt (to_double (to_double (vx * vx) + to_double (vy * vy))))
      = to_double (sqrt ((vx * vx + vy * vy) * g))" by (simp only: s)
  also have "\<dots> = sqrt ((vx * vx + vy * vy) * g) * r6" by (rule r6(1))
  also have "\<dots> = sqrt (vx * vx + vy * vy) * sqrt g * r6" by (simp only: sq)
  finally have "to_double (sqrt (to_double (to_double (vx * vx) + to_double (vy * vy))))
      = sqrt (vx * vx + vy * vy) * (sqrt g * r6)" by (simp only: mult.assoc)
  then show ?thesis using nk by blast
qed

lemma spawnPuck64_eq:
  "\<exists>d. (d = 1 \<or> d = - 1) \<and>
     spawnPuck64 ls rnd =
       \<lparr>puck_x = Fin 480, puck_y = Fin 270,
        puck_vx = Fin (to_double (to_double (\<bar>to_double (cos (to_double (to_double (rnd * to_double pi) * 2)))\<bar> * 6.5) * d)),
        puck_vy = Fin (to_double (to_double (sin (to_double (to_double (rnd * to_double pi) * 2))) * 6.5))\<rparr>"
proof -
  define a where "a = to_double (to_double (rnd * to_double pi) * 2)"
  let ?d = "if ls = Some Left then 1 else if ls = Some Right then - 1
      else if to_double (cos a) < 0 then - 1 else (1::real)"
  have angle: "mul64 (mul64 (Fin rnd) PI64) (Fin 2) = Fin a"
    by (simp add: mul64_def PI64_def Math_PI_def a_def)
  have "spawnPuck64 ls rnd =
       \<lparr>puck_x = Fin 480, puck_y = Fin 270,
        puck_vx = Fin (to_double (to_double (\<bar>to_double (cos a)\<bar> * 6.5) * ?d)),
        puck_vy = Fin (to_double (to_double (sin a) * 6.5))\<rparr>"
    unfolding spawnPuck64_def Let_def angle server_values Math_abs_def
    by (simp add: sign_or_one mul64_def cos64_def sin64_def)
  moreover have "?d = 1 \<or> ?d = - 1" by simp
  ultimately show ?thesis unfolding a_def by blast
qed

text \<open>
  C9. Whatever \<open>Math.random()\<close> returns and whoever scored last, the spawned puck is at
  (480, 270) and its velocity is (|cos angle| * 6.5 * direction, sin angle * 6.5), the
  cosine, the sine and each product rounded to a double, with direction 1 or -1 and
  angle = rnd * pi * 2. The velocity is not the zero vector. Its magnitude is within 2^-46
  of \<open>PUCK_START_SPEED\<close> = 6.5, and within 2^-44 of it when computed by the program's own
  \<open>Math.sqrt(vx * vx + vy * vy)\<close>; it need not be 6.5 itself.
\<close>

theorem spawnPuck64_centre_and_speed:
  "puck_x (spawnPuck64 lastScorer rnd) = Fin 480
   \<and> puck_y (spawnPuck64 lastScorer rnd) = Fin 270
   \<and> (\<exists>angle direction vx vy speed.
         (direction = 1 \<or> direction = - 1)
         \<and> Fin angle = mul64 (mul64 (Fin rnd) PI64) (Fin 2)
         \<and> Fin vx = mul64 (mul64 (Math_abs (cos64 (Fin angle))) PUCK_START_SPEED) (Fin direction)
         \<and> Fin vy = mul64 (sin64 (Fin angle)) PUCK_START_SPEED
         \<and> puck_vx (spawnPuck64 lastScorer rnd) = Fin vx
         \<and> puck_vy (spawnPuck64 lastScorer rnd) = Fin vy
         \<and> (vx, vy) \<noteq> (0, 0)
         \<and> \<bar>sqrt (vx * vx + vy * vy) - 6.5\<bar> \<le> 1 / 2 ^ 46
         \<and> sqrt64 (add64 (mul64 (Fin vx) (Fin vx)) (mul64 (Fin vy) (Fin vy))) = Fin speed
         \<and> \<bar>speed - 6.5\<bar> \<le> 1 / 2 ^ 44)
   \<and> PUCK_START_SPEED = Fin 6.5"
proof -
  define a where "a = to_double (to_double (rnd * to_double pi) * 2)"
  obtain d where d: "d = 1 \<or> d = - 1"
    and eq: "spawnPuck64 lastScorer rnd =
       \<lparr>puck_x = Fin 480, puck_y = Fin 270,
        puck_vx = Fin (to_double (to_double (\<bar>to_double (cos a)\<bar> * 6.5) * d)),
        puck_vy = Fin (to_double (to_double (sin a) * 6.5))\<rparr>"
    unfolding a_def using spawnPuck64_eq by blast
  define vx where "vx = to_double (to_double (\<bar>to_double (cos a)\<bar> * 6.5) * d)"
  define vy where "vy = to_double (to_double (sin a) * 6.5)"
  define N where "N = sqrt (vx * vx + vy * vy)"
  define speed where "speed = to_double (sqrt (to_double (to_double (vx * vx) + to_double (vy * vy))))"
  have mag: "\<bar>N - 6.5\<bar> \<le> 1 / 2 ^ 46"
    unfolding N_def using spawn_magnitude[OF d vx_def vy_def] .
  have nz: "(vx, vy) \<noteq> (0, 0)"
  proof
    assume "(vx, vy) = (0, 0)"
    then have "N = 0" by (simp add: N_def)
    then have "(6.5::real) \<le> 1 / 2 ^ 46" using mag by simp
    then show False by simp
  qed
  obtain k where k: "speed = N * k" "near1 5 k"
    unfolding speed_def N_def using norm64_near by blast
  have sp: "\<bar>speed - 6.5\<bar> \<le> 1 / 2 ^ 44"
  proof -
    have e: "speed - 6.5 = (N - 6.5) * k + 6.5 * (k - 1)" unfolding k(1) by (rule scaled_diff)
    have b1: "\<bar>(N - 6.5) * k\<bar> \<le> 1 / 2 ^ 46 * 2"
    proof (rule abs_mult_le)
      show "\<bar>N - 6.5\<bar> \<le> 1 / 2 ^ 46" by (rule mag)
      show "\<bar>k\<bar> \<le> 2" using near1_le2[OF k(2)] by simp
    qed
    have b2: "\<bar>6.5 * (k - 1)\<bar> \<le> 6.5 * (5 / 2 ^ 53)"
    proof (rule abs_mult_le)
      show "\<bar>6.5::real\<bar> \<le> 6.5" by simp
      show "\<bar>k - 1\<bar> \<le> 5 / 2 ^ 53" by (rule near1_abs[OF k(2)])
    qed
    have "\<bar>(N - 6.5) * k + 6.5 * (k - 1)\<bar> \<le> \<bar>(N - 6.5) * k\<bar> + \<bar>6.5 * (k - 1)\<bar>"
      by (rule abs_triangle_ineq)
    then have "\<bar>speed - 6.5\<bar> \<le> 1 / 2 ^ 46 * 2 + 6.5 * (5 / 2 ^ 53)"
      unfolding e using b1 b2 by linarith
    also have "\<dots> \<le> 1 / 2 ^ 44" by simp
    finally show ?thesis .
  qed
  have sq0: "\<not> to_double (to_double (vx * vx) + to_double (vy * vy)) < 0"
  proof -
    have "0 \<le> to_double (to_double (vx * vx) + to_double (vy * vy))"
      by (intro to_double_nonneg add_nonneg_nonneg) simp_all
    then show ?thesis by linarith
  qed
  have fs: "sqrt64 (add64 (mul64 (Fin vx) (Fin vx)) (mul64 (Fin vy) (Fin vy))) = Fin speed"
    using sq0 by (simp add: sqrt64_def add64_def mul64_def speed_def)
  have angle: "Fin a = mul64 (mul64 (Fin rnd) PI64) (Fin 2)"
    by (simp add: mul64_def PI64_def Math_PI_def a_def)
  have fx: "Fin vx = mul64 (mul64 (Math_abs (cos64 (Fin a))) PUCK_START_SPEED) (Fin d)"
    by (simp add: vx_def mul64_def cos64_def Math_abs_def server_values)
  have fy: "Fin vy = mul64 (sin64 (Fin a)) PUCK_START_SPEED"
    by (simp add: vy_def mul64_def sin64_def server_values)
  have pv: "puck_vx (spawnPuck64 lastScorer rnd) = Fin vx" "puck_vy (spawnPuck64 lastScorer rnd) = Fin vy"
    by (simp_all add: eq vx_def vy_def)
  have "(d = 1 \<or> d = - 1)
         \<and> Fin a = mul64 (mul64 (Fin rnd) PI64) (Fin 2)
         \<and> Fin vx = mul64 (mul64 (Math_abs (cos64 (Fin a))) PUCK_START_SPEED) (Fin d)
         \<and> Fin vy = mul64 (sin64 (Fin a)) PUCK_START_SPEED
         \<and> puck_vx (spawnPuck64 lastScorer rnd) = Fin vx
         \<and> puck_vy (spawnPuck64 lastScorer rnd) = Fin vy
         \<and> (vx, vy) \<noteq> (0, 0)
         \<and> \<bar>sqrt (vx * vx + vy * vy) - 6.5\<bar> \<le> 1 / 2 ^ 46
         \<and> sqrt64 (add64 (mul64 (Fin vx) (Fin vx)) (mul64 (Fin vy) (Fin vy))) = Fin speed
         \<and> \<bar>speed - 6.5\<bar> \<le> 1 / 2 ^ 44"
    using d angle fx fy pv nz mag sp fs unfolding N_def by blast
  then have "\<exists>angle direction vx vy speed.
         (direction = 1 \<or> direction = - 1)
         \<and> Fin angle = mul64 (mul64 (Fin rnd) PI64) (Fin 2)
         \<and> Fin vx = mul64 (mul64 (Math_abs (cos64 (Fin angle))) PUCK_START_SPEED) (Fin direction)
         \<and> Fin vy = mul64 (sin64 (Fin angle)) PUCK_START_SPEED
         \<and> puck_vx (spawnPuck64 lastScorer rnd) = Fin vx
         \<and> puck_vy (spawnPuck64 lastScorer rnd) = Fin vy
         \<and> (vx, vy) \<noteq> (0, 0)
         \<and> \<bar>sqrt (vx * vx + vy * vy) - 6.5\<bar> \<le> 1 / 2 ^ 46
         \<and> sqrt64 (add64 (mul64 (Fin vx) (Fin vx)) (mul64 (Fin vy) (Fin vy))) = Fin speed
         \<and> \<bar>speed - 6.5\<bar> \<le> 1 / 2 ^ 44"
    by blast
  moreover have "puck_x (spawnPuck64 lastScorer rnd) = Fin 480" "puck_y (spawnPuck64 lastScorer rnd) = Fin 270"
    by (simp_all add: eq)
  moreover have "PUCK_START_SPEED = Fin 6.5" by (simp add: server_values)
  ultimately show ?thesis by blast
qed

lemma sqrt_3_bound: "sqrt 3 < (9 / 5 :: real)"
proof -
  have "sqrt 3 < sqrt (81 / 25)" by simp
  moreover have "sqrt (81 / 25) = (9 / 5 :: real)" by (rule real_sqrt_unique) (simp_all add: power2_eq_square)
  ultimately show ?thesis by simp
qed

text \<open>An eighth of a turn, computed in doubles, lies between a twelfth and a sixth.\<close>

lemma eighth_turn_sine:
  fixes a :: real
  assumes a: "a = to_double (to_double (1 / 8 * to_double pi) * 2)"
  shows "1 / 2 < sin a \<and> sin a < 9 / 10"
proof -
  obtain r1 where r1: "to_double pi = pi * r1" "near1 1 r1" using to_double_near by blast
  obtain r2 where r2: "to_double (1 / 8 * to_double pi) = 1 / 8 * to_double pi * r2" "near1 1 r2"
    using to_double_near by blast
  obtain r3 where r3: "a = to_double (1 / 8 * to_double pi) * 2 * r3" "near1 1 r3"
    unfolding a using to_double_near by blast
  define k where "k = r1 * r2 * r3"
  have n12: "near1 3 (r1 * r2)" using near1_mult[OF r1(2) r2(2)] by simp
  have nk: "near1 5 k" unfolding k_def using near1_mult[OF n12 r3(2)] by simp
  have "a = (1 / 8 * (pi * r1) * r2) * 2 * r3" using r3(1) r2(1) r1(1) by (simp only:)
  then have ak: "a = pi / 4 * k" by (simp add: k_def)
  have kb: "1 - 1 / 2 ^ 33 \<le> k \<and> k \<le> 1 + 1 / 2 ^ 33" using near1_bounds[OF nk] by simp
  have p: "0 < pi" by simp
  have lo: "pi / 6 < a"
  proof -
    have "2 / 3 < k" using kb by simp
    then have "pi / 4 * (2 / 3) < pi / 4 * k" using p by (intro mult_strict_left_mono) simp_all
    then show ?thesis unfolding ak by simp
  qed
  have hi: "a < pi / 3"
  proof -
    have "k < 4 / 3" using kb by simp
    then have "pi / 4 * k < pi / 4 * (4 / 3)" using p by (intro mult_strict_left_mono) simp_all
    then show ?thesis unfolding ak by simp
  qed
  have "sin (pi / 6) < sin a" using lo hi p by (intro sin_monotone_2pi) simp_all
  moreover have "sin a < sin (pi / 3)" using lo hi p by (intro sin_monotone_2pi) simp_all
  ultimately show ?thesis using sin_30 sin_60 sqrt_3_bound by simp
qed

text \<open>
  C9 as the specification states it, with the magnitude exactly 6.5, fails. When
  \<open>Math.random()\<close> returns 1/8 and the left side scored last, the velocity of the spawned
  puck does not have the magnitude 6.5: two doubles have a sum of squares of 6.5 * 6.5
  only if the second is 0, 2.5, 6 or 6.5 in absolute value (\<open>dyadic_on_circle\<close>), and the
  vertical velocity here, 6.5 times the sine of an eighth of a turn, lies strictly between
  2.5 and 6.
\<close>

theorem spawn_speed_counterexample:
  "\<exists>vx vy. puck_vx (spawnPuck64 (Some Left) (1 / 8)) = Fin vx
     \<and> puck_vy (spawnPuck64 (Some Left) (1 / 8)) = Fin vy
     \<and> sqrt (vx * vx + vy * vy) \<noteq> 6.5"
proof -
  define a where "a = to_double (to_double (1 / 8 * to_double pi) * 2)"
  obtain d where d: "d = 1 \<or> d = - 1"
    and eq: "spawnPuck64 (Some Left) (1 / 8) =
       \<lparr>puck_x = Fin 480, puck_y = Fin 270,
        puck_vx = Fin (to_double (to_double (\<bar>to_double (cos a)\<bar> * 6.5) * d)),
        puck_vy = Fin (to_double (to_double (sin a) * 6.5))\<rparr>"
    unfolding a_def using spawnPuck64_eq[of "Some Left" "1 / 8"] by blast
  define vx where "vx = to_double (to_double (\<bar>to_double (cos a)\<bar> * 6.5) * d)"
  define vy where "vy = to_double (to_double (sin a) * 6.5)"
  have s: "1 / 2 < sin a" "sin a < 9 / 10" using eighth_turn_sine[OF a_def] by simp_all
  obtain r4 where r4: "to_double (sin a) = sin a * r4" "near1 1 r4" using to_double_near by blast
  obtain r5 where r5: "vy = to_double (sin a) * 6.5 * r5" "near1 1 r5"
    unfolding vy_def using to_double_near by blast
  define k where "k = r4 * r5"
  have nk: "near1 3 k" unfolding k_def using near1_mult[OF r4(2) r5(2)] by simp
  have "1 - 1 / 2 ^ 33 \<le> k \<and> k \<le> 1 + 1 / 2 ^ 33" using near1_bounds[OF nk] by simp
  then have kb: "99 / 100 \<le> k" "k \<le> 101 / 100" by simp_all
  have "vy = (sin a * r4) * 6.5 * r5" using r5(1) r4(1) by (simp only:)
  then have vyk: "vy = 6.5 * (sin a * k)" by (simp add: k_def)
  have "1 / 2 * (99 / 100) \<le> sin a * k" using s kb by (intro mult_mono) simp_all
  moreover have "sin a * k \<le> 9 / 10 * (101 / 100)" using s kb by (intro mult_mono) simp_all
  ultimately have vyb: "5 / 2 < vy" "vy < 6" unfolding vyk by simp_all
  obtain m i where m: "vx = of_int m / 2 ^ i" unfolding vx_def using to_double_dyadic by blast
  obtain n j where n: "vy = of_int n / 2 ^ j" unfolding vy_def using to_double_dyadic by blast
  have "sqrt (vx * vx + vy * vy) \<noteq> 6.5"
  proof
    assume e: "sqrt (vx * vx + vy * vy) = 6.5"
    have "0 \<le> vx * vx + vy * vy" by simp
    then have "vx * vx + vy * vy = (sqrt (vx * vx + vy * vy))\<^sup>2" by simp
    also have "\<dots> = 169 / 4" unfolding e by (simp add: power2_eq_square)
    finally have "(of_int m / 2 ^ i) * (of_int m / 2 ^ i) + (of_int n / 2 ^ j) * (of_int n / 2 ^ j) = (169 / 4 :: real)"
      unfolding m n .
    then have "(of_int n / 2 ^ j :: real) \<in> {0, 5 / 2, - (5 / 2), 6, - 6, 13 / 2, - (13 / 2)}"
      by (rule dyadic_on_circle)
    then have "vy \<in> {0, 5 / 2, - (5 / 2), 6, - 6, 13 / 2, - (13 / 2)}" unfolding n .
    then show False using vyb by auto
  qed
  then show ?thesis unfolding eq vx_def vy_def by simp
qed

section \<open>Collisions\<close>

text \<open>
  The server moves the puck by the overlap along the normal it has computed, the client
  moves it to the point at the angle \<open>Math.atan2(dy, dx)\<close> from the paddle. Each step is
  rounded; \<open>server_push\<close> and \<open>target_error\<close> bound what the roundings add up to, for a
  paddle whose coordinates are at most 2048 in absolute value. The bounds for the client
  hold for every arctangent, cosine and sine with a relative error of at most 2^-52,
  which an error of one unit in the last place does not exceed; the nearest double is
  within half of that.
\<close>

lemma server_push:
  fixes px py qx qy dx dy distSq dst x' :: real
  assumes dx: "dx = to_double (px - qx)" and dy: "dy = to_double (py - qy)"
    and distSq: "distSq = to_double (to_double (dx * dx) + to_double (dy * dy))"
    and dist: "dst = to_double (sqrt distSq)"
    and nz: "distSq \<noteq> 0" and lt: "distSq < 3364"
    and q: "\<bar>qx\<bar> \<le> 2048"
    and x': "x' = to_double (px + to_double (to_double (dx / dst) * to_double (58 - dst)))"
  shows "\<bar>x' - (qx + 58 * ((px - qx) / sqrt ((px - qx) * (px - qx) + (py - qy) * (py - qy))))\<bar> \<le> 1 / 2 ^ 40"
proof -
  define X where "X = px - qx"
  define Y where "Y = py - qy"
  define S0 where "S0 = X * X + Y * Y"
  define S where "S = dx * dx + dy * dy"
  define D0 where "D0 = sqrt S0"
  obtain r1 where r1: "dx = X * r1" "near1 1 r1" unfolding dx X_def using to_double_near by blast
  obtain r2 where r2: "dy = Y * r2" "near1 1 r2" unfolding dy Y_def using to_double_near by blast
  obtain r3 where r3: "to_double (dx * dx) = dx * dx * r3" "near1 1 r3" using to_double_near by blast
  obtain r4 where r4: "to_double (dy * dy) = dy * dy * r4" "near1 1 r4" using to_double_near by blast
  obtain r5 where r5: "distSq = (to_double (dx * dx) + to_double (dy * dy)) * r5" "near1 1 r5"
    unfolding distSq using to_double_near by blast
  have S_nonneg: "0 \<le> S" by (simp add: S_def)
  have S_nz: "S \<noteq> 0"
  proof
    assume "S = 0"
    then have "dx = 0" "dy = 0" unfolding S_def by (simp_all add: sum_squares_eq_zero_iff)
    then show False using nz unfolding distSq by simp
  qed
  have S_pos: "0 < S" using S_nonneg S_nz by simp
  obtain r34 where r34: "dx * dx * r3 + dy * dy * r4 = (dx * dx + dy * dy) * r34" "near1 1 r34"
    using near1_convex[OF r3(2) r4(2), of "dx * dx" "dy * dy"] S_pos unfolding S_def by auto
  define g where "g = r34 * r5"
  have ng: "near1 3 g" unfolding g_def using near1_mult[OF r34(2) r5(2)] by simp
  have dsq1: "distSq = S * g" unfolding r5(1) r3(1) r4(1) r34(1) g_def S_def by simp
  have n11: "near1 3 (r1 * r1)" using near1_mult[OF r1(2) r1(2)] by simp
  have n22: "near1 3 (r2 * r2)" using near1_mult[OF r2(2) r2(2)] by simp
  have S0_nonneg: "0 \<le> S0" by (simp add: S0_def)
  have S0_nz: "S0 \<noteq> 0"
  proof
    assume "S0 = 0"
    then have "X = 0" "Y = 0" unfolding S0_def by (simp_all add: sum_squares_eq_zero_iff)
    then show False using S_nz unfolding S_def r1(1) r2(1) by simp
  qed
  have S0_pos: "0 < S0" using S0_nonneg S0_nz by simp
  obtain w where w: "X * X * (r1 * r1) + Y * Y * (r2 * r2) = (X * X + Y * Y) * w" "near1 3 w"
    using near1_convex[OF n11 n22, of "X * X" "Y * Y"] S0_pos unfolding S0_def by auto
  have SS0: "S = S0 * w" unfolding S_def r1(1) r2(1) S0_def using w(1) by (simp add: algebra_simps)
  define h where "h = w * g"
  have nh: "near1 7 h" unfolding h_def using near1_mult[OF w(2) ng] by simp
  have dsq2: "distSq = S0 * h" unfolding dsq1 SS0 h_def by simp
  have D0_pos: "0 < D0" unfolding D0_def using S0_pos by simp
  have sq: "sqrt distSq = D0 * sqrt h" unfolding dsq2 D0_def by (rule real_sqrt_mult)
  have nsh: "near1 7 (sqrt h)" using near1_sqrt[OF nh] by simp
  obtain r6 where r6: "dst = sqrt distSq * r6" "near1 1 r6" unfolding dist using to_double_near by blast
  define t where "t = sqrt h * r6"
  have nt: "near1 9 t" unfolding t_def using near1_mult[OF nsh r6(2)] by simp
  have t_pos: "0 < t" using near1_pos[OF nt] by simp
  have dist_eq: "dst = D0 * t" unfolding r6(1) sq t_def by simp
  have h_lo: "1 - 1 / 2 ^ 33 \<le> h" using near1_bounds[OF nh] by simp
  have S0_bd: "S0 < 3481"
  proof -
    have "S0 * (1 - 1 / 2 ^ 33) \<le> S0 * h" using h_lo S0_nonneg by (intro mult_left_mono) simp_all
    then have "S0 * (1 - 1 / 2 ^ 33) < 3364" using lt dsq2 by simp
    then show ?thesis by simp
  qed
  have D0_bd: "D0 < 59"
  proof -
    have "sqrt S0 < sqrt 3481" using S0_bd by (simp only: real_sqrt_less_iff)
    moreover have "sqrt 3481 = 59" by (rule real_sqrt_unique) simp_all
    ultimately show ?thesis by (simp add: D0_def)
  qed
  define A where "A = X / D0"
  have XA: "X = A * D0" using D0_pos by (simp add: A_def)
  have absX: "\<bar>X\<bar> \<le> D0"
  proof -
    have "X * X \<le> S0" by (simp add: S0_def)
    then have "sqrt (X * X) \<le> sqrt S0" by (simp only: real_sqrt_le_iff)
    moreover have "sqrt (X * X) = \<bar>X\<bar>" by (rule real_sqrt_abs2)
    ultimately show ?thesis by (simp only: D0_def)
  qed
  have absA: "\<bar>A\<bar> \<le> 1" unfolding A_def using absX D0_pos by simp
  obtain r7 where r7: "to_double (dx / dst) = dx / dst * r7" "near1 1 r7" using to_double_near by blast
  obtain r8 where r8: "to_double (58 - dst) = (58 - dst) * r8" "near1 1 r8" using to_double_near by blast
  define a where "a = to_double (to_double (dx / dst) * to_double (58 - dst))"
  obtain r9 where r9: "a = to_double (dx / dst) * to_double (58 - dst) * r9" "near1 1 r9"
    unfolding a_def using to_double_near by blast
  obtain r10 where r10: "x' = (px + a) * r10" "near1 1 r10"
    unfolding x' a_def using to_double_near by blast
  define kp where "kp = r1 * r7 * r8 * r9"
  have n17: "near1 3 (r1 * r7)" using near1_mult[OF r1(2) r7(2)] by simp
  have n178: "near1 5 (r1 * r7 * r8)" using near1_mult[OF n17 r8(2)] by simp
  have nkp: "near1 7 kp" unfolding kp_def using near1_mult[OF n178 r9(2)] by simp
  have nit: "near1 10 (1 / t)" using near1_inverse[OF nt] by simp
  define kt where "kt = kp * (1 / t)"
  have nkt: "near1 18 kt" unfolding kt_def using near1_mult[OF nkp nit] by simp
  have a_eq: "a = A * (58 * kt - D0 * kp)"
  proof -
    have "a = (dx / dst * r7) * ((58 - dst) * r8) * r9"
      using r9(1) r7(1) r8(1) by (simp only:)
    then have "a = (X * r1 / (D0 * t) * r7) * ((58 - D0 * t) * r8) * r9"
      unfolding r1(1) dist_eq .
    moreover have "A * (58 * kt - D0 * kp) = (X * r1 / (D0 * t) * r7) * ((58 - D0 * t) * r8) * r9"
    proof -
      have "D0 \<noteq> 0" "t \<noteq> 0" using D0_pos t_pos by simp_all
      then show ?thesis unfolding A_def kt_def kp_def by (simp add: field_simps)
    qed
    ultimately show ?thesis by simp
  qed
  define e1 where "e1 = kt - 1"
  define e2 where "e2 = 1 - kp"
  define e3 where "e3 = r10 - 1"
  have be1: "\<bar>e1\<bar> \<le> 18 / 2 ^ 53" unfolding e1_def using near1_abs[OF nkt] .
  have be2: "\<bar>e2\<bar> \<le> 7 / 2 ^ 53" unfolding e2_def using near1_abs_sym[OF nkp] .
  have be3: "\<bar>e3\<bar> \<le> 1 / 2 ^ 53" unfolding e3_def using near1_abs[OF r10(2)] .
  have "x' - (qx + 58 * A) = (px - qx) + a - 58 * A + (px + a) * (r10 - 1)"
    unfolding r10(1) by (simp add: algebra_simps)
  also have "px - qx = A * D0" using XA by (simp add: X_def)
  finally have err: "x' - (qx + 58 * A) = A * (58 * e1 + D0 * e2) + (px + a) * e3"
    unfolding a_eq e1_def e2_def e3_def by (simp add: algebra_simps)
  have b1: "\<bar>58 * e1 + D0 * e2\<bar> \<le> 58 * (18 / 2 ^ 53) + 59 * (7 / 2 ^ 53)"
  proof -
    have "\<bar>58 * e1\<bar> \<le> 58 * (18 / 2 ^ 53)" using abs_mult_le[of 58 58 e1, OF _ be1] by simp
    moreover have "\<bar>D0 * e2\<bar> \<le> 59 * (7 / 2 ^ 53)"
      using abs_mult_le[of D0 59 e2, OF _ be2] D0_pos D0_bd by simp
    ultimately show ?thesis by linarith
  qed
  have b2: "\<bar>A * (58 * e1 + D0 * e2)\<bar> \<le> 1 * (58 * (18 / 2 ^ 53) + 59 * (7 / 2 ^ 53))"
    using absA b1 by (rule abs_mult_le)
  have ba: "\<bar>a\<bar> \<le> 1 * (58 * 2 + 59 * 2)"
    unfolding a_eq
  proof (rule abs_mult_le[OF absA])
    have "\<bar>58 * kt\<bar> \<le> 58 * 2" using abs_mult_le[of 58 58 kt 2] near1_le2[OF nkt] by simp
    moreover have "\<bar>D0 * kp\<bar> \<le> 59 * 2"
      using abs_mult_le[of D0 59 kp 2] near1_le2[OF nkp] D0_pos D0_bd by simp
    ultimately show "\<bar>58 * kt - D0 * kp\<bar> \<le> 58 * 2 + 59 * 2" by linarith
  qed
  have bpx: "\<bar>px\<bar> \<le> 59 + 2048"
  proof -
    have "px = X + qx" by (simp add: X_def)
    then show ?thesis using absX D0_bd q by linarith
  qed
  have ba': "\<bar>a\<bar> \<le> 234" using ba by simp
  have bpx': "\<bar>px\<bar> \<le> 2107" using bpx by simp
  have "\<bar>px + a\<bar> \<le> 2341" using bpx' ba' by linarith
  then have b3: "\<bar>(px + a) * e3\<bar> \<le> 2341 * (1 / 2 ^ 53)" using be3 by (rule abs_mult_le)
  have "\<bar>x' - (qx + 58 * A)\<bar> \<le> 1 * (58 * (18 / 2 ^ 53) + 59 * (7 / 2 ^ 53)) + 2341 * (1 / 2 ^ 53)"
    unfolding err using b2 b3 by linarith
  also have "\<dots> \<le> 1 / 2 ^ 40" by simp
  finally show ?thesis unfolding A_def D0_def S0_def X_def Y_def .
qed

lemma atan2_bound: "\<bar>atan2 b a\<bar> \<le> pi"
proof -
  have ar: "- (pi / 2) < arctan (b / a)" "arctan (b / a) < pi / 2"
    by (rule arctan_lbound, rule arctan_ubound)
  have p: "0 < pi" by simp
  consider "0 < a" | "a < 0" "0 \<le> b" | "a < 0" "b < 0" | "a = 0" "0 < b" | "a = 0" "b < 0" | "a = 0" "b = 0"
    by linarith
  then show ?thesis
  proof cases
    case 1
    then have "atan2 b a = arctan (b / a)" by (simp add: atan2_def)
    then show ?thesis using ar p by linarith
  next
    case 2
    then have "b / a \<le> 0" by (simp add: divide_nonneg_neg)
    then have "arctan (b / a) \<le> 0" by (simp add: arctan_le_zero_iff)
    moreover have "atan2 b a = arctan (b / a) + pi" using 2 by (simp add: atan2_def)
    ultimately show ?thesis using ar p by linarith
  next
    case 3
    then have "0 < b / a" by (simp add: divide_neg_neg)
    then have "0 < arctan (b / a)" by (simp add: zero_less_arctan_iff)
    moreover have "atan2 b a = arctan (b / a) - pi" using 3 by (simp add: atan2_def)
    ultimately show ?thesis using ar p by linarith
  next
    case 4
    then have "atan2 b a = pi / 2" by (simp add: atan2_def)
    then show ?thesis using p by linarith
  next
    case 5
    then have "atan2 b a = - (pi / 2)" by (simp add: atan2_def)
    then show ?thesis using p by linarith
  next
    case 6
    then have "atan2 b a = 0" by (simp add: atan2_def)
    then show ?thesis using p by linarith
  qed
qed

lemma cos_sin_atan2:
  assumes "a \<noteq> 0 \<or> b \<noteq> 0"
  shows "cos (atan2 b a) = a / sqrt (a * a + b * b) \<and> sin (atan2 b a) = b / sqrt (a * a + b * b)"
proof -
  have pos: "a \<noteq> 0 \<Longrightarrow> sqrt (1 + (b / a)\<^sup>2) = sqrt (a * a + b * b) / \<bar>a\<bar>"
  proof -
    assume a0: "a \<noteq> 0"
    then have "1 + (b / a)\<^sup>2 = (a * a + b * b) / (a * a)"
      by (simp add: power2_eq_square field_simps)
    then have "sqrt (1 + (b / a)\<^sup>2) = sqrt (a * a + b * b) / sqrt (a * a)"
      by (simp only: real_sqrt_divide)
    then show ?thesis by (simp only: real_sqrt_abs2)
  qed
  consider "0 < a" | "a < 0" | "a = 0" "0 < b" | "a = 0" "b < 0" using assms by linarith
  then show ?thesis
  proof cases
    case 1
    then have s: "sqrt (1 + (b / a)\<^sup>2) = sqrt (a * a + b * b) / a" using pos by simp
    show ?thesis using 1 by (simp add: atan2_def cos_arctan sin_arctan s)
  next
    case 2
    then have s: "sqrt (1 + (b / a)\<^sup>2) = sqrt (a * a + b * b) / (- a)" using pos by simp
    show ?thesis using 2 by (simp add: atan2_def cos_arctan sin_arctan s)
  next
    case 3
    then show ?thesis by (simp add: atan2_def)
  next
    case 4
    have "sqrt (b * b) = \<bar>b\<bar>" by (rule real_sqrt_abs2)
    then show ?thesis using 4 by (simp add: atan2_def)
  qed
qed

lemma cos_lipschitz: "\<bar>cos a - cos b\<bar> \<le> \<bar>a - (b::real)\<bar>"
proof -
  have "cos a - cos b = 2 * sin ((a + b) / 2) * sin ((b - a) / 2)" by (rule cos_diff_cos)
  then have "\<bar>cos a - cos b\<bar> = 2 * \<bar>sin ((a + b) / 2)\<bar> * \<bar>sin ((b - a) / 2)\<bar>"
    by (simp add: abs_mult)
  also have "\<dots> \<le> 2 * 1 * \<bar>(b - a) / 2\<bar>"
    by (intro mult_mono abs_sin_x_le_abs_x) simp_all
  finally show ?thesis by (simp add: abs_minus_commute)
qed

lemma sin_lipschitz: "\<bar>sin a - sin b\<bar> \<le> \<bar>a - (b::real)\<bar>"
proof -
  have "sin a - sin b = 2 * sin ((a - b) / 2) * cos ((a + b) / 2)" by (rule sin_diff_sin)
  then have "\<bar>sin a - sin b\<bar> = 2 * \<bar>sin ((a - b) / 2)\<bar> * \<bar>cos ((a + b) / 2)\<bar>"
    by (simp add: abs_mult)
  also have "\<dots> \<le> 2 * \<bar>(a - b) / 2\<bar> * 1"
    by (intro mult_mono abs_sin_x_le_abs_x) simp_all
  finally show ?thesis by simp
qed

lemma normal_approx:
  fixes X Y dx dy :: real
  assumes dx: "dx = to_double X" and dy: "dy = to_double Y" and nz: "X \<noteq> 0 \<or> Y \<noteq> 0"
  shows "\<bar>dx / sqrt (dx * dx + dy * dy) - X / sqrt (X * X + Y * Y)\<bar> \<le> 6 / 2 ^ 53"
proof -
  define S0 where "S0 = X * X + Y * Y"
  define D0 where "D0 = sqrt S0"
  obtain r1 where r1: "dx = X * r1" "near1 1 r1" unfolding dx using to_double_near by blast
  obtain r2 where r2: "dy = Y * r2" "near1 1 r2" unfolding dy using to_double_near by blast
  have n11: "near1 3 (r1 * r1)" using near1_mult[OF r1(2) r1(2)] by simp
  have n22: "near1 3 (r2 * r2)" using near1_mult[OF r2(2) r2(2)] by simp
  have S0_nonneg: "0 \<le> S0" by (simp add: S0_def)
  have "S0 \<noteq> 0" unfolding S0_def using nz by (simp add: sum_squares_eq_zero_iff)
  then have S0_pos: "0 < S0" using S0_nonneg by simp
  obtain w where w: "X * X * (r1 * r1) + Y * Y * (r2 * r2) = (X * X + Y * Y) * w" "near1 3 w"
    using near1_convex[OF n11 n22, of "X * X" "Y * Y"] S0_pos unfolding S0_def by auto
  have SS0: "dx * dx + dy * dy = S0 * w" unfolding r1(1) r2(1) S0_def using w(1) by (simp add: algebra_simps)
  have D0_pos: "0 < D0" unfolding D0_def using S0_pos by simp
  have sq: "sqrt (dx * dx + dy * dy) = D0 * sqrt w" unfolding SS0 D0_def by (rule real_sqrt_mult)
  have nsw: "near1 3 (sqrt w)" using near1_sqrt[OF w(2)] by simp
  have swpos: "0 < sqrt w" using near1_pos[OF nsw] by simp
  have ni: "near1 4 (1 / sqrt w)" using near1_inverse[OF nsw] by simp
  define k where "k = r1 * (1 / sqrt w)"
  have nk: "near1 6 k" unfolding k_def using near1_mult[OF r1(2) ni] by simp
  define A where "A = X / D0"
  have absA: "\<bar>A\<bar> \<le> 1"
  proof -
    have "X * X \<le> S0" by (simp add: S0_def)
    then have "sqrt (X * X) \<le> sqrt S0" by (simp only: real_sqrt_le_iff)
    moreover have "sqrt (X * X) = \<bar>X\<bar>" by (rule real_sqrt_abs2)
    ultimately have "\<bar>X\<bar> \<le> D0" by (simp only: D0_def)
    then show ?thesis unfolding A_def using D0_pos by simp
  qed
  have "dx / sqrt (dx * dx + dy * dy) = dx / (D0 * sqrt w)" by (simp only: sq)
  also have "\<dots> = X * r1 / (D0 * sqrt w)" by (simp only: r1(1))
  also have "\<dots> = A * k" unfolding A_def k_def by simp
  finally have "dx / sqrt (dx * dx + dy * dy) = A * k" .
  then have "dx / sqrt (dx * dx + dy * dy) - A = A * (k - 1)" by (simp add: algebra_simps)
  moreover have "\<bar>A * (k - 1)\<bar> \<le> 1 * (6 / 2 ^ 53)" using absA near1_abs[OF nk] by (rule abs_mult_le)
  ultimately have "\<bar>dx / sqrt (dx * dx + dy * dy) - A\<bar> \<le> 6 / 2 ^ 53" by simp
  then show ?thesis unfolding A_def D0_def S0_def .
qed

lemma pi_u: "pi * (2 / 2 ^ 53) \<le> 8 / 2 ^ 53"
  using pi_less_4 by simp

lemma angle_approx:
  fixes X Y dx dy t :: real
  assumes dx: "dx = to_double X" and dy: "dy = to_double Y" and nz: "X \<noteq> 0 \<or> Y \<noteq> 0"
    and t: "t = atan2 dy dx * rt" "near1 2 rt"
  shows "\<bar>cos t - X / sqrt (X * X + Y * Y)\<bar> \<le> 14 / 2 ^ 53"
    and "\<bar>sin t - Y / sqrt (X * X + Y * Y)\<bar> \<le> 14 / 2 ^ 53"
proof -
  define th where "th = atan2 dy dx"
  have r: "t = th * rt" using t(1) by (simp add: th_def)
  have "t - th = th * (rt - 1)" unfolding r by (simp add: algebra_simps)
  moreover have "\<bar>th * (rt - 1)\<bar> \<le> pi * (2 / 2 ^ 53)"
    using atan2_bound[of dy dx] near1_abs[OF t(2)] unfolding th_def by (rule abs_mult_le)
  ultimately have d: "\<bar>t - th\<bar> \<le> 8 / 2 ^ 53" using pi_u by simp
  have nz': "dx \<noteq> 0 \<or> dy \<noteq> 0" using nz unfolding dx dy by (simp add: to_double_zero_iff)
  have cs: "cos th = dx / sqrt (dx * dx + dy * dy)" "sin th = dy / sqrt (dx * dx + dy * dy)"
    unfolding th_def using cos_sin_atan2[OF nz'] by simp_all
  have nx: "\<bar>dx / sqrt (dx * dx + dy * dy) - X / sqrt (X * X + Y * Y)\<bar> \<le> 6 / 2 ^ 53"
    using normal_approx[OF dx dy nz] .
  have "\<bar>dy / sqrt (dy * dy + dx * dx) - Y / sqrt (Y * Y + X * X)\<bar> \<le> 6 / 2 ^ 53"
    using normal_approx[OF dy dx] nz by blast
  then have ny: "\<bar>dy / sqrt (dx * dx + dy * dy) - Y / sqrt (X * X + Y * Y)\<bar> \<le> 6 / 2 ^ 53"
    by (simp only: add.commute)
  have "\<bar>cos t - cos th\<bar> \<le> 8 / 2 ^ 53" using cos_lipschitz[of t th] d by linarith
  then show "\<bar>cos t - X / sqrt (X * X + Y * Y)\<bar> \<le> 14 / 2 ^ 53"
    using nx unfolding cs(1)[symmetric] by linarith
  have "\<bar>sin t - sin th\<bar> \<le> 8 / 2 ^ 53" using sin_lipschitz[of t th] d by linarith
  then show "\<bar>sin t - Y / sqrt (X * X + Y * Y)\<bar> \<le> 14 / 2 ^ 53"
    using ny unfolding cs(2)[symmetric] by linarith
qed

lemma target_error:
  fixes c0 c A q x' :: real
  assumes c0: "\<bar>c0 - A\<bar> \<le> 14 / 2 ^ 53" and A: "\<bar>A\<bar> \<le> 1" and q: "\<bar>q\<bar> \<le> 2048"
    and c: "c = c0 * rc" "near1 2 rc"
    and x': "x' = to_double (q + to_double (c * 40))"
  shows "\<bar>x' - (q + 40 * A)\<bar> \<le> 1 / 2 ^ 40"
proof -
  define e where "e = c0 - A"
  define m where "m = to_double (c * 40)"
  obtain r4 where r4: "m = c * 40 * r4" "near1 1 r4" unfolding m_def using to_double_near by blast
  obtain r5 where r5: "x' = (q + m) * r5" "near1 1 r5" unfolding x' m_def using to_double_near by blast
  define g where "g = rc * r4"
  have ng: "near1 4 g" unfolding g_def using near1_mult[OF c(2) r4(2)] by simp
  have m_eq: "m = 40 * ((A + e) * g)" unfolding r4(1) c(1) g_def e_def by simp
  have be: "\<bar>e\<bar> \<le> 14 / 2 ^ 53" using c0 by (simp add: e_def)
  have bg: "\<bar>g\<bar> \<le> 2" using near1_le2[OF ng] by simp
  have "\<bar>e\<bar> \<le> 1" using be by simp
  then have bc: "\<bar>A + e\<bar> \<le> 2" using A by linarith
  have "\<bar>(A + e) * g\<bar> \<le> 2 * 2" using bc bg by (rule abs_mult_le)
  then have bm: "\<bar>m\<bar> \<le> 160" unfolding m_eq by simp
  have err: "x' - (q + 40 * A) = 40 * (A * (g - 1)) + 40 * (e * g) + (q + m) * (r5 - 1)"
    unfolding r5(1) m_eq by (simp add: algebra_simps)
  have b1: "\<bar>A * (g - 1)\<bar> \<le> 1 * (4 / 2 ^ 53)" using A near1_abs[OF ng] by (rule abs_mult_le)
  have b2: "\<bar>e * g\<bar> \<le> 14 / 2 ^ 53 * 2" using be bg by (rule abs_mult_le)
  have "\<bar>q + m\<bar> \<le> 2208" using q bm by linarith
  then have b3: "\<bar>(q + m) * (r5 - 1)\<bar> \<le> 2208 * (1 / 2 ^ 53)" using near1_abs[OF r5(2)] by (rule abs_mult_le)
  have "\<bar>x' - (q + 40 * A)\<bar> \<le> 40 * (1 * (4 / 2 ^ 53)) + 40 * (14 / 2 ^ 53 * 2) + 2208 * (1 / 2 ^ 53)"
    unfolding err using b1 b2 b3 by linarith
  also have "\<dots> \<le> 1 / 2 ^ 40" by simp
  finally show ?thesis .
qed

lemma to_double_nat_small:
  "to_double 58 = 58" "to_double 3364 = 3364" "to_double 40 = 40"
  using to_double_eval[of 5 58 0 "58 * 2 ^ 47"] to_double_eval[of 11 3364 0 "3364 * 2 ^ 41"]
    to_double_eval[of 5 40 0 "40 * 2 ^ 47"]
  by simp_all

lemma combined64: "mul64 (add64 PUCK_RADIUS PADDLE_RADIUS) (add64 PUCK_RADIUS PADDLE_RADIUS) = Fin 3364"
  by (simp add: mul64_def add64_def server_values to_double_nat_small)

lemma radii64: "add64 GAME_PUCK_RADIUS GAME_PADDLE_RADIUS = Fin 40"
  by (simp add: add64_def game_values to_double_nat_small)

lemma within_half_finite:
  "within_half s p \<Longrightarrow> \<exists>qx qy. pad_x p = Fin qx \<and> pad_y p = Fin qy \<and> \<bar>qx\<bar> \<le> 2048 \<and> \<bar>qy\<bar> \<le> 2048"
  by (cases "pad_x p"; cases "pad_y p"; cases s) (auto simp: within_half_def server_values)

lemma on_table_finite:
  "on_table p \<Longrightarrow> \<exists>qx qy. cp_x p = Fin qx \<and> cp_y p = Fin qy \<and> \<bar>qx\<bar> \<le> 2048 \<and> \<bar>qy\<bar> \<le> 2048"
  by (cases "cp_x p"; cases "cp_y p") (auto simp: on_table_def game_values)

lemma distSq64_finite:
  assumes "pad_x paddle = Fin qx" "pad_y paddle = Fin qy" "distSq64 puck paddle < Fin c"
  shows "\<exists>px py. puck_x puck = Fin px \<and> puck_y puck = Fin py"
  using assms
  by (cases "puck_x puck"; cases "puck_y puck")
     (simp_all add: distSq64_def Let_def sub64_def mul64_def add64_def minus_jsnum_def)

lemma distance64_finite:
  assumes "cp_x paddle = Fin qx" "cp_y paddle = Fin qy" "distance64 puck paddle < Fin c"
  shows "\<exists>px py. gp_x puck = Fin px \<and> gp_y puck = Fin py"
  using assms
  by (cases "gp_x puck"; cases "gp_y puck")
     (simp_all add: distance64_def Let_def sub64_def mul64_def add64_def sqrt64_def minus_jsnum_def)

lemma unit_component:
  fixes X Y :: real
  shows "\<bar>X / sqrt (X * X + Y * Y)\<bar> \<le> 1"
proof (cases "X * X + Y * Y = 0")
  case True then show ?thesis by simp
next
  case False
  have "0 \<le> X * X + Y * Y" by simp
  then have "0 < X * X + Y * Y" using False by linarith
  then have pos: "0 < sqrt (X * X + Y * Y)" by (simp only: real_sqrt_gt_0_iff)
  have "X * X \<le> X * X + Y * Y" by simp
  then have "sqrt (X * X) \<le> sqrt (X * X + Y * Y)" by (simp only: real_sqrt_le_iff)
  moreover have "sqrt (X * X) = \<bar>X\<bar>" by (rule real_sqrt_abs2)
  ultimately have "\<bar>X\<bar> \<le> sqrt (X * X + Y * Y)" by simp
  then show ?thesis using pos by simp
qed

lemma pushed_outI:
  fixes px py qx qy x' y' R :: real
  assumes x: "\<bar>x' - (qx + R * ((px - qx) / sqrt ((px - qx) * (px - qx) + (py - qy) * (py - qy))))\<bar> \<le> 1 / 2 ^ 40"
    and y: "\<bar>y' - (qy + R * ((py - qy) / sqrt ((px - qx) * (px - qx) + (py - qy) * (py - qy))))\<bar> \<le> 1 / 2 ^ 40"
    and nz: "px - qx \<noteq> 0 \<or> py - qy \<noteq> 0" and R: "0 \<le> R"
  shows "pushed_out R px py qx qy x' y'"
proof -
  define X where "X = px - qx"
  define Y where "Y = py - qy"
  define D where "D = sqrt (X * X + Y * Y)"
  have "X * X + Y * Y \<noteq> 0" using nz by (simp add: X_def Y_def sum_squares_eq_zero_iff)
  moreover have "0 \<le> X * X + Y * Y" by simp
  ultimately have S: "0 < X * X + Y * Y" by linarith
  then have D: "0 < D" by (simp add: D_def)
  have DD: "D * D = X * X + Y * Y" using S by (simp add: D_def)
  have q1: "(X * X + Y * Y) / (D * D) = 1" unfolding DD[symmetric] using D by simp
  have "(R * (X / D)) * (R * (X / D)) + (R * (Y / D)) * (R * (Y / D)) = (R * R) * ((X * X + Y * Y) / (D * D))"
    using D by (simp add: field_simps)
  also have "\<dots> = R * R" by (simp only: q1 mult_1_right)
  finally have "sqrt ((R * (X / D)) * (R * (X / D)) + (R * (Y / D)) * (R * (Y / D))) = sqrt (R * R)" by simp
  also have "\<dots> = R" using R by simp
  finally have n: "sqrt ((R * (X / D)) * (R * (X / D)) + (R * (Y / D)) * (R * (Y / D))) = R" .
  have "\<bar>sqrt ((x' - qx) * (x' - qx) + (y' - qy) * (y' - qy))
        - sqrt ((R * (X / D)) * (R * (X / D)) + (R * (Y / D)) * (R * (Y / D)))\<bar>
        \<le> \<bar>(x' - qx) - R * (X / D)\<bar> + \<bar>(y' - qy) - R * (Y / D)\<bar>"
    by (rule sqrt_diff_le)
  moreover have "(x' - qx) - R * (X / D) = x' - (qx + R * (X / D))" by simp
  moreover have "(y' - qy) - R * (Y / D) = y' - (qy + R * (Y / D))" by simp
  ultimately have "\<bar>sqrt ((x' - qx) * (x' - qx) + (y' - qy) * (y' - qy)) - R\<bar>
        \<le> \<bar>x' - (qx + R * (X / D))\<bar> + \<bar>y' - (qy + R * (Y / D))\<bar>"
    unfolding n by (simp only:)
  moreover have "\<bar>x' - (qx + R * (X / D))\<bar> \<le> 1 / 2 ^ 40" using x unfolding X_def Y_def D_def .
  moreover have "\<bar>y' - (qy + R * (Y / D))\<bar> \<le> 1 / 2 ^ 40" using y unfolding X_def Y_def D_def .
  ultimately have "\<bar>sqrt ((x' - qx) * (x' - qx) + (y' - qy) * (y' - qy)) - R\<bar> \<le> 1 / 2 ^ 40 + 1 / 2 ^ 40"
    by linarith
  then have "\<bar>sqrt ((x' - qx) * (x' - qx) + (y' - qy) * (y' - qy)) - R\<bar> \<le> 1 / 2 ^ 39" by simp
  then show ?thesis unfolding pushed_out_def using x y by simp
qed

lemma collide64_server:
  assumes wh: "within_half s paddle"
    and lt: "distSq64 puck paddle < mul64 (add64 PUCK_RADIUS PADDLE_RADIUS) (add64 PUCK_RADIUS PADDLE_RADIUS)"
    and nz: "\<not> jseq (distSq64 puck paddle) (Fin 0)"
  shows "\<exists>px py qx qy x' y'.
      puck_x puck = Fin px \<and> puck_y puck = Fin py \<and> pad_x paddle = Fin qx \<and> pad_y paddle = Fin qy
      \<and> puck_x (collideWithPaddle64 puck paddle) = Fin x'
      \<and> puck_y (collideWithPaddle64 puck paddle) = Fin y'
      \<and> pushed_out 58 px py qx qy x' y'"
proof -
  obtain qx qy where q: "pad_x paddle = Fin qx" "pad_y paddle = Fin qy" "\<bar>qx\<bar> \<le> 2048" "\<bar>qy\<bar> \<le> 2048"
    using within_half_finite[OF wh] by blast
  have lt': "distSq64 puck paddle < Fin 3364" using lt by (simp only: combined64)
  obtain px py where p: "puck_x puck = Fin px" "puck_y puck = Fin py"
    using distSq64_finite[OF q(1) q(2) lt'] by blast
  define dx where "dx = to_double (px - qx)"
  define dy where "dy = to_double (py - qy)"
  define distSq where "distSq = to_double (to_double (dx * dx) + to_double (dy * dy))"
  define dst where "dst = to_double (sqrt distSq)"
  define x' where "x' = to_double (px + to_double (to_double (dx / dst) * to_double (58 - dst)))"
  define y' where "y' = to_double (py + to_double (to_double (dy / dst) * to_double (58 - dst)))"
  have sub: "sub64 (Fin px) (Fin qx) = Fin dx" "sub64 (Fin py) (Fin qy) = Fin dy"
    by (simp_all add: sub64_def dx_def dy_def)
  have sumsq: "add64 (mul64 (Fin dx) (Fin dx)) (mul64 (Fin dy) (Fin dy)) = Fin distSq"
    by (simp add: add64_def mul64_def distSq_def)
  have ds: "distSq64 puck paddle = Fin distSq"
    unfolding distSq64_def Let_def p q sub sumsq ..
  have dlt: "distSq < 3364" using lt' ds by simp
  have dnz: "distSq \<noteq> 0" using nz ds by (simp add: jseq_def)
  have d0: "0 \<le> distSq" unfolding distSq_def
    by (intro to_double_nonneg add_nonneg_nonneg) simp_all
  have dst_nz: "dst \<noteq> 0" unfolding dst_def using dnz d0 by (simp add: to_double_zero_iff)
  have comb: "add64 (Fin 18) (Fin 40) = Fin 58"
    by (simp add: add64_def to_double_nat_small)
  have guard: "\<not> (Fin distSq \<ge> mul64 (Fin 58) (Fin 58) \<or> jseq (Fin distSq) (Fin 0))"
    using dlt dnz by (simp add: mul64_def to_double_nat_small jseq_def)
  have sq: "sqrt64 (Fin distSq) = Fin dst" using d0 by (simp add: sqrt64_def dst_def)
  have nxy: "div64 (Fin dx) (Fin dst) = Fin (to_double (dx / dst))"
    "div64 (Fin dy) (Fin dst) = Fin (to_double (dy / dst))"
    using dst_nz by (simp_all add: div64_def)
  have ov: "sub64 (Fin 58) (Fin dst) = Fin (to_double (58 - dst))" by (simp add: sub64_def)
  have tx: "add64 (Fin px) (mul64 (Fin (to_double (dx / dst))) (Fin (to_double (58 - dst)))) = Fin x'"
    by (simp add: add64_def mul64_def x'_def)
  have ty: "add64 (Fin py) (mul64 (Fin (to_double (dy / dst))) (Fin (to_double (58 - dst)))) = Fin y'"
    by (simp add: add64_def mul64_def y'_def)
  have X: "puck_x (collideWithPaddle64 puck paddle) = Fin x'"
    unfolding collideWithPaddle64_def Let_def p q sub sumsq server_values comb sq nxy ov
    using guard by (simp add: p tx)
  have Y: "puck_y (collideWithPaddle64 puck paddle) = Fin y'"
    unfolding collideWithPaddle64_def Let_def p q sub sumsq server_values comb sq nxy ov
    using guard by (simp add: p ty)
  have ex: "\<bar>x' - (qx + 58 * ((px - qx) / sqrt ((px - qx) * (px - qx) + (py - qy) * (py - qy))))\<bar> \<le> 1 / 2 ^ 40"
    using server_push[OF dx_def dy_def distSq_def dst_def dnz dlt q(3) x'_def] .
  have dsq': "distSq = to_double (to_double (dy * dy) + to_double (dx * dx))"
    by (simp add: distSq_def add.commute)
  have "\<bar>y' - (qy + 58 * ((py - qy) / sqrt ((py - qy) * (py - qy) + (px - qx) * (px - qx))))\<bar> \<le> 1 / 2 ^ 40"
    using server_push[OF dy_def dx_def dsq' dst_def dnz dlt q(4) y'_def] .
  then have ey: "\<bar>y' - (qy + 58 * ((py - qy) / sqrt ((px - qx) * (px - qx) + (py - qy) * (py - qy))))\<bar> \<le> 1 / 2 ^ 40"
    by (simp only: add.commute)
  have nzxy: "px - qx \<noteq> 0 \<or> py - qy \<noteq> 0"
  proof (rule ccontr)
    assume "\<not> (px - qx \<noteq> 0 \<or> py - qy \<noteq> 0)"
    then have "dx = 0" "dy = 0" by (simp_all add: dx_def dy_def)
    then show False using dnz by (simp add: distSq_def)
  qed
  have "pushed_out 58 px py qx qy x' y'" using pushed_outI[OF ex ey nzxy] by simp
  then show ?thesis using p q X Y by blast
qed

lemma collide64_client:
  assumes r1: "gp_radius gpuck = GAME_PUCK_RADIUS" and r2: "cp_radius cpaddle = GAME_PADDLE_RADIUS"
    and ot: "on_table cpaddle"
    and lt: "distance64 gpuck cpaddle < add64 (gp_radius gpuck) (cp_radius cpaddle)"
    and nz: "\<not> jseq (distance64 gpuck cpaddle) (Fin 0)"
  shows "\<exists>px py qx qy x' y'.
      gp_x gpuck = Fin px \<and> gp_y gpuck = Fin py \<and> cp_x cpaddle = Fin qx \<and> cp_y cpaddle = Fin qy
      \<and> gp_x (checkPaddleCollision64 gpuck cpaddle) = Fin x'
      \<and> gp_y (checkPaddleCollision64 gpuck cpaddle) = Fin y'
      \<and> pushed_out 40 px py qx qy x' y'"
proof -
  obtain qx qy where q: "cp_x cpaddle = Fin qx" "cp_y cpaddle = Fin qy" "\<bar>qx\<bar> \<le> 2048" "\<bar>qy\<bar> \<le> 2048"
    using on_table_finite[OF ot] by blast
  have R: "add64 (gp_radius gpuck) (cp_radius cpaddle) = Fin 40" unfolding r1 r2 by (rule radii64)
  have lt': "distance64 gpuck cpaddle < Fin 40" using lt by (simp only: R)
  obtain px py where p: "gp_x gpuck = Fin px" "gp_y gpuck = Fin py"
    using distance64_finite[OF q(1) q(2) lt'] by blast
  define dx where "dx = to_double (px - qx)"
  define dy where "dy = to_double (py - qy)"
  define distSq where "distSq = to_double (to_double (dx * dx) + to_double (dy * dy))"
  define dst where "dst = to_double (sqrt distSq)"
  define t where "t = to_double (atan2 dy dx)"
  define x' where "x' = to_double (qx + to_double (to_double (cos t) * 40))"
  define y' where "y' = to_double (qy + to_double (to_double (sin t) * 40))"
  have sub: "sub64 (Fin px) (Fin qx) = Fin dx" "sub64 (Fin py) (Fin qy) = Fin dy"
    by (simp_all add: sub64_def dx_def dy_def)
  have d0: "0 \<le> distSq" unfolding distSq_def
    by (intro to_double_nonneg add_nonneg_nonneg) simp_all
  have dist: "sqrt64 (add64 (mul64 (Fin dx) (Fin dx)) (mul64 (Fin dy) (Fin dy))) = Fin dst"
    using d0 by (simp add: sqrt64_def add64_def mul64_def distSq_def dst_def)
  have ds: "distance64 gpuck cpaddle = Fin dst"
    unfolding distance64_def Let_def p q sub dist ..
  have dlt: "dst < 40" using lt' ds by simp
  have dnz: "dst \<noteq> 0" using nz ds by (simp add: jseq_def)
  have nzxy: "px - qx \<noteq> 0 \<or> py - qy \<noteq> 0"
  proof (rule ccontr)
    assume "\<not> (px - qx \<noteq> 0 \<or> py - qy \<noteq> 0)"
    then have "dx = 0" "dy = 0" by (simp_all add: dx_def dy_def)
    then show False using dnz by (simp add: distSq_def dst_def)
  qed
  have ang: "atan2_64 (Fin dy) (Fin dx) = Fin t" by (simp add: atan2_64_def t_def)
  have tx: "add64 (Fin qx) (mul64 (cos64 (Fin t)) (Fin 40)) = Fin x'"
    by (simp add: add64_def mul64_def cos64_def x'_def)
  have ty: "add64 (Fin qy) (mul64 (sin64 (Fin t)) (Fin 40)) = Fin y'"
    by (simp add: add64_def mul64_def sin64_def y'_def)
  have guard: "Fin dst < Fin 40" using dlt by simp
  have X: "gp_x (checkPaddleCollision64 gpuck cpaddle) = Fin x'"
    unfolding checkPaddleCollision64_def Let_def p q sub dist R ang tx ty
    using guard by (simp add: p)
  have Y: "gp_y (checkPaddleCollision64 gpuck cpaddle) = Fin y'"
    unfolding checkPaddleCollision64_def Let_def p q sub dist R ang tx ty
    using guard by (simp add: p)
  obtain rt where rt: "t = atan2 dy dx * rt" "near1 1 rt" unfolding t_def using to_double_near by blast
  have rt2: "near1 2 rt" using rt(2) by (rule near1_mono) simp
  obtain rc where rc: "to_double (cos t) = cos t * rc" "near1 1 rc" using to_double_near by blast
  have rc2: "near1 2 rc" using rc(2) by (rule near1_mono) simp
  obtain rs where rs: "to_double (sin t) = sin t * rs" "near1 1 rs" using to_double_near by blast
  have rs2: "near1 2 rs" using rs(2) by (rule near1_mono) simp
  have c: "\<bar>cos t - (px - qx) / sqrt ((px - qx) * (px - qx) + (py - qy) * (py - qy))\<bar> \<le> 14 / 2 ^ 53"
    and s: "\<bar>sin t - (py - qy) / sqrt ((px - qx) * (px - qx) + (py - qy) * (py - qy))\<bar> \<le> 14 / 2 ^ 53"
    using angle_approx[OF dx_def dy_def nzxy rt(1) rt2] by simp_all
  have ux: "\<bar>(px - qx) / sqrt ((px - qx) * (px - qx) + (py - qy) * (py - qy))\<bar> \<le> 1"
    by (rule unit_component)
  have "\<bar>(py - qy) / sqrt ((py - qy) * (py - qy) + (px - qx) * (px - qx))\<bar> \<le> 1"
    by (rule unit_component)
  then have uy: "\<bar>(py - qy) / sqrt ((px - qx) * (px - qx) + (py - qy) * (py - qy))\<bar> \<le> 1"
    by (simp only: add.commute)
  have ex: "\<bar>x' - (qx + 40 * ((px - qx) / sqrt ((px - qx) * (px - qx) + (py - qy) * (py - qy))))\<bar> \<le> 1 / 2 ^ 40"
    using target_error[OF c ux q(3) rc(1) rc2 x'_def] .
  have ey: "\<bar>y' - (qy + 40 * ((py - qy) / sqrt ((px - qx) * (px - qx) + (py - qy) * (py - qy))))\<bar> \<le> 1 / 2 ^ 40"
    using target_error[OF s uy q(4) rs(1) rs2 y'_def] .
  have "pushed_out 40 px py qx qy x' y'" using pushed_outI[OF ex ey nzxy] by simp
  then show ?thesis using p q X Y by blast
qed

lemma sqrt_25: "sqrt 25 = (5::real)"
  by (rule real_sqrt_unique) simp_all

lemma sqrt_100: "sqrt 100 = (10::real)"
  by (rule real_sqrt_unique) simp_all

lemma sqrt_less_58: "0 \<le> a \<Longrightarrow> a < 3364 \<Longrightarrow> sqrt a < 58"
proof -
  assume "0 \<le> a" "a < 3364"
  then have "sqrt a < sqrt 3364" by (simp only: real_sqrt_less_iff)
  moreover have "sqrt 3364 = (58::real)" by (rule real_sqrt_unique) simp_all
  ultimately show ?thesis by simp
qed

lemma mul64_zero: "mul64 (Fin 0) (Fin a) = Fin 0"
  by (simp add: mul64_def)

lemma add64_zero: "add64 (Fin 0) (Fin 0) = Fin 0"
  by (simp add: add64_def)

text \<open>
  C4. When a collision routine detects an overlap of a puck and a paddle whose centres do
  not coincide, it pushes the puck out along the contact normal: the puck ends, within
  2^-40 in each coordinate, at the point of the ray from the centre of the paddle through
  the old centre of the puck that lies at the sum of the radii from the centre of the
  paddle, and the centres are then within 2^-39 of the sum of the radii apart. For the
  server the paddle is one that the tick has clamped into its half, the sum of the radii
  is 18 + 40 = 58, and the overlap test is the routine's own, on the square of the
  distance. For the client the radii are 15 and 25, the disc of the paddle lies on the
  table, and the test is on the distance. The distance can end below the sum of the radii
  by such a rounding error.
\<close>

theorem collision_pushes_puck_out:
  "(within_half s paddle
      \<and> distSq64 puck paddle < mul64 (add64 PUCK_RADIUS PADDLE_RADIUS) (add64 PUCK_RADIUS PADDLE_RADIUS)
      \<and> \<not> jseq (distSq64 puck paddle) (Fin 0)
    \<longrightarrow> (\<exists>px py qx qy x' y'.
          puck_x puck = Fin px \<and> puck_y puck = Fin py \<and> pad_x paddle = Fin qx \<and> pad_y paddle = Fin qy
          \<and> puck_x (collideWithPaddle64 puck paddle) = Fin x'
          \<and> puck_y (collideWithPaddle64 puck paddle) = Fin y'
          \<and> pushed_out 58 px py qx qy x' y'))
   \<and> (gp_radius gpuck = GAME_PUCK_RADIUS \<and> cp_radius cpaddle = GAME_PADDLE_RADIUS
      \<and> on_table cpaddle
      \<and> distance64 gpuck cpaddle < add64 (gp_radius gpuck) (cp_radius cpaddle)
      \<and> \<not> jseq (distance64 gpuck cpaddle) (Fin 0)
    \<longrightarrow> (\<exists>px py qx qy x' y'.
          gp_x gpuck = Fin px \<and> gp_y gpuck = Fin py \<and> cp_x cpaddle = Fin qx \<and> cp_y cpaddle = Fin qy
          \<and> gp_x (checkPaddleCollision64 gpuck cpaddle) = Fin x'
          \<and> gp_y (checkPaddleCollision64 gpuck cpaddle) = Fin y'
          \<and> pushed_out 40 px py qx qy x' y'))"
  using collide64_server[of s paddle puck] collide64_client[of gpuck cpaddle] by blast

text \<open>
  A server puck 20 to the right of a left paddle, and a client puck 10 to the right of a
  paddle.
\<close>

theorem collision_pushes_puck_out_witness:
  "within_half Left
      \<lparr>pad_id = ''a'', pad_x = Fin 80, pad_y = Fin 270, pad_vx = Fin 1, pad_vy = Fin 0, pad_lastUpdate = 0\<rparr>
   \<and> distSq64 \<lparr>puck_x = Fin 100, puck_y = Fin 270, puck_vx = Fin (- 2), puck_vy = Fin 0\<rparr>
        \<lparr>pad_id = ''a'', pad_x = Fin 80, pad_y = Fin 270, pad_vx = Fin 1, pad_vy = Fin 0, pad_lastUpdate = 0\<rparr>
       = Fin 400
   \<and> Fin 400 < mul64 (add64 PUCK_RADIUS PADDLE_RADIUS) (add64 PUCK_RADIUS PADDLE_RADIUS)
   \<and> \<not> jseq (Fin 400) (Fin 0)
   \<and> (\<exists>x' y'.
        puck_x (collideWithPaddle64
            \<lparr>puck_x = Fin 100, puck_y = Fin 270, puck_vx = Fin (- 2), puck_vy = Fin 0\<rparr>
            \<lparr>pad_id = ''a'', pad_x = Fin 80, pad_y = Fin 270, pad_vx = Fin 1, pad_vy = Fin 0, pad_lastUpdate = 0\<rparr>)
          = Fin x'
        \<and> puck_y (collideWithPaddle64
            \<lparr>puck_x = Fin 100, puck_y = Fin 270, puck_vx = Fin (- 2), puck_vy = Fin 0\<rparr>
            \<lparr>pad_id = ''a'', pad_x = Fin 80, pad_y = Fin 270, pad_vx = Fin 1, pad_vy = Fin 0, pad_lastUpdate = 0\<rparr>)
          = Fin y'
        \<and> pushed_out 58 100 270 80 270 x' y')
   \<and> on_table \<lparr>cp_x = Fin 100, cp_y = Fin 200, cp_radius = Fin 25\<rparr>
   \<and> distance64 \<lparr>gp_x = Fin 110, gp_y = Fin 200, gp_vx = Fin (- 2), gp_vy = Fin 0, gp_radius = Fin 15\<rparr>
        \<lparr>cp_x = Fin 100, cp_y = Fin 200, cp_radius = Fin 25\<rparr> = Fin 10
   \<and> Fin 10 < add64 (Fin 15) (Fin 25)
   \<and> \<not> jseq (Fin 10) (Fin 0)
   \<and> (\<exists>x' y'.
        gp_x (checkPaddleCollision64
            \<lparr>gp_x = Fin 110, gp_y = Fin 200, gp_vx = Fin (- 2), gp_vy = Fin 0, gp_radius = Fin 15\<rparr>
            \<lparr>cp_x = Fin 100, cp_y = Fin 200, cp_radius = Fin 25\<rparr>) = Fin x'
        \<and> gp_y (checkPaddleCollision64
            \<lparr>gp_x = Fin 110, gp_y = Fin 200, gp_vx = Fin (- 2), gp_vy = Fin 0, gp_radius = Fin 15\<rparr>
            \<lparr>cp_x = Fin 100, cp_y = Fin 200, cp_radius = Fin 25\<rparr>) = Fin y'
        \<and> pushed_out 40 110 200 100 200 x' y')"
proof -
  let ?puck = "\<lparr>puck_x = Fin 100, puck_y = Fin 270, puck_vx = Fin (- 2), puck_vy = Fin 0\<rparr>"
  let ?paddle = "\<lparr>pad_id = ''a'', pad_x = Fin 80, pad_y = Fin 270, pad_vx = Fin 1, pad_vy = Fin 0,
       pad_lastUpdate = 0\<rparr>"
  let ?gpuck = "\<lparr>gp_x = Fin 110, gp_y = Fin 200, gp_vx = Fin (- 2), gp_vy = Fin 0, gp_radius = Fin 15\<rparr>"
  let ?cpaddle = "\<lparr>cp_x = Fin 100, cp_y = Fin 200, cp_radius = Fin 25\<rparr>"
  have e20: "to_double 20 = 20" using to_double_eval[of 4 20 0 "20 * 2 ^ 48"] by simp
  have e400: "to_double 400 = 400" using to_double_eval[of 8 400 0 "400 * 2 ^ 44"] by simp
  have e10: "to_double 10 = 10" using to_double_eval[of 3 10 0 "10 * 2 ^ 49"] by simp
  have e100: "to_double 100 = 100" using to_double_eval[of 6 100 0 "100 * 2 ^ 46"] by simp
  have wh: "within_half Left ?paddle" by (simp add: within_half_def server_values)
  have d1: "distSq64 ?puck ?paddle = Fin 400"
    by (simp add: distSq64_def Let_def sub64_def mul64_def add64_def e20 e400)
  have c1: "Fin 400 < mul64 (add64 PUCK_RADIUS PADDLE_RADIUS) (add64 PUCK_RADIUS PADDLE_RADIUS)"
    by (simp add: combined64)
  have ot: "on_table ?cpaddle" by (simp add: on_table_def game_values)
  have d2: "distance64 ?gpuck ?cpaddle = Fin 10"
    by (simp add: distance64_def Let_def sub64_def mul64_def add64_def sqrt64_def e10 e100 sqrt_100)
  have c2: "Fin 10 < add64 (Fin 15) (Fin 25)" by (simp add: add64_def to_double_nat_small)
  have h1: "within_half Left ?paddle
      \<and> distSq64 ?puck ?paddle < mul64 (add64 PUCK_RADIUS PADDLE_RADIUS) (add64 PUCK_RADIUS PADDLE_RADIUS)
      \<and> \<not> jseq (distSq64 ?puck ?paddle) (Fin 0)"
    using wh c1 by (simp add: d1 jseq_def)
  have h2: "gp_radius ?gpuck = GAME_PUCK_RADIUS \<and> cp_radius ?cpaddle = GAME_PADDLE_RADIUS
      \<and> on_table ?cpaddle
      \<and> distance64 ?gpuck ?cpaddle < add64 (gp_radius ?gpuck) (cp_radius ?cpaddle)
      \<and> \<not> jseq (distance64 ?gpuck ?cpaddle) (Fin 0)"
    using ot c2 by (simp add: d2 jseq_def game_values)
  from collision_pushes_puck_out [of Left ?paddle ?puck ?gpuck ?cpaddle] h1 h2
  have "\<exists>px py qx qy x' y'.
          puck_x ?puck = Fin px \<and> puck_y ?puck = Fin py \<and> pad_x ?paddle = Fin qx \<and> pad_y ?paddle = Fin qy
          \<and> puck_x (collideWithPaddle64 ?puck ?paddle) = Fin x'
          \<and> puck_y (collideWithPaddle64 ?puck ?paddle) = Fin y'
          \<and> pushed_out 58 px py qx qy x' y'"
    and "\<exists>px py qx qy x' y'.
          gp_x ?gpuck = Fin px \<and> gp_y ?gpuck = Fin py \<and> cp_x ?cpaddle = Fin qx \<and> cp_y ?cpaddle = Fin qy
          \<and> gp_x (checkPaddleCollision64 ?gpuck ?cpaddle) = Fin x'
          \<and> gp_y (checkPaddleCollision64 ?gpuck ?cpaddle) = Fin y'
          \<and> pushed_out 40 px py qx qy x' y'"
    by blast+
  then have "\<exists>x' y'. puck_x (collideWithPaddle64 ?puck ?paddle) = Fin x'
          \<and> puck_y (collideWithPaddle64 ?puck ?paddle) = Fin y'
          \<and> pushed_out 58 100 270 80 270 x' y'"
    and "\<exists>x' y'. gp_x (checkPaddleCollision64 ?gpuck ?cpaddle) = Fin x'
          \<and> gp_y (checkPaddleCollision64 ?gpuck ?cpaddle) = Fin y'
          \<and> pushed_out 40 110 200 100 200 x' y'"
    by auto
  then show ?thesis using wh d1 c1 ot d2 c2 by (simp add: jseq_def)
qed

text \<open>
  C4 as the specification states it, with a distance of at least the sum of the radii,
  fails. The server's puck at (103, 274) overlaps the paddle at (100, 270), 5 away. It is
  pushed to the doubles nearest to 103 + 0.6 * 53 and 274 + 0.8 * 53, which are 134.8 and
  316.4 as printed. They are less than 58 away from (100, 270): the square of the distance
  is 1.3e-12 below 3364, and the routine's own test finds the overlap again, with
  3363.9999999999986 < 3364.
\<close>

theorem residual_overlap_counterexample:
  "distSq64 \<lparr>puck_x = Fin 103, puck_y = Fin 274, puck_vx = Fin 0, puck_vy = Fin 0\<rparr>
      \<lparr>pad_id = ''a'', pad_x = Fin 100, pad_y = Fin 270, pad_vx = Fin 0, pad_vy = Fin 0, pad_lastUpdate = 0\<rparr>
     = Fin 25
   \<and> Fin 25 < mul64 (add64 PUCK_RADIUS PADDLE_RADIUS) (add64 PUCK_RADIUS PADDLE_RADIUS)
   \<and> \<not> jseq (Fin 25) (Fin 0)
   \<and> collideWithPaddle64 \<lparr>puck_x = Fin 103, puck_y = Fin 274, puck_vx = Fin 0, puck_vy = Fin 0\<rparr>
      \<lparr>pad_id = ''a'', pad_x = Fin 100, pad_y = Fin 270, pad_vx = Fin 0, pad_vy = Fin 0, pad_lastUpdate = 0\<rparr>
     = \<lparr>puck_x = Fin (2371426678787277 / 17592186044416),
        puck_y = Fin (2783083832226611 / 8796093022208), puck_vx = Fin 0, puck_vy = Fin 0\<rparr>
   \<and> centre_distance
        \<lparr>puck_x = Fin (2371426678787277 / 17592186044416),
         puck_y = Fin (2783083832226611 / 8796093022208), puck_vx = Fin 0, puck_vy = Fin 0\<rparr>
        \<lparr>pad_id = ''a'', pad_x = Fin 100, pad_y = Fin 270, pad_vx = Fin 0, pad_vy = Fin 0, pad_lastUpdate = 0\<rparr>
       < PUCK_RADIUS + PADDLE_RADIUS
   \<and> distSq64
        \<lparr>puck_x = Fin (2371426678787277 / 17592186044416),
         puck_y = Fin (2783083832226611 / 8796093022208), puck_vx = Fin 0, puck_vy = Fin 0\<rparr>
        \<lparr>pad_id = ''a'', pad_x = Fin 100, pad_y = Fin 270, pad_vx = Fin 0, pad_vy = Fin 0, pad_lastUpdate = 0\<rparr>
       = Fin (7397514231676925 / 2199023255552)
   \<and> Fin (7397514231676925 / 2199023255552)
       < mul64 (add64 PUCK_RADIUS PADDLE_RADIUS) (add64 PUCK_RADIUS PADDLE_RADIUS)"
proof -
  let ?puck = "\<lparr>puck_x = Fin 103, puck_y = Fin 274, puck_vx = Fin 0, puck_vy = Fin 0\<rparr>"
  let ?paddle = "\<lparr>pad_id = ''a'', pad_x = Fin 100, pad_y = Fin 270, pad_vx = Fin 0, pad_vy = Fin 0,
       pad_lastUpdate = 0\<rparr>"
  let ?after = "\<lparr>puck_x = Fin (2371426678787277 / 17592186044416),
         puck_y = Fin (2783083832226611 / 8796093022208), puck_vx = Fin 0, puck_vy = Fin 0\<rparr>"
  have dx: "sub64 (Fin 103) (Fin 100) = Fin 3"
    using to_double_eval[of 1 "3" 0 6755399441055744] by (simp add: sub64_def)
  have dy: "sub64 (Fin 274) (Fin 270) = Fin 4"
    using to_double_eval[of 2 "4" 0 4503599627370496] by (simp add: sub64_def)
  have xx: "mul64 (Fin 3) (Fin 3) = Fin 9"
    using to_double_eval[of 3 "9" 0 5066549580791808] by (simp add: mul64_def)
  have yy: "mul64 (Fin 4) (Fin 4) = Fin 16"
    using to_double_eval[of 4 "16" 0 4503599627370496] by (simp add: mul64_def)
  have dsq: "add64 (Fin 9) (Fin 16) = Fin 25"
    using to_double_eval[of 4 "25" 0 7036874417766400] by (simp add: add64_def)
  have comb: "add64 (Fin 18) (Fin 40) = Fin 58"
    using to_double_eval[of 5 "58" 0 8162774324609024] by (simp add: add64_def)
  have cc: "mul64 (Fin 58) (Fin 58) = Fin 3364"
    using to_double_eval[of 11 "3364" 0 7397514231676928] by (simp add: mul64_def)
  have dst: "sqrt64 (Fin 25) = Fin 5"
    using to_double_eval[of 2 5 0 5629499534213120] by (simp add: sqrt64_def sqrt_25)
  have nx: "div64 (Fin 3) (Fin 5) = Fin (5404319552844595 / 9007199254740992)"
    using to_double_eval[of 0 "3 / 5" 1 5404319552844595] by (simp add: div64_def)
  have ny: "div64 (Fin 4) (Fin 5) = Fin (3602879701896397 / 4503599627370496)"
    using to_double_eval[of 0 "4 / 5" 1 7205759403792794] by (simp add: div64_def)
  have ov: "sub64 (Fin 58) (Fin 5) = Fin 53"
    using to_double_eval[of 5 "53" 0 7459086882832384] by (simp add: sub64_def)
  have ax: "mul64 (Fin (5404319552844595 / 9007199254740992)) (Fin 53) = Fin (2237726064849715 / 70368744177664)"
    using to_double_eval[of 4 "286428936300763535 / 9007199254740992" 0 8950904259398860] by (simp add: mul64_def)
  have ay: "mul64 (Fin (3602879701896397 / 4503599627370496)) (Fin 53) = Fin (1491817376566477 / 35184372088832)"
    using to_double_eval[of 5 "190952624200509041 / 4503599627370496" 0 5967269506265908] by (simp add: mul64_def)
  have x2: "add64 (Fin 103) (Fin (2237726064849715 / 70368744177664)) = Fin (2371426678787277 / 17592186044416)"
    using to_double_eval_tie[of 7 "9485706715149107 / 70368744177664" 0 4742853357574553] by (simp add: add64_def)
  have y2: "add64 (Fin 274) (Fin (1491817376566477 / 35184372088832)) = Fin (2783083832226611 / 8796093022208)"
    using to_double_eval_tie[of 8 "11132335328906445 / 35184372088832" 0 5566167664453222] by (simp add: add64_def)
  have dx2: "sub64 (Fin (2371426678787277 / 17592186044416)) (Fin 100) = Fin (612208074345677 / 17592186044416)"
    using to_double_eval[of 5 "612208074345677 / 17592186044416" 0 4897664594765416] by (simp add: sub64_def)
  have dy2: "sub64 (Fin (2783083832226611 / 8796093022208)) (Fin 270) = Fin (408138716230451 / 8796093022208)"
    using to_double_eval[of 5 "408138716230451 / 8796093022208" 0 6530219459687216] by (simp add: sub64_def)
  have xx2: "mul64 (Fin (612208074345677 / 17592186044416)) (Fin (612208074345677 / 17592186044416)) = Fin (166444070212731 / 137438953472)"
    using to_double_eval[of 10 "374798726294041976911688588329 / 309485009821345068724781056" 0 5326210246807392] by (simp add: mul64_def)
  have yy2: "mul64 (Fin (408138716230451 / 8796093022208)) (Fin (408138716230451 / 8796093022208)) = Fin (4734409108273229 / 2199023255552)"
    using to_double_eval[of 11 "166577211686240606534939663401 / 77371252455336267181195264" 0 4734409108273229] by (simp add: mul64_def)
  have dsq2: "add64 (Fin (166444070212731 / 137438953472)) (Fin (4734409108273229 / 2199023255552)) = Fin (7397514231676925 / 2199023255552)"
    using to_double_eval[of 11 "7397514231676925 / 2199023255552" 0 7397514231676925] by (simp add: add64_def)
  have d1: "distSq64 ?puck ?paddle = Fin 25"
    by (simp add: distSq64_def Let_def dx dy xx yy dsq)
  have c1: "Fin 25 < mul64 (add64 PUCK_RADIUS PADDLE_RADIUS) (add64 PUCK_RADIUS PADDLE_RADIUS)"
    by (simp add: combined64)
  have r: "collideWithPaddle64 ?puck ?paddle = ?after"
    by (simp add: collideWithPaddle64_def Let_def server_values dx dy xx yy dsq comb cc dst nx ny ov
        ax ay x2 y2 mul64_zero add64_zero jseq_def)
  have "sqrt ((2371426678787277 / 17592186044416 - 100) * (2371426678787277 / 17592186044416 - 100)
            + (2783083832226611 / 8796093022208 - 270) * (2783083832226611 / 8796093022208 - 270)) < (58::real)"
    by (rule sqrt_less_58) simp_all
  then have d: "centre_distance ?after ?paddle < PUCK_RADIUS + PADDLE_RADIUS"
    by (simp add: centre_distance_def server_values)
  have d2: "distSq64 ?after ?paddle = Fin (7397514231676925 / 2199023255552)"
    by (simp add: distSq64_def Let_def dx2 dy2 xx2 yy2 dsq2)
  have c2: "Fin (7397514231676925 / 2199023255552)
       < mul64 (add64 PUCK_RADIUS PADDLE_RADIUS) (add64 PUCK_RADIUS PADDLE_RADIUS)"
    by (simp add: combined64)
  show ?thesis using d1 c1 r d d2 c2 by (simp add: jseq_def)
qed

text \<open>
  The server's \<open>collideWithPaddle\<close> leaves the puck alone when the centres coincide.
\<close>

lemma collideWithPaddle_coincident:
  assumes "jseq (centre_distance puck paddle) (Fin 0)"
  shows "collideWithPaddle puck paddle = puck"
proof -
  let ?s = "(puck_x puck - pad_x paddle) * (puck_x puck - pad_x paddle)
              + (puck_y puck - pad_y paddle) * (puck_y puck - pad_y paddle)"
  from assms have "Math_sqrt ?s = Fin 0" by (simp add: jseq_def centre_distance_def)
  then have "?s = Fin 0" by (cases ?s) (simp_all split: if_splits)
  then show ?thesis by (simp add: collideWithPaddle_def Let_def jseq_def)
qed


text \<open>
  C3 fails in the client's \<open>checkPaddleCollision\<close>. With the puck and the paddle both
  at (100, 200) the distance is 0, the overlap test passes, the puck is moved to
  (140, 200), and the normal is computed as 0 / 0, which is NaN.
\<close>

theorem checkPaddleCollision_coincident_centres:
  "checkPaddleCollision
     \<lparr>gp_x = Fin 100, gp_y = Fin 200, gp_vx = Fin 3, gp_vy = Fin 0, gp_radius = Fin 15\<rparr>
     \<lparr>cp_x = Fin 100, cp_y = Fin 200, cp_radius = Fin 25\<rparr>
   = \<lparr>gp_x = Fin 140, gp_y = Fin 200, gp_vx = Fin 3, gp_vy = Fin 0, gp_radius = Fin 15\<rparr>
   \<and> client_centre_distance
       \<lparr>gp_x = Fin 100, gp_y = Fin 200, gp_vx = Fin 3, gp_vy = Fin 0, gp_radius = Fin 15\<rparr>
       \<lparr>cp_x = Fin 100, cp_y = Fin 200, cp_radius = Fin 25\<rparr> = Fin 0
   \<and> (Fin 100 - Fin 100) / Fin 0 = NaN"
  by (simp add: checkPaddleCollision_def client_centre_distance_def Let_def atan2_def)

section \<open>The order of the steps of a tick\<close>

lemma updateRoom_in_spec_order: "updateRoom room now rnd = tick_in_spec_order room now rnd"
proof -
  obtain i pl pk sc g where room: "room = \<lparr>room_id = i, players = pl, room_puck = pk, scores = sc, goalFlash = g\<rparr>"
    by (cases room)
  obtain x y vx vy where pk: "pk = \<lparr>puck_x = x, puck_y = y, puck_vx = vx, puck_vy = vy\<rparr>"
    by (cases pk)
  show ?thesis
    unfolding room pk updateRoom_def tick_in_spec_order_def detectGoal_def resolveCollisions_def
      clampPaddles_def reflectOffWalls_def applyFriction_def integratePosition_def
    by (simp add: Let_def split del: if_split cong: option.case_cong if_cong)
qed

text \<open>
  \<open>updatePuck\<close> up to the walls, and what follows the walls: the goal tests, then the
  collisions and the cap.
\<close>

lemma updatePuck_after_walls:
  "updatePuck c =
     (if gameStarted c \<and> myPlayerNumber c = Some P1
      then
        let puck = client_walls (client_friction (client_integrate (c_puck c)))
        in if gp_x puck - gp_radius puck < Fin 0
           then (c\<lparr>c_puck := puck\<rparr>, [GoalScored ''player2''])
           else if gp_x puck + gp_radius puck > GAME_WIDTH
           then (c\<lparr>c_puck := puck\<rparr>, [GoalScored ''player1''])
           else
             let puck = checkPaddleCollision puck (myPaddle c);
                 puck = checkPaddleCollision puck (opponentPaddle c);
                 speed = Math_sqrt (gp_vx puck * gp_vx puck + gp_vy puck * gp_vy puck);
                 puck = (if speed > MAX_SPEED
                         then puck\<lparr>gp_vx := (gp_vx puck / speed) * MAX_SPEED,
                                   gp_vy := (gp_vy puck / speed) * MAX_SPEED\<rparr>
                         else puck)
             in (c\<lparr>c_puck := puck\<rparr>, [PuckUpdate puck])
      else (c, []))"
  unfolding updatePuck_def client_walls_def client_friction_def client_integrate_def Let_def
  by (rule refl)

lemma goal_then_collisions:
  "(if gp_x puck - gp_radius puck < Fin 0
           then (c\<lparr>c_puck := puck\<rparr>, [GoalScored ''player2''])
           else if gp_x puck + gp_radius puck > GAME_WIDTH
           then (c\<lparr>c_puck := puck\<rparr>, [GoalScored ''player1''])
           else
             let puck = checkPaddleCollision puck (myPaddle c);
                 puck = checkPaddleCollision puck (opponentPaddle c);
                 speed = Math_sqrt (gp_vx puck * gp_vx puck + gp_vy puck * gp_vy puck);
                 puck = (if speed > MAX_SPEED
                         then puck\<lparr>gp_vx := (gp_vx puck / speed) * MAX_SPEED,
                                   gp_vy := (gp_vy puck / speed) * MAX_SPEED\<rparr>
                         else puck)
             in (c\<lparr>c_puck := puck\<rparr>, [PuckUpdate puck]))
   = (case client_goal puck of
              Some scorer \<Rightarrow> (c\<lparr>c_puck := puck\<rparr>, [GoalScored scorer])
            | None \<Rightarrow>
                (let puck = client_cap (client_collisions c puck)
                 in (c\<lparr>c_puck := puck\<rparr>, [PuckUpdate puck])))"
  by (simp add: client_goal_def client_cap_def client_collisions_def Let_def)

lemma updatePuck_order: "updatePuck c = updatePuck_goal_first c"
  unfolding updatePuck_after_walls updatePuck_goal_first_def goal_then_collisions
  by (rule refl)


text \<open>
  C2, as amended. The server's \<open>updateRoom\<close> runs integrate, friction, walls, paddle
  clamp, collisions (left, then right) and goal detection in the order of the
  specification, with no speed cap. The client's \<open>updatePuck\<close> runs integrate, friction and
  walls, then detects a goal and returns at once if there is one, and only otherwise
  resolves the collisions and caps the speed.
\<close>

theorem tick_orders:
  "updateRoom room now rnd = tick_in_spec_order room now rnd
   \<and> updatePuck c = updatePuck_goal_first c"
  using updateRoom_in_spec_order updatePuck_order by simp

lemma sqrt_225: "sqrt 225 = (15::real)"
  by (rule real_sqrt_unique) simp_all

lemma sqrt_476100: "sqrt 476100 = (690::real)"
  by (rule real_sqrt_unique) simp_all

lemma sqrt_9801_400: "sqrt (9801 / 400) = (99 / 20 :: real)"
  by (rule real_sqrt_unique) (simp_all add: power2_eq_square)


text \<open>
  C2 as stated fails for the client. A puck at (785, 200) moving at (5, 0) reaches
  (790, 200), where it overlaps the opponent's paddle at (775, 200) and is past the
  right goal line. \<open>updatePuck\<close> reports the goal and leaves the puck at 790, inside
  the paddle; with the goal detected last, as the specification orders the steps, the
  collision would first have moved the puck to 815.
\<close>

theorem updatePuck_order_counterexample:
  "updatePuck
     \<lparr>myPlayerNumber = Some P1, gameStarted = True,
      myPaddle = \<lparr>cp_x = Fin 100, cp_y = Fin 200, cp_radius = Fin 25\<rparr>,
      opponentPaddle = \<lparr>cp_x = Fin 775, cp_y = Fin 200, cp_radius = Fin 25\<rparr>,
      c_puck = \<lparr>gp_x = Fin 785, gp_y = Fin 200, gp_vx = Fin 5, gp_vy = Fin 0, gp_radius = Fin 15\<rparr>\<rparr>
   = (\<lparr>myPlayerNumber = Some P1, gameStarted = True,
      myPaddle = \<lparr>cp_x = Fin 100, cp_y = Fin 200, cp_radius = Fin 25\<rparr>,
      opponentPaddle = \<lparr>cp_x = Fin 775, cp_y = Fin 200, cp_radius = Fin 25\<rparr>,
      c_puck = \<lparr>gp_x = Fin 790, gp_y = Fin 200, gp_vx = Fin 4.95, gp_vy = Fin 0, gp_radius = Fin 15\<rparr>\<rparr>,
      [GoalScored ''player1''])
   \<and> updatePuck_in_spec_order
     \<lparr>myPlayerNumber = Some P1, gameStarted = True,
      myPaddle = \<lparr>cp_x = Fin 100, cp_y = Fin 200, cp_radius = Fin 25\<rparr>,
      opponentPaddle = \<lparr>cp_x = Fin 775, cp_y = Fin 200, cp_radius = Fin 25\<rparr>,
      c_puck = \<lparr>gp_x = Fin 785, gp_y = Fin 200, gp_vx = Fin 5, gp_vy = Fin 0, gp_radius = Fin 15\<rparr>\<rparr>
   = (\<lparr>myPlayerNumber = Some P1, gameStarted = True,
      myPaddle = \<lparr>cp_x = Fin 100, cp_y = Fin 200, cp_radius = Fin 25\<rparr>,
      opponentPaddle = \<lparr>cp_x = Fin 775, cp_y = Fin 200, cp_radius = Fin 25\<rparr>,
      c_puck = \<lparr>gp_x = Fin 815, gp_y = Fin 200, gp_vx = Fin 4.95, gp_vy = Fin 0, gp_radius = Fin 15\<rparr>\<rparr>,
      [GoalScored ''player1''])
   \<and> updatePuck
     \<lparr>myPlayerNumber = Some P1, gameStarted = True,
      myPaddle = \<lparr>cp_x = Fin 100, cp_y = Fin 200, cp_radius = Fin 25\<rparr>,
      opponentPaddle = \<lparr>cp_x = Fin 775, cp_y = Fin 200, cp_radius = Fin 25\<rparr>,
      c_puck = \<lparr>gp_x = Fin 785, gp_y = Fin 200, gp_vx = Fin 5, gp_vy = Fin 0, gp_radius = Fin 15\<rparr>\<rparr>
   \<noteq> updatePuck_in_spec_order
     \<lparr>myPlayerNumber = Some P1, gameStarted = True,
      myPaddle = \<lparr>cp_x = Fin 100, cp_y = Fin 200, cp_radius = Fin 25\<rparr>,
      opponentPaddle = \<lparr>cp_x = Fin 775, cp_y = Fin 200, cp_radius = Fin 25\<rparr>,
      c_puck = \<lparr>gp_x = Fin 785, gp_y = Fin 200, gp_vx = Fin 5, gp_vy = Fin 0, gp_radius = Fin 15\<rparr>\<rparr>"
proof -
  let ?c = "\<lparr>myPlayerNumber = Some P1, gameStarted = True,
      myPaddle = \<lparr>cp_x = Fin 100, cp_y = Fin 200, cp_radius = Fin 25\<rparr>,
      opponentPaddle = \<lparr>cp_x = Fin 775, cp_y = Fin 200, cp_radius = Fin 25\<rparr>,
      c_puck = \<lparr>gp_x = Fin 785, gp_y = Fin 200, gp_vx = Fin 5, gp_vy = Fin 0, gp_radius = Fin 15\<rparr>\<rparr>"
  let ?moved = "\<lparr>gp_x = Fin 790, gp_y = Fin 200, gp_vx = Fin 4.95, gp_vy = Fin 0, gp_radius = Fin 15\<rparr>"
  have pre: "client_walls (client_friction (client_integrate (c_puck ?c))) = ?moved"
    by (simp add: client_walls_def client_friction_def client_integrate_def Let_def game_values)
  have c1: "checkPaddleCollision ?moved (myPaddle ?c) = ?moved"
    by (simp add: checkPaddleCollision_def Let_def sqrt_476100)
  have c2: "checkPaddleCollision ?moved (opponentPaddle ?c) = ?moved\<lparr>gp_x := Fin 815\<rparr>"
    by (simp add: checkPaddleCollision_def Let_def sqrt_225 atan2_def)
  have cap: "client_cap (?moved\<lparr>gp_x := Fin 815\<rparr>) = ?moved\<lparr>gp_x := Fin 815\<rparr>"
    by (simp add: client_cap_def Let_def game_values sqrt_9801_400)
  have a: "updatePuck ?c = (?c\<lparr>c_puck := ?moved\<rparr>, [GoalScored ''player1''])"
    unfolding updatePuck_order updatePuck_goal_first_def Let_def pre
    by (simp add: client_goal_def game_values)
  have b: "updatePuck_in_spec_order ?c = (?c\<lparr>c_puck := ?moved\<lparr>gp_x := Fin 815\<rparr>\<rparr>, [GoalScored ''player1''])"
    unfolding updatePuck_in_spec_order_def Let_def pre client_collisions_def c1 c2 cap
    by (simp add: client_goal_def game_values)
  show ?thesis unfolding a b by simp
qed

section \<open>Joining a room\<close>

text \<open>
  In the relay of the 800 x 400 variant: a first, a second and a third join of room r1,
  the first player leaving, and a join after that.
\<close>

lemma relay_first_join:
  "relay_join_room Map.empty \<lparr>rs_id = ''a'', rs_roomId = None, rs_playerNumber = None\<rparr> ''r1'' u v
   = ([''r1'' \<mapsto> \<lparr>rr_players = [(''a'', P1)], rr_gameState = createGameState u v\<rparr>],
      \<lparr>rs_id = ''a'', rs_roomId = Some ''r1'', rs_playerNumber = Some P1\<rparr>,
      [RToSocket (PlayerAssigned P1 (createGameState u v))])"
  by (simp add: relay_join_room_def Let_def)

lemma relay_second_join:
  "relay_join_room
     [''r1'' \<mapsto> \<lparr>rr_players = [(''a'', P1)], rr_gameState = g\<rparr>]
     \<lparr>rs_id = ''b'', rs_roomId = None, rs_playerNumber = None\<rparr> ''r1'' u v
   = ([''r1'' \<mapsto> \<lparr>rr_players = [(''a'', P1), (''b'', P2)], rr_gameState = g\<rparr>],
      \<lparr>rs_id = ''b'', rs_roomId = Some ''r1'', rs_playerNumber = Some P2\<rparr>,
      [RToSocket (PlayerAssigned P2 g), RToRoom ''r1'' (GameStart g)])"
  by (simp add: relay_join_room_def Let_def)

lemma relay_third_join:
  "relay_join_room
     [''r1'' \<mapsto> \<lparr>rr_players = [(''a'', P1), (''b'', P2)], rr_gameState = g\<rparr>]
     \<lparr>rs_id = ''c'', rs_roomId = None, rs_playerNumber = None\<rparr> ''r1'' u v
   = ([''r1'' \<mapsto> \<lparr>rr_players = [(''a'', P1), (''b'', P2)], rr_gameState = g\<rparr>],
      \<lparr>rs_id = ''c'', rs_roomId = None, rs_playerNumber = None\<rparr>,
      [RToSocket RelayRoomFull])"
  by (simp add: relay_join_room_def Let_def)

lemma relay_first_leaves:
  "relay_disconnect
     [''r1'' \<mapsto> \<lparr>rr_players = [(''a'', P1), (''b'', P2)], rr_gameState = g\<rparr>]
     \<lparr>rs_id = ''a'', rs_roomId = Some ''r1'', rs_playerNumber = Some P1\<rparr>
   = ([''r1'' \<mapsto> \<lparr>rr_players = [(''b'', P2)], rr_gameState = g\<rparr>],
      [RToOthers ''r1'' OpponentLeft])"
  by (simp add: relay_disconnect_def Let_def)

lemma relay_join_after_leave:
  "relay_join_room
     [''r1'' \<mapsto> \<lparr>rr_players = [(''b'', P2)], rr_gameState = g\<rparr>]
     \<lparr>rs_id = ''c'', rs_roomId = None, rs_playerNumber = None\<rparr> ''r1'' u v
   = ([''r1'' \<mapsto> \<lparr>rr_players = [(''b'', P2), (''c'', P2)], rr_gameState = g\<rparr>],
      \<lparr>rs_id = ''c'', rs_roomId = Some ''r1'', rs_playerNumber = Some P2\<rparr>,
      [RToSocket (PlayerAssigned P2 g), RToRoom ''r1'' (GameStart g)])"
  by (simp add: relay_join_room_def Let_def)


text \<open>
  C5 fails in the relay. Sockets a and b join room r1 and are players 1 and 2; a leaves;
  c joins and is made player 2 as well, the number b still holds, because the number is
  taken from the count of players and not from the free slot.
\<close>

theorem relay_join_duplicates_player2:
  "(let (rs1, a, out1) = relay_join_room Map.empty
                           \<lparr>rs_id = ''a'', rs_roomId = None, rs_playerNumber = None\<rparr> ''r1'' 0.3 0.7;
        (rs2, b, out2) = relay_join_room rs1
                           \<lparr>rs_id = ''b'', rs_roomId = None, rs_playerNumber = None\<rparr> ''r1'' 0.3 0.7;
        (rs3, out3) = relay_disconnect rs2 a;
        (rs4, c, out4) = relay_join_room rs3
                           \<lparr>rs_id = ''c'', rs_roomId = None, rs_playerNumber = None\<rparr> ''r1'' 0.3 0.7
    in (rs_playerNumber a, rs_playerNumber b, rs_playerNumber c, map_option rr_players (rs4 ''r1'')))
   = (Some P1, Some P2, Some P2, Some [(''b'', P2), (''c'', P2)])"
  by (simp add: relay_first_join relay_second_join relay_first_leaves relay_join_after_leave)


text \<open>
  The server-authoritative \<open>join-room\<close> does assign the free side: in a room with a free
  side, the joiner gets a side that was free, and the other side is left as it was.
\<close>

lemma join_room_takes_free_side:
  assumes "roomId \<noteq> []" and "rs roomId = Some room"
    and "players room Left = None \<or> players room Right = None"
  shows "\<exists>rs' sock' out s. join_room rs sock roomId now rnd = (rs', sock', out)
      \<and> data_side sock' = Some s \<and> players room s = None
      \<and> (\<exists>room'. rs' roomId = Some room' \<and> players room' s \<noteq> None
            \<and> (\<forall>t. t \<noteq> s \<longrightarrow> players room' t = players room t))"
  using assms
  by (cases "players room Left") (auto simp: join_room_def Let_def)

section \<open>Goals\<close>

lemma updatePuck_past_right:
  assumes "gameStarted c" and "myPlayerNumber c = Some P1"
    and "c_puck c = \<lparr>gp_x = Fin x, gp_y = Fin 200, gp_vx = Fin vx, gp_vy = Fin 0, gp_radius = Fin 15\<rparr>"
    and "785 < x + vx"
  shows "updatePuck c =
     (c\<lparr>c_puck := \<lparr>gp_x = Fin (x + vx), gp_y = Fin 200, gp_vx = Fin (vx * 0.99), gp_vy = Fin 0,
                     gp_radius = Fin 15\<rparr>\<rparr>,
      [GoalScored ''player1''])"
proof -
  have pre: "client_walls (client_friction (client_integrate (c_puck c)))
      = \<lparr>gp_x = Fin (x + vx), gp_y = Fin 200, gp_vx = Fin (vx * 0.99), gp_vy = Fin 0,
         gp_radius = Fin 15\<rparr>"
    unfolding assms(3)
    by (simp add: client_walls_def client_friction_def client_integrate_def Let_def game_values)
  show ?thesis
    unfolding updatePuck_order updatePuck_goal_first_def Let_def pre
    using assms(1,2,4) by (simp add: client_goal_def game_values)
qed

lemma updatePuck_scenario:
  assumes "gameStarted c" and "myPlayerNumber c = Some P1"
    and "c_puck c = \<lparr>gp_x = Fin 795, gp_y = Fin 200, gp_vx = Fin 5, gp_vy = Fin 0, gp_radius = Fin 15\<rparr>"
  shows "updatePuck c =
     (c\<lparr>c_puck := \<lparr>gp_x = Fin 800, gp_y = Fin 200, gp_vx = Fin 4.95, gp_vy = Fin 0,
                     gp_radius = Fin 15\<rparr>\<rparr>,
      [GoalScored ''player1''])"
  using updatePuck_past_right [of c 795 5] assms by simp

lemma relay_goal_scored_bound:
  assumes "rs_roomId sock = Some roomId" and "roomId \<noteq> []" and "rs roomId = Some room"
  shows "relay_goal_scored rs sock (GScorer scorer) r1 r2 =
     Inr (rs(roomId \<mapsto> room\<lparr>rr_gameState := (rr_gameState room)
            \<lparr>gs_scores := (gs_scores (rr_gameState room))(scorer \<mapsto>
                 (case gs_scores (rr_gameState room) scorer of None \<Rightarrow> NaN | Some n \<Rightarrow> n + Fin 1)),
             gs_puck := \<lparr>gp_x = Fin 400, gp_y = Fin 200, gp_vx = Fin ((r1 - 0.5) * 4),
                          gp_vy = Fin ((r2 - 0.5) * 4), gp_radius = Fin 15\<rparr>\<rparr>\<rparr>),
          [RToRoom roomId (Goal scorer
             ((gs_scores (rr_gameState room))(scorer \<mapsto>
                 (case gs_scores (rr_gameState room) scorer of None \<Rightarrow> NaN | Some n \<Rightarrow> n + Fin 1)))
             \<lparr>gp_x = Fin 400, gp_y = Fin 200, gp_vx = Fin ((r1 - 0.5) * 4),
              gp_vy = Fin ((r2 - 0.5) * 4), gp_radius = Fin 15\<rparr>)])"
  using assms by (simp add: relay_goal_scored_def Let_def game_values)


text \<open>
  C6, as amended. In the 800 x 400 variant, the running client with the puck at
  (795, 200), velocity (5, 0) and radius 15 reports a goal of player1 on its next step;
  the relay, on that report from a socket bound to a room whose player1 score is n, sets
  the score to n + 1, leaves player2's score alone, and resets the puck to (400, 200)
  with velocity ((r1 - 0.5) * 4, (r2 - 0.5) * 4) for its two random draws r1 and r2:
  a velocity that is zero exactly when both draws are 0.5.
\<close>

theorem right_goal_scenario:
  assumes "gameStarted c" and "myPlayerNumber c = Some P1"
    and "c_puck c = \<lparr>gp_x = Fin 795, gp_y = Fin 200, gp_vx = Fin 5, gp_vy = Fin 0, gp_radius = Fin 15\<rparr>"
    and "rs_roomId sock = Some roomId" and "roomId \<noteq> []" and "rs roomId = Some room"
    and "gs_scores (rr_gameState room) ''player1'' = Some (Fin n)"
  shows "snd (updatePuck c) = [GoalScored ''player1'']
     \<and> (\<exists>rs' out room'. relay_goal_scored rs sock (GScorer ''player1'') r1 r2 = Inr (rs', out)
          \<and> rs' roomId = Some room'
          \<and> gs_scores (rr_gameState room') ''player1'' = Some (Fin (n + 1))
          \<and> gs_scores (rr_gameState room') ''player2'' = gs_scores (rr_gameState room) ''player2''
          \<and> gs_puck (rr_gameState room')
              = \<lparr>gp_x = Fin 400, gp_y = Fin 200, gp_vx = Fin ((r1 - 0.5) * 4),
                 gp_vy = Fin ((r2 - 0.5) * 4), gp_radius = Fin 15\<rparr>
          \<and> ((gp_vx (gs_puck (rr_gameState room')), gp_vy (gs_puck (rr_gameState room')))
                = (Fin 0, Fin 0)) = (r1 = 0.5 \<and> r2 = 0.5))"
proof -
  let ?room' = "room\<lparr>rr_gameState := (rr_gameState room)
            \<lparr>gs_scores := (gs_scores (rr_gameState room))(''player1'' \<mapsto>
                 (case gs_scores (rr_gameState room) ''player1'' of None \<Rightarrow> NaN | Some n \<Rightarrow> n + Fin 1)),
             gs_puck := \<lparr>gp_x = Fin 400, gp_y = Fin 200, gp_vx = Fin ((r1 - 0.5) * 4),
                          gp_vy = Fin ((r2 - 0.5) * 4), gp_radius = Fin 15\<rparr>\<rparr>\<rparr>"
  have a: "snd (updatePuck c) = [GoalScored ''player1'']"
    using updatePuck_scenario [OF assms(1-3)] by simp
  have b: "\<exists>rs' out. relay_goal_scored rs sock (GScorer ''player1'') r1 r2 = Inr (rs', out)
      \<and> rs' roomId = Some ?room'"
    using relay_goal_scored_bound [of sock roomId rs room "''player1''" r1 r2] assms(4-6) by simp
  have c: "gs_scores (rr_gameState ?room') ''player1'' = Some (Fin (n + 1))"
    "gs_scores (rr_gameState ?room') ''player2'' = gs_scores (rr_gameState room) ''player2''"
    "gs_puck (rr_gameState ?room')
              = \<lparr>gp_x = Fin 400, gp_y = Fin 200, gp_vx = Fin ((r1 - 0.5) * 4),
                 gp_vy = Fin ((r2 - 0.5) * 4), gp_radius = Fin 15\<rparr>"
    "((gp_vx (gs_puck (rr_gameState ?room')), gp_vy (gs_puck (rr_gameState ?room')))
                = (Fin 0, Fin 0)) = (r1 = 0.5 \<and> r2 = 0.5)"
    using assms(7) by (simp_all add: mult.commute)
  from b c have "\<exists>rs' out room'. relay_goal_scored rs sock (GScorer ''player1'') r1 r2 = Inr (rs', out)
          \<and> rs' roomId = Some room'
          \<and> gs_scores (rr_gameState room') ''player1'' = Some (Fin (n + 1))
          \<and> gs_scores (rr_gameState room') ''player2'' = gs_scores (rr_gameState room) ''player2''
          \<and> gs_puck (rr_gameState room')
              = \<lparr>gp_x = Fin 400, gp_y = Fin 200, gp_vx = Fin ((r1 - 0.5) * 4),
                 gp_vy = Fin ((r2 - 0.5) * 4), gp_radius = Fin 15\<rparr>
          \<and> ((gp_vx (gs_puck (rr_gameState room')), gp_vy (gs_puck (rr_gameState room')))
                = (Fin 0, Fin 0)) = (r1 = 0.5 \<and> r2 = 0.5)"
    by blast
  with a show ?thesis by (rule conjI)
qed



text \<open>With a score of 0 and the draws 0.25 and 0.75: score 1, velocity (-1, 1).\<close>

theorem right_goal_scenario_witness:
  "snd (updatePuck
     \<lparr>myPlayerNumber = Some P1, gameStarted = True,
      myPaddle = \<lparr>cp_x = Fin 100, cp_y = Fin 200, cp_radius = Fin 25\<rparr>,
      opponentPaddle = \<lparr>cp_x = Fin 700, cp_y = Fin 200, cp_radius = Fin 25\<rparr>,
      c_puck = \<lparr>gp_x = Fin 795, gp_y = Fin 200, gp_vx = Fin 5, gp_vy = Fin 0, gp_radius = Fin 15\<rparr>\<rparr>)
     = [GoalScored ''player1'']
   \<and> gs_scores (createGameState 0.3 0.7) ''player1'' = Some (Fin 0)
   \<and> (\<exists>rs' out room'.
        relay_goal_scored
          [''r1'' \<mapsto> \<lparr>rr_players = [(''a'', P1), (''b'', P2)], rr_gameState = createGameState 0.3 0.7\<rparr>]
          \<lparr>rs_id = ''a'', rs_roomId = Some ''r1'', rs_playerNumber = Some P1\<rparr>
          (GScorer ''player1'') 0.25 0.75
        = Inr (rs', out)
        \<and> rs' ''r1'' = Some room'
        \<and> gs_scores (rr_gameState room') ''player1'' = Some (Fin 1)
        \<and> gs_puck (rr_gameState room')
            = \<lparr>gp_x = Fin 400, gp_y = Fin 200, gp_vx = Fin (- 1), gp_vy = Fin 1, gp_radius = Fin 15\<rparr>)"
proof -
  let ?c = "\<lparr>myPlayerNumber = Some P1, gameStarted = True,
      myPaddle = \<lparr>cp_x = Fin 100, cp_y = Fin 200, cp_radius = Fin 25\<rparr>,
      opponentPaddle = \<lparr>cp_x = Fin 700, cp_y = Fin 200, cp_radius = Fin 25\<rparr>,
      c_puck = \<lparr>gp_x = Fin 795, gp_y = Fin 200, gp_vx = Fin 5, gp_vy = Fin 0, gp_radius = Fin 15\<rparr>\<rparr>"
  let ?room = "\<lparr>rr_players = [(''a'', P1), (''b'', P2)], rr_gameState = createGameState 0.3 0.7\<rparr>"
  let ?sock = "\<lparr>rs_id = ''a'', rs_roomId = Some ''r1'', rs_playerNumber = Some P1\<rparr>"
  have s0: "gs_scores (rr_gameState ?room) ''player1'' = Some (Fin 0)"
    by (simp add: createGameState_def)
  have "snd (updatePuck ?c) = [GoalScored ''player1'']
     \<and> (\<exists>rs' out room'. relay_goal_scored [''r1'' \<mapsto> ?room] ?sock (GScorer ''player1'') 0.25 0.75
                        = Inr (rs', out)
          \<and> rs' ''r1'' = Some room'
          \<and> gs_scores (rr_gameState room') ''player1'' = Some (Fin (0 + 1))
          \<and> gs_scores (rr_gameState room') ''player2'' = gs_scores (rr_gameState ?room) ''player2''
          \<and> gs_puck (rr_gameState room')
              = \<lparr>gp_x = Fin 400, gp_y = Fin 200, gp_vx = Fin ((0.25 - 0.5) * 4),
                 gp_vy = Fin ((0.75 - 0.5) * 4), gp_radius = Fin 15\<rparr>
          \<and> ((gp_vx (gs_puck (rr_gameState room')), gp_vy (gs_puck (rr_gameState room')))
                = (Fin 0, Fin 0)) = ((0.25::real) = 0.5 \<and> (0.75::real) = 0.5))"
    by (rule right_goal_scenario [of ?c ?sock "''r1''" "[''r1'' \<mapsto> ?room]" ?room 0 "0.25" "0.75"])
      (simp_all add: createGameState_def)
  then show ?thesis using s0 by auto
qed


text \<open>
  C6 as stated fails on the velocity: with both draws equal to 0.5, a value
  \<open>Math.random()\<close> can return, the puck is reset with the zero velocity.
\<close>

theorem respawn_velocity_counterexample:
  "snd (updatePuck
     \<lparr>myPlayerNumber = Some P1, gameStarted = True,
      myPaddle = \<lparr>cp_x = Fin 100, cp_y = Fin 200, cp_radius = Fin 25\<rparr>,
      opponentPaddle = \<lparr>cp_x = Fin 700, cp_y = Fin 200, cp_radius = Fin 25\<rparr>,
      c_puck = \<lparr>gp_x = Fin 795, gp_y = Fin 200, gp_vx = Fin 5, gp_vy = Fin 0, gp_radius = Fin 15\<rparr>\<rparr>)
     = [GoalScored ''player1'']
   \<and> (\<exists>rs' out room'.
        relay_goal_scored
          [''r1'' \<mapsto> \<lparr>rr_players = [(''a'', P1), (''b'', P2)], rr_gameState = createGameState 0.3 0.7\<rparr>]
          \<lparr>rs_id = ''a'', rs_roomId = Some ''r1'', rs_playerNumber = Some P1\<rparr>
          (GScorer ''player1'') 0.5 0.5
        = Inr (rs', out)
        \<and> rs' ''r1'' = Some room'
        \<and> gs_puck (rr_gameState room')
            = \<lparr>gp_x = Fin 400, gp_y = Fin 200, gp_vx = Fin 0, gp_vy = Fin 0, gp_radius = Fin 15\<rparr>)"
proof -
  let ?c = "\<lparr>myPlayerNumber = Some P1, gameStarted = True,
      myPaddle = \<lparr>cp_x = Fin 100, cp_y = Fin 200, cp_radius = Fin 25\<rparr>,
      opponentPaddle = \<lparr>cp_x = Fin 700, cp_y = Fin 200, cp_radius = Fin 25\<rparr>,
      c_puck = \<lparr>gp_x = Fin 795, gp_y = Fin 200, gp_vx = Fin 5, gp_vy = Fin 0, gp_radius = Fin 15\<rparr>\<rparr>"
  let ?room = "\<lparr>rr_players = [(''a'', P1), (''b'', P2)], rr_gameState = createGameState 0.3 0.7\<rparr>"
  let ?sock = "\<lparr>rs_id = ''a'', rs_roomId = Some ''r1'', rs_playerNumber = Some P1\<rparr>"
  have a: "snd (updatePuck ?c) = [GoalScored ''player1'']"
    using updatePuck_scenario [of ?c] by simp
  have b: "\<exists>rs' out room'.
        relay_goal_scored [''r1'' \<mapsto> ?room] ?sock (GScorer ''player1'') 0.5 0.5
        = Inr (rs', out)
        \<and> rs' ''r1'' = Some room'
        \<and> gs_puck (rr_gameState room')
            = \<lparr>gp_x = Fin 400, gp_y = Fin 200, gp_vx = Fin 0, gp_vy = Fin 0, gp_radius = Fin 15\<rparr>"
    using relay_goal_scored_bound [of ?sock "''r1''" "[''r1'' \<mapsto> ?room]" ?room "''player1''" "0.5" "0.5"]
    by simp
  from a b show ?thesis by (rule conjI)
qed


text \<open>
  C7 fails in the 800 x 400 variant. The client does not move the puck back when it
  reports a goal: it waits for the relay's answer. Run again before the answer arrives,
  it finds the puck still past the line (at 800, then at 804.95) and reports the same
  crossing a second time, and the relay counts every report: player1 goes from 0 to 2.
\<close>

theorem goal_counted_twice:
  "(let c0 = \<lparr>myPlayerNumber = Some P1, gameStarted = True,
               myPaddle = \<lparr>cp_x = Fin 100, cp_y = Fin 200, cp_radius = Fin 25\<rparr>,
               opponentPaddle = \<lparr>cp_x = Fin 700, cp_y = Fin 200, cp_radius = Fin 25\<rparr>,
               c_puck = \<lparr>gp_x = Fin 795, gp_y = Fin 200, gp_vx = Fin 5, gp_vy = Fin 0,
                          gp_radius = Fin 15\<rparr>\<rparr>;
        (c1, out1) = updatePuck c0;
        (c2, out2) = updatePuck c1
    in (out1, out2, gp_x (c_puck c1), gp_x (c_puck c2)))
   = ([GoalScored ''player1''], [GoalScored ''player1''], Fin 800, Fin 804.95)
   \<and> (\<exists>rs1 o1 rs2 o2 room2.
        relay_goal_scored
          [''r1'' \<mapsto> \<lparr>rr_players = [(''a'', P1), (''b'', P2)], rr_gameState = createGameState 0.3 0.7\<rparr>]
          \<lparr>rs_id = ''a'', rs_roomId = Some ''r1'', rs_playerNumber = Some P1\<rparr>
          (GScorer ''player1'') 0.25 0.75 = Inr (rs1, o1)
        \<and> relay_goal_scored rs1
          \<lparr>rs_id = ''a'', rs_roomId = Some ''r1'', rs_playerNumber = Some P1\<rparr>
          (GScorer ''player1'') 0.25 0.75 = Inr (rs2, o2)
        \<and> gs_scores (createGameState 0.3 0.7) ''player1'' = Some (Fin 0)
        \<and> rs2 ''r1'' = Some room2
        \<and> gs_scores (rr_gameState room2) ''player1'' = Some (Fin 2))"
proof -
  let ?c0 = "\<lparr>myPlayerNumber = Some P1, gameStarted = True,
               myPaddle = \<lparr>cp_x = Fin 100, cp_y = Fin 200, cp_radius = Fin 25\<rparr>,
               opponentPaddle = \<lparr>cp_x = Fin 700, cp_y = Fin 200, cp_radius = Fin 25\<rparr>,
               c_puck = \<lparr>gp_x = Fin 795, gp_y = Fin 200, gp_vx = Fin 5, gp_vy = Fin 0,
                          gp_radius = Fin 15\<rparr>\<rparr>"
  let ?c1 = "?c0\<lparr>c_puck := \<lparr>gp_x = Fin 800, gp_y = Fin 200, gp_vx = Fin 4.95, gp_vy = Fin 0,
                          gp_radius = Fin 15\<rparr>\<rparr>"
  let ?c2 = "?c1\<lparr>c_puck := \<lparr>gp_x = Fin 804.95, gp_y = Fin 200, gp_vx = Fin 4.9005, gp_vy = Fin 0,
                          gp_radius = Fin 15\<rparr>\<rparr>"
  let ?room = "\<lparr>rr_players = [(''a'', P1), (''b'', P2)], rr_gameState = createGameState 0.3 0.7\<rparr>"
  let ?sock = "\<lparr>rs_id = ''a'', rs_roomId = Some ''r1'', rs_playerNumber = Some P1\<rparr>"
  have f1: "updatePuck ?c0 = (?c1, [GoalScored ''player1''])"
    using updatePuck_past_right [of ?c0 795 5] by simp
  have f2: "updatePuck ?c1 = (?c2, [GoalScored ''player1''])"
    using updatePuck_past_right [of ?c1 800 "4.95"] by simp
  have client: "(let c0 = ?c0; (c1, out1) = updatePuck c0; (c2, out2) = updatePuck c1
    in (out1, out2, gp_x (c_puck c1), gp_x (c_puck c2)))
   = ([GoalScored ''player1''], [GoalScored ''player1''], Fin 800, Fin 804.95)"
    unfolding Let_def f1 prod.case f2 by simp
  obtain rs1 o1 where g1: "relay_goal_scored [''r1'' \<mapsto> ?room] ?sock (GScorer ''player1'') 0.25 0.75
      = Inr (rs1, o1)"
    and r1: "rs1 = [''r1'' \<mapsto> ?room\<lparr>rr_gameState := (rr_gameState ?room)
            \<lparr>gs_scores := (gs_scores (rr_gameState ?room))(''player1'' \<mapsto> Fin 1),
             gs_puck := \<lparr>gp_x = Fin 400, gp_y = Fin 200, gp_vx = Fin (- 1),
                          gp_vy = Fin 1, gp_radius = Fin 15\<rparr>\<rparr>\<rparr>]"
    using relay_goal_scored_bound [of ?sock "''r1''" "[''r1'' \<mapsto> ?room]" ?room "''player1''" "0.25" "0.75"]
    by (simp add: createGameState_def)
  let ?room1 = "?room\<lparr>rr_gameState := (rr_gameState ?room)
            \<lparr>gs_scores := (gs_scores (rr_gameState ?room))(''player1'' \<mapsto> Fin 1),
             gs_puck := \<lparr>gp_x = Fin 400, gp_y = Fin 200, gp_vx = Fin (- 1),
                          gp_vy = Fin 1, gp_radius = Fin 15\<rparr>\<rparr>\<rparr>"
  obtain rs2 o2 room2 where g2: "relay_goal_scored rs1 ?sock (GScorer ''player1'') 0.25 0.75
      = Inr (rs2, o2)"
    and r2: "rs2 ''r1'' = Some room2" "gs_scores (rr_gameState room2) ''player1'' = Some (Fin 2)"
    using relay_goal_scored_bound [of ?sock "''r1''" rs1 ?room1 "''player1''" "0.25" "0.75"]
    unfolding r1 by simp
  have s0: "gs_scores (createGameState 0.3 0.7) ''player1'' = Some (Fin 0)"
    by (simp add: createGameState_def)
  from g1 g2 r2 s0 have "\<exists>rs1 o1 rs2 o2 room2.
        relay_goal_scored [''r1'' \<mapsto> ?room] ?sock (GScorer ''player1'') 0.25 0.75 = Inr (rs1, o1)
        \<and> relay_goal_scored rs1 ?sock (GScorer ''player1'') 0.25 0.75 = Inr (rs2, o2)
        \<and> gs_scores (createGameState 0.3 0.7) ''player1'' = Some (Fin 0)
        \<and> rs2 ''r1'' = Some room2
        \<and> gs_scores (rr_gameState room2) ''player1'' = Some (Fin 2)"
    by blast
  with client show ?thesis by (rule conjI)
qed

text \<open>
  The server-authoritative tick counts a crossing once: a tick leaves the scores alone,
  or adds 1 to one side and puts a new puck at the centre (480, 270), where the next
  tick finds no goal.
\<close>

lemma updateRoom_scores:
  "scores (updateRoom room now rnd) = scores room
   \<or> (\<exists>s. scores (updateRoom room now rnd) = (scores room)(s := scores room s + 1)
          \<and> room_puck (updateRoom room now rnd) = spawnPuck (Some s) rnd
          \<and> puck_x (room_puck (updateRoom room now rnd)) = Fin 480
          \<and> puck_y (room_puck (updateRoom room now rnd)) = Fin 270)"
proof -
  let ?r = "resolveCollisions (clampPaddles
      (room\<lparr>room_puck := reflectOffWalls (applyFriction (integratePosition (room_puck room)))\<rparr>))"
  have sc: "scores ?r = scores room"
    by (simp add: resolveCollisions_def clampPaddles_def Let_def)
  have centre: "puck_x (spawnPuck (Some s) rnd) = Fin 480 \<and> puck_y (spawnPuck (Some s) rnd) = Fin 270" for s
    by (simp add: spawnPuck_def Let_def server_values)
  show ?thesis
    unfolding updateRoom_in_spec_order tick_in_spec_order_def detectGoal_def
    using centre by (auto simp: scoreGoal_def sc)
qed

end
